(* ===== verification/JS_Prelude.thy ===== *)
theory JS_Prelude
  imports Main "HOL-Library.Word"
begin

text \<open>
  Shared vocabulary of the development. A JavaScript string is a sequence of UTF-16 code
  units, modelled as a list of \<open>16 word\<close>; \<open>js\<close> turns an ASCII literal of the
  source into such a list. The errors a builtin or a \<open>throw\<close> of the source can raise
  are the constructors of \<open>js_error\<close>, and a fallible operation returns
  \<open>js_error + 'a\<close> (\<open>Inl\<close> the error). The String and Array builtins the
  components share (split on one code unit, join, lastIndexOf, substring, a global
  replace of one code unit, decimal printing, hexadecimal digits) are defined here with
  the lemmas the components' proofs use.
\<close>

type_synonym cu = "16 word"
type_synonym jsstr = "cu list"

named_theorems js_string "equations of the modelled String and Array builtins"

definition js :: "string \<Rightarrow> jsstr" where
  "js s = map (\<lambda>c. word_of_nat (of_char c)) s"

datatype js_error = URIError | SyntaxError | TypeError | ReferenceError | Error jsstr

subsection \<open>Strings\<close>

text \<open>\<open>s.split(c)\<close> for a one-code-unit separator: the pieces between occurrences.\<close>

fun split_on :: "cu \<Rightarrow> jsstr \<Rightarrow> jsstr list" where
  "split_on c [] = [[]]"
| "split_on c (x # xs) =
     (let r = split_on c xs in if x = c then [] # r else (x # hd r) # tl r)"

text \<open>\<open>ps.join(sep)\<close> for an array of strings.\<close>

fun join_with :: "jsstr \<Rightarrow> jsstr list \<Rightarrow> jsstr" where
  "join_with sep [] = []"
| "join_with sep [p] = p"
| "join_with sep (p # ps) = p @ sep @ join_with sep ps"

text \<open>\<open>s.lastIndexOf(c)\<close>: the last index of \<open>c\<close>, or \<open>-1\<close>.\<close>

fun last_index_of :: "cu \<Rightarrow> jsstr \<Rightarrow> int" where
  "last_index_of c [] = -1"
| "last_index_of c (x # xs) =
     (let r = last_index_of c xs in if 0 \<le> r then r + 1 else if x = c then 0 else -1)"

text \<open>\<open>s.substring(k)\<close>: a negative start is clamped to 0, one past the end gives \<open>''''\<close>.\<close>

definition substring_from :: "jsstr \<Rightarrow> int \<Rightarrow> jsstr" where
  "substring_from s k = drop (nat k) s"

text \<open>\<open>s.replace(/c/g, r)\<close> for a regular expression that is one literal code unit.\<close>

definition replace_all_cu :: "cu \<Rightarrow> jsstr \<Rightarrow> jsstr \<Rightarrow> jsstr" where
  "replace_all_cu c r s = concat (map (\<lambda>x. if x = c then r else [x]) s)"

text \<open>\<open>String(n)\<close> for a non-negative integral number: its decimal digits.\<close>

fun show_nat :: "nat \<Rightarrow> jsstr" where
  "show_nat n = (if n < 10 then [48 + word_of_nat n] else show_nat (n div 10) @ [48 + word_of_nat (n mod 10)])"

declare show_nat.simps [simp del]

definition show_int :: "int \<Rightarrow> jsstr" where
  "show_int i = (if i < 0 then 45 # show_nat (nat (- i)) else show_nat (nat i))"

text \<open>Hexadecimal digits: the value of a digit of either case, and the upper-case digit
  \<open>encodeURIComponent\<close> writes.\<close>

definition hex_val :: "cu \<Rightarrow> nat option" where
  "hex_val c =
     (if 48 \<le> c \<and> c \<le> 57 then Some (unat c - 48)
      else if 65 \<le> c \<and> c \<le> 70 then Some (unat c - 55)
      else if 97 \<le> c \<and> c \<le> 102 then Some (unat c - 87)
      else None)"

definition hex_digit :: "nat \<Rightarrow> cu" where
  "hex_digit n = (if n < 10 then 48 + word_of_nat n else 55 + word_of_nat n)"

text \<open>The code units \<open>\s\<close> matches: WhiteSpace and LineTerminator of ECMA-262.\<close>

definition is_js_space :: "cu \<Rightarrow> bool" where
  "is_js_space c \<longleftrightarrow>
     c \<in> {0x09, 0x0A, 0x0B, 0x0C, 0x0D, 0x20, 0xA0, 0x1680, 0x2028, 0x2029, 0x202F, 0x205F,
          0x3000, 0xFEFF} \<or> (0x2000 \<le> c \<and> c \<le> 0x200A)"

lemmas [js_string] = split_on.simps join_with.simps last_index_of.simps
  substring_from_def replace_all_cu_def show_int_def

subsection \<open>Lemmas on code units\<close>

lemma unat_of_nat_cu [simp]: "n < 65536 \<Longrightarrow> unat (word_of_nat n :: cu) = n"
  by (simp add: unat_of_nat)

lemma cu_eq_iff_unat: "(a :: cu) = b \<longleftrightarrow> unat a = unat b"
  by (simp add: word_unat_eq_iff)

lemma cu_le_iff_unat: "(a :: cu) \<le> b \<longleftrightarrow> unat a \<le> unat b"
  by (simp add: word_le_nat_alt)

lemma unat_cu_less: "unat (c :: cu) < 65536"
  using unsigned_less [of c, where ?'a = nat] by simp

lemma hex_val_bound: "hex_val c = Some n \<Longrightarrow> n < 16"
  by (auto simp: hex_val_def word_le_nat_alt split: if_splits)

lemma hex_val_hex_digit [simp]: "n < 16 \<Longrightarrow> hex_val (hex_digit n) = Some n"
  by (auto simp: hex_val_def hex_digit_def word_le_nat_alt unat_word_ariths)

lemma hex_digit_range: "n < 16 \<Longrightarrow> (48 \<le> hex_digit n \<and> hex_digit n \<le> 57) \<or> (65 \<le> hex_digit n \<and> hex_digit n \<le> 70)"
  by (auto simp: hex_digit_def word_le_nat_alt unat_word_ariths)

subsection \<open>Lemmas on split and join\<close>

lemma split_on_not_Nil [simp]: "split_on c s \<noteq> []"
  by (induction s) (auto simp: Let_def)

lemma split_on_no_sep: "c \<notin> set s \<Longrightarrow> split_on c s = [s]"
  by (induction s) (auto simp: Let_def)

lemma split_on_append_sep: "split_on c (u @ c # v) = split_on c u @ split_on c v"
proof (induction u)
  case Nil
  then show ?case by simp
next
  case (Cons x u)
  obtain p ps where "split_on c u = p # ps"
    by (cases "split_on c u") auto
  with Cons show ?case by (simp add: Let_def)
qed

lemma split_on_join:
  "ps \<noteq> [] \<Longrightarrow> \<forall>p\<in>set ps. c \<notin> set p \<Longrightarrow> split_on c (join_with [c] ps) = ps"
proof (induction ps)
  case Nil
  then show ?case by simp
next
  case (Cons p ps)
  then have p: "split_on c p = [p]" by (simp add: split_on_no_sep)
  show ?case
  proof (cases "ps = []")
    case True
    with p show ?thesis by simp
  next
    case False
    then obtain q qs where ps: "ps = q # qs" by (cases ps) auto
    with Cons have "split_on c (join_with [c] ps) = ps" by simp
    with p ps show ?thesis by (simp add: split_on_append_sep)
  qed
qed

lemma join_split_on: "join_with [c] (split_on c s) = s"
proof (induction s)
  case Nil
  then show ?case by simp
next
  case (Cons x xs)
  obtain p ps where eq: "split_on c xs = p # ps"
    by (cases "split_on c xs") auto
  with Cons show ?case by (cases ps) (auto simp: Let_def)
qed

lemma split_on_pieces: "p \<in> set (split_on c s) \<Longrightarrow> c \<notin> set p"
proof (induction s arbitrary: p)
  case Nil
  then show ?case by simp
next
  case (Cons x xs)
  obtain q qs where eq: "split_on c xs = q # qs"
    by (cases "split_on c xs") auto
  with Cons show ?case by (auto simp: Let_def split: if_splits)
qed

lemma join_with_append: "ps \<noteq> [] \<Longrightarrow> qs \<noteq> [] \<Longrightarrow> join_with sep (ps @ qs) = join_with sep ps @ sep @ join_with sep qs"
  by (induction sep ps rule: join_with.induct) (auto simp: neq_Nil_conv)

lemma set_join_with: "set (join_with sep ps) \<subseteq> \<Union> (set (map set ps)) \<union> set sep"
  by (induction sep ps rule: join_with.induct) auto

subsection \<open>Lemmas on lastIndexOf and substring\<close>

lemma last_index_of_absent: "c \<notin> set s \<Longrightarrow> last_index_of c s = -1"
  by (induction s) (auto simp: Let_def)

lemma last_index_of_bound: "-1 \<le> last_index_of c s \<and> last_index_of c s < int (length s)"
  by (induction s) (auto simp: Let_def)

lemma suffix_after_last: "c \<notin> set (substring_from s (last_index_of c s + 1))"
proof (induction s)
  case Nil
  then show ?case by (simp add: substring_from_def)
next
  case (Cons x xs)
  show ?case
  proof (cases "0 \<le> last_index_of c xs")
    case True
    then have "nat (last_index_of c xs + 1 + 1) = Suc (nat (last_index_of c xs + 1))"
      by simp
    with True Cons show ?thesis by (simp add: substring_from_def Let_def)
  next
    case False
    with last_index_of_bound [of c xs] have "last_index_of c xs = -1" by simp
    with Cons show ?thesis by (auto simp: substring_from_def Let_def)
  qed
qed

lemma substring_after_absent: "c \<notin> set s \<Longrightarrow> substring_from s (last_index_of c s + 1) = s"
  by (simp add: last_index_of_absent substring_from_def)

lemma substring_after_last_append:
  "c \<notin> set v \<Longrightarrow> substring_from (u @ c # v) (last_index_of c (u @ c # v) + 1) = v"
proof (induction u)
  case Nil
  then show ?case by (simp add: substring_from_def last_index_of_absent Let_def)
next
  case (Cons x u)
  have "0 \<le> last_index_of c (u @ c # v)"
  proof (induction u)
    case Nil
    then show ?case using Cons.prems by (simp add: last_index_of_absent Let_def)
  next
    case (Cons y u)
    then show ?case by (simp add: Let_def)
  qed
  with Cons show ?case
    by (simp add: substring_from_def Let_def nat_add_distrib)
qed

subsection \<open>Lemmas on the global replace\<close>

lemma replace_all_cu_absent: "c \<notin> set s \<Longrightarrow> replace_all_cu c r s = s"
  by (induction s) (auto simp: replace_all_cu_def)

lemma replace_all_cu_append [simp]:
  "replace_all_cu c r (u @ v) = replace_all_cu c r u @ replace_all_cu c r v"
  by (simp add: replace_all_cu_def)

lemma replace_all_cu_Cons [simp]:
  "replace_all_cu c r (x # s) = (if x = c then r else [x]) @ replace_all_cu c r s"
  by (simp add: replace_all_cu_def)

lemma replace_all_cu_Nil [simp]: "replace_all_cu c r [] = []"
  by (simp add: replace_all_cu_def)

lemma replace_join_sep:
  "\<forall>p\<in>set ps. c \<notin> set p \<Longrightarrow> replace_all_cu c r (join_with [c] ps) = join_with r ps"
  by (induction "[c]" ps rule: join_with.induct) (simp_all add: replace_all_cu_absent)

lemma replace_join:
  "replace_all_cu c r (join_with sep ps) = join_with (replace_all_cu c r sep) (map (replace_all_cu c r) ps)"
  by (induction sep ps rule: join_with.induct) simp_all

lemma join_with_Cons_not_Nil: "p \<noteq> [] \<Longrightarrow> join_with sep (p # ps) \<noteq> []"
  by (cases ps) simp_all

lemma length_join_with_ge: "\<forall>x\<in>set xs. x \<noteq> [] \<Longrightarrow> length xs \<le> length (join_with sep xs)"
  by (induction sep xs rule: join_with.induct) (auto simp: neq_Nil_conv)

lemma unat_digit: "m < 10 \<Longrightarrow> unat ((48 :: cu) + word_of_nat m) = 48 + m"
proof -
  assume m: "m < 10"
  have e: "48 + word_of_nat m = (word_of_nat (48 + m) :: cu)" by simp
  have u: "unat (word_of_nat (48 + m) :: cu) = 48 + m"
    by (rule unat_of_nat_cu) (use m in simp)
  show ?thesis unfolding e by (rule u)
qed

lemma show_nat_digits: "c \<in> set (show_nat n) \<Longrightarrow> 48 \<le> c \<and> c \<le> 57"
proof (induction n rule: show_nat.induct)
  case (1 n)
  have d: "(48 :: cu) \<le> 48 + word_of_nat m \<and> 48 + word_of_nat m \<le> (57 :: cu)" if "m < 10" for m
    using unat_digit [OF that] that by (simp only: word_le_nat_alt) simp
  from 1 show ?case
    by (cases "n < 10") (auto simp: show_nat.simps [of n] d)
qed

text \<open>Reading decimal digits back: \<open>show_nat\<close> is injective.\<close>

lemma read_show_nat: "foldl (\<lambda>acc d. 10 * acc + (unat d - 48)) 0 (show_nat n) = n"
proof (induction n rule: show_nat.induct)
  case (1 n)
  show ?case
  proof (cases "n < 10")
    case True
    then show ?thesis by (simp add: show_nat.simps [of n] unat_digit)
  next
    case False
    with 1 show ?thesis by (simp add: show_nat.simps [of n] unat_digit)
  qed
qed

lemma show_nat_inj: "show_nat n = show_nat m \<longleftrightarrow> n = m"
  by (metis read_show_nat)

lemma show_nat_not_minus: "45 \<notin> set (show_nat n)"
  using show_nat_digits [of 45 n] by auto

lemma map_sum_id_eq_Inr [simp]: "map_sum id f r = Inr y \<longleftrightarrow> (\<exists>x. r = Inr x \<and> y = f x)"
  by (cases r) auto

end
