(* ===== verification/URI_Codec.thy ===== *)
theory URI_Codec
  imports JS_Prelude
begin

text \<open>
  The percent-encoding builtins the query-string functions call:
  \<open>encodeURIComponent\<close> and \<open>decodeURIComponent\<close> (ECMA-262, the abstract
  operations Encode and Decode, with the component's unescaped set and an empty reserved
  set). Encoding reads the UTF-16 string one code point at a time, keeps the unreserved
  characters and writes every other code point as the \<open>%XX\<close> triples of its UTF-8
  bytes; a lone surrogate is a \<open>URIError\<close>. Decoding reverses this and raises
  \<open>URIError\<close> on a truncated or non-hexadecimal escape, on a stray continuation
  byte, and on bytes that are not the shortest UTF-8 form of a scalar value.
  The lemmas show that decoding inverts encoding, that encoding succeeds exactly on
  well-formed UTF-16, which characters an encoding can contain, and that decoding leaves
  a string without \<open>%\<close> unchanged.
\<close>

subsection \<open>UTF-8 and UTF-16 of a code point\<close>

definition uri_unreserved :: "cu \<Rightarrow> bool" where
  "uri_unreserved c \<longleftrightarrow>
     (65 \<le> c \<and> c \<le> 90) \<or> (97 \<le> c \<and> c \<le> 122) \<or> (48 \<le> c \<and> c \<le> 57) \<or>
     c \<in> set (js ''-_.!~*'()'')"

definition is_high_surrogate :: "cu \<Rightarrow> bool" where
  "is_high_surrogate c \<longleftrightarrow> 0xD800 \<le> c \<and> c \<le> 0xDBFF"

definition is_low_surrogate :: "cu \<Rightarrow> bool" where
  "is_low_surrogate c \<longleftrightarrow> 0xDC00 \<le> c \<and> c \<le> 0xDFFF"

definition surrogate_pair_cp :: "cu \<Rightarrow> cu \<Rightarrow> nat" where
  "surrogate_pair_cp hi lo = (unat hi - 0xD800) * 0x400 + (unat lo - 0xDC00) + 0x10000"

definition utf8_encode :: "nat \<Rightarrow> nat list" where
  "utf8_encode cp =
     (if cp < 0x80 then [cp]
      else if cp < 0x800 then [0xC0 + cp div 64, 0x80 + cp mod 64]
      else if cp < 0x10000 then [0xE0 + cp div 4096, 0x80 + cp div 64 mod 64, 0x80 + cp mod 64]
      else [0xF0 + cp div 262144, 0x80 + cp div 4096 mod 64, 0x80 + cp div 64 mod 64,
            0x80 + cp mod 64])"

definition pct_byte :: "nat \<Rightarrow> jsstr" where
  "pct_byte b = [0x25, hex_digit (b div 16), hex_digit (b mod 16)]"

definition utf16_encode :: "nat \<Rightarrow> jsstr" where
  "utf16_encode v =
     (if v < 0x10000 then [word_of_nat v]
      else [word_of_nat ((v - 0x10000) div 0x400 + 0xD800),
            word_of_nat ((v - 0x10000) mod 0x400 + 0xDC00)])"

definition cont_byte :: "nat \<Rightarrow> bool" where
  "cont_byte b \<longleftrightarrow> 0x80 \<le> b \<and> b < 0xC0"

text \<open>The number of leading one bits of a byte, as the Decode operation counts them.\<close>

definition leading_ones :: "nat \<Rightarrow> nat" where
  "leading_ones b =
     (if b < 0x80 then 0 else if b < 0xC0 then 1 else if b < 0xE0 then 2
      else if b < 0xF0 then 3 else if b < 0xF8 then 4 else 5)"

text \<open>A multi-byte sequence decodes only if it is the shortest form of a scalar value
  (no overlong form, no surrogate, nothing above U+10FFFF).\<close>

definition utf8_decode :: "nat list \<Rightarrow> nat option" where
  "utf8_decode bs =
     (case bs of
       [b0, b1] \<Rightarrow>
         (let v = b0 mod 32 * 64 + b1 mod 64 in
          if cont_byte b1 \<and> 0x80 \<le> v then Some v else None)
     | [b0, b1, b2] \<Rightarrow>
         (let v = b0 mod 16 * 4096 + b1 mod 64 * 64 + b2 mod 64 in
          if cont_byte b1 \<and> cont_byte b2 \<and> 0x800 \<le> v \<and> \<not> (0xD800 \<le> v \<and> v \<le> 0xDFFF)
          then Some v else None)
     | [b0, b1, b2, b3] \<Rightarrow>
         (let v = b0 mod 8 * 262144 + b1 mod 64 * 4096 + b2 mod 64 * 64 + b3 mod 64 in
          if cont_byte b1 \<and> cont_byte b2 \<and> cont_byte b3 \<and> 0x10000 \<le> v \<and> v \<le> 0x10FFFF
          then Some v else None)
     | _ \<Rightarrow> None)"

definition prepend :: "jsstr \<Rightarrow> js_error + jsstr \<Rightarrow> js_error + jsstr" where
  "prepend u r = map_sum id (\<lambda>v. u @ v) r"

subsection \<open>encodeURIComponent\<close>

fun encodeURIComponent :: "jsstr \<Rightarrow> js_error + jsstr" where
  "encodeURIComponent [] = Inr []"
| "encodeURIComponent (c # s) =
     (if uri_unreserved c then prepend [c] (encodeURIComponent s)
      else if is_low_surrogate c then Inl URIError
      else if is_high_surrogate c then
        (case s of
          [] \<Rightarrow> Inl URIError
        | d # s' \<Rightarrow>
            if is_low_surrogate d
            then prepend (concat (map pct_byte (utf8_encode (surrogate_pair_cp c d))))
                   (encodeURIComponent s')
            else Inl URIError)
      else prepend (concat (map pct_byte (utf8_encode (unat c)))) (encodeURIComponent s))"

subsection \<open>decodeURIComponent\<close>

text \<open>Reads \<open>n\<close> further \<open>%XX\<close> escapes, the continuation bytes of a sequence.\<close>

fun take_pct_bytes :: "nat \<Rightarrow> jsstr \<Rightarrow> (nat list \<times> jsstr) option" where
  "take_pct_bytes 0 s = Some ([], s)"
| "take_pct_bytes (Suc n) s =
     (case s of
       c # h1 # h2 # r \<Rightarrow>
         (case (hex_val h1, hex_val h2) of
           (Some a, Some b) \<Rightarrow>
             if c = 0x25 then map_option (\<lambda>(bs, r'). ((16 * a + b) # bs, r')) (take_pct_bytes n r)
             else None
         | _ \<Rightarrow> None)
     | _ \<Rightarrow> None)"

lemma take_pct_bytes_shorter: "take_pct_bytes n s = Some (bs, r) \<Longrightarrow> length r \<le> length s"
proof (induction n s arbitrary: bs rule: take_pct_bytes.induct)
  case (2 n s)
  then show ?case
    by (fastforce split: list.splits option.splits if_splits)
qed simp

function decodeURIComponent :: "jsstr \<Rightarrow> js_error + jsstr" where
  "decodeURIComponent [] = Inr []"
| "decodeURIComponent (c # s) =
     (if c \<noteq> 0x25 then prepend [c] (decodeURIComponent s)
      else
        (case s of
          h1 # h2 # r \<Rightarrow>
            (case (hex_val h1, hex_val h2) of
              (Some a, Some b) \<Rightarrow>
                (let B = 16 * a + b in
                 if B < 0x80 then prepend [word_of_nat B] (decodeURIComponent r)
                 else
                   (let n = leading_ones B in
                    if n = 1 \<or> 4 < n then Inl URIError
                    else
                      (case take_pct_bytes (n - 1) r of
                        None \<Rightarrow> Inl URIError
                      | Some (bs, r') \<Rightarrow>
                          (case utf8_decode (B # bs) of
                            None \<Rightarrow> Inl URIError
                          | Some v \<Rightarrow> prepend (utf16_encode v) (decodeURIComponent r')))))
            | _ \<Rightarrow> Inl URIError)
        | _ \<Rightarrow> Inl URIError))"
  by pat_completeness auto
termination
  by (relation "measure length") (force dest: take_pct_bytes_shorter)+

subsection \<open>Well-formed UTF-16 and the encoded alphabet\<close>

text \<open>A string without lone surrogates, the precondition of encoding.\<close>

fun wf_utf16 :: "jsstr \<Rightarrow> bool" where
  "wf_utf16 [] = True"
| "wf_utf16 (c # s) =
     (if is_low_surrogate c then False
      else if is_high_surrogate c then (case s of [] \<Rightarrow> False | d # s' \<Rightarrow> is_low_surrogate d \<and> wf_utf16 s')
      else wf_utf16 s)"

definition uri_encoded_char :: "cu \<Rightarrow> bool" where
  "uri_encoded_char x \<longleftrightarrow> uri_unreserved x \<or> x = 0x25 \<or> (48 \<le> x \<and> x \<le> 57) \<or> (65 \<le> x \<and> x \<le> 70)"

definition encoded :: "jsstr \<Rightarrow> jsstr" where
  "encoded s = (case encodeURIComponent s of Inr e \<Rightarrow> e | Inl err \<Rightarrow> [])"

subsection \<open>Lemmas\<close>

lemma prepend_Inr [simp]: "prepend u (Inr v) = Inr (u @ v)"
  by (simp add: prepend_def)

lemma prepend_Inl [simp]: "prepend u (Inl e) = Inl e"
  by (simp add: prepend_def)

lemma prepend_eq_Inr: "prepend u r = Inr v \<longleftrightarrow> (\<exists>w. r = Inr w \<and> v = u @ w)"
  by (cases r) (auto simp: prepend_def)

lemma of_nat_unat_cu [simp]: "word_of_nat (unat (c :: cu)) = c"
  by simp

lemma mod_small_offset: "a mod m = 0 \<Longrightarrow> x < m \<Longrightarrow> (a + x) mod (m :: nat) = x"
  by (metis add_0 mod_add_left_eq mod_less)

lemma decode_pct_byte:
  assumes "b < 256"
  shows "decodeURIComponent (pct_byte b @ r) =
    (if b < 0x80 then prepend [word_of_nat b] (decodeURIComponent r)
     else (let n = leading_ones b in
           if n = 1 \<or> 4 < n then Inl URIError
           else (case take_pct_bytes (n - 1) r of
                   None \<Rightarrow> Inl URIError
                 | Some (bs, r') \<Rightarrow>
                     (case utf8_decode (b # bs) of
                       None \<Rightarrow> Inl URIError
                     | Some v \<Rightarrow> prepend (utf16_encode v) (decodeURIComponent r')))))"
proof -
  from assms have "b div 16 < 16" by simp
  then show ?thesis by (simp add: pct_byte_def Let_def)
qed

lemma take_pct_bytes_pct:
  "\<forall>b\<in>set bs. b < 256 \<Longrightarrow> take_pct_bytes (length bs) (concat (map pct_byte bs) @ r) = Some (bs, r)"
proof (induction bs)
  case (Cons b bs)
  then have "b < 256" and "\<forall>b\<in>set bs. b < 256" by simp_all
  moreover from \<open>b < 256\<close> have "b div 16 < 16" by simp
  ultimately show ?case using Cons.IH by (simp add: pct_byte_def)
qed simp

lemma div_mod_scale: "(y::nat) div m * m * k + y mod m * k = y * k"
  by (metis div_mult_mod_eq add_mult_distrib)

lemma digits64_3: "(cp::nat) div 4096 * 4096 + cp div 64 mod 64 * 64 + cp mod 64 = cp"
proof -
  have a: "cp div 4096 = cp div 64 div 64" by (simp add: div_mult2_eq)
  have "cp div 64 div 64 * 64 * 64 + cp div 64 mod 64 * 64 = (cp div 64) * 64"
    by (rule div_mod_scale)
  with a div_mult_mod_eq [of cp 64] show ?thesis by linarith
qed

lemma digits64_4:
  "(cp::nat) div 262144 * 262144 + cp div 4096 mod 64 * 4096 + cp div 64 mod 64 * 64 + cp mod 64 = cp"
proof -
  have a: "cp div 262144 = cp div 4096 div 64" by (simp add: div_mult2_eq)
  have "cp div 4096 div 64 * 64 * 4096 + cp div 4096 mod 64 * 4096 = (cp div 4096) * 4096"
    by (rule div_mod_scale)
  with a digits64_3 [of cp] show ?thesis by linarith
qed

lemma cont_offset: "(0x80 + x mod 64) mod 64 = (x :: nat) mod 64" "cont_byte (0x80 + x mod 64)"
  by (simp_all add: mod_small_offset cont_byte_def)

lemma mod64_lt_128: "(x::nat) mod 64 < 128"
  using mod_less_divisor [of 64 x] by linarith

lemma utf8_encode_ascii: "cp < 0x80 \<Longrightarrow> utf8_encode cp = [cp]"
  by (simp add: utf8_encode_def)

lemma utf8_encode_multi:
  assumes "0x80 \<le> cp" "cp < 0x110000" "\<not> (0xD800 \<le> cp \<and> cp \<le> 0xDFFF)"
  shows "\<exists>b0 bs. utf8_encode cp = b0 # bs \<and> 0x80 \<le> b0 \<and> b0 < 256 \<and> (\<forall>b\<in>set bs. b < 256) \<and>
           leading_ones b0 = Suc (length bs) \<and> 2 \<le> Suc (length bs) \<and> Suc (length bs) \<le> 4 \<and>
           utf8_decode (b0 # bs) = Some cp"
proof -
  consider (two) "cp < 0x800" | (three) "0x800 \<le> cp" "cp < 0x10000" | (four) "0x10000 \<le> cp"
    by linarith
  then show ?thesis
  proof cases
    case two
    with assms have "2 \<le> cp div 64" "cp div 64 < 32" by simp_all
    moreover have "(0xC0 + cp div 64) mod 32 = cp div 64"
      using \<open>cp div 64 < 32\<close> by (simp add: mod_small_offset)
    ultimately show ?thesis using two assms
      by (simp add: utf8_encode_def utf8_decode_def leading_ones_def cont_offset)
  next
    case three
    then have "cp div 4096 < 16" by simp
    moreover have "(0xE0 + cp div 4096) mod 16 = cp div 4096"
      using \<open>cp div 4096 < 16\<close> by (simp add: mod_small_offset)
    ultimately show ?thesis using three assms
      by (simp add: utf8_encode_def utf8_decode_def leading_ones_def cont_offset digits64_3 mod64_lt_128)
  next
    case four
    with assms have "cp div 262144 < 5" by simp
    moreover have "(0xF0 + cp div 262144) mod 8 = cp div 262144"
      using \<open>cp div 262144 < 5\<close> by (simp add: mod_small_offset)
    ultimately show ?thesis using four assms
      by (simp add: utf8_encode_def utf8_decode_def leading_ones_def cont_offset digits64_4 mod64_lt_128)
  qed
qed

lemma decode_utf8_cp:
  assumes "cp < 0x110000" "\<not> (0xD800 \<le> cp \<and> cp \<le> 0xDFFF)"
  shows "decodeURIComponent (concat (map pct_byte (utf8_encode cp)) @ r) =
           prepend (utf16_encode cp) (decodeURIComponent r)"
proof (cases "cp < 0x80")
  case True
  then show ?thesis by (simp add: utf8_encode_ascii decode_pct_byte utf16_encode_def)
next
  case False
  with assms obtain b0 bs where enc: "utf8_encode cp = b0 # bs" and b0: "0x80 \<le> b0" "b0 < 256"
    and bs: "\<forall>b\<in>set bs. b < 256" and n: "leading_ones b0 = Suc (length bs)"
    "2 \<le> Suc (length bs)" "Suc (length bs) \<le> 4" and dec: "utf8_decode (b0 # bs) = Some cp"
    using utf8_encode_multi [of cp] by auto
  from bs have "take_pct_bytes (length bs) (concat (map pct_byte bs) @ r) = Some (bs, r)"
    by (rule take_pct_bytes_pct)
  moreover from n have "bs \<noteq> []" by auto
  ultimately show ?thesis using b0 n dec
    by (simp add: enc decode_pct_byte [of b0] Let_def)
qed

lemma is_high_surrogate_unat: "is_high_surrogate c \<longleftrightarrow> 0xD800 \<le> unat c \<and> unat c \<le> 0xDBFF"
  by (simp add: is_high_surrogate_def word_le_nat_alt)

lemma is_low_surrogate_unat: "is_low_surrogate c \<longleftrightarrow> 0xDC00 \<le> unat c \<and> unat c \<le> 0xDFFF"
  by (simp add: is_low_surrogate_def word_le_nat_alt)

lemma bmp_cp:
  assumes "\<not> is_high_surrogate c" "\<not> is_low_surrogate c"
  shows "unat c < 0x110000" "\<not> (0xD800 \<le> unat c \<and> unat c \<le> 0xDFFF)" "utf16_encode (unat c) = [c]"
  using assms unat_cu_less [of c]
  by (auto simp: is_high_surrogate_unat is_low_surrogate_unat utf16_encode_def)

lemma surrogate_pair:
  assumes "is_high_surrogate c" "is_low_surrogate d"
  shows "0x10000 \<le> surrogate_pair_cp c d" "surrogate_pair_cp c d < 0x110000"
    "utf16_encode (surrogate_pair_cp c d) = [c, d]"
proof -
  let ?h = "unat c - 0xD800" and ?l = "unat d - 0xDC00"
  from assms have h: "?h < 0x400" and l: "?l < 0x400" and hc: "?h + 0xD800 = unat c" and ld: "?l + 0xDC00 = unat d"
    by (auto simp: is_high_surrogate_unat is_low_surrogate_unat)
  have cp: "surrogate_pair_cp c d - 0x10000 = ?h * 0x400 + ?l"
    by (simp add: surrogate_pair_cp_def)
  show "0x10000 \<le> surrogate_pair_cp c d" by (simp add: surrogate_pair_cp_def)
  from h l show "surrogate_pair_cp c d < 0x110000" by (simp add: surrogate_pair_cp_def)
  from l have "(?h * 0x400 + ?l) div 0x400 = ?h" and "(?h * 0x400 + ?l) mod 0x400 = ?l"
    by simp_all
  with cp hc ld show "utf16_encode (surrogate_pair_cp c d) = [c, d]"
    by (simp add: utf16_encode_def surrogate_pair_cp_def)
qed

lemma uri_unreserved_not_pct: "uri_unreserved c \<Longrightarrow> c \<noteq> 0x25"
  by (auto simp: uri_unreserved_def js_def)

lemma decode_encode_append:
  "encodeURIComponent s = Inr e \<Longrightarrow> decodeURIComponent (e @ r) = prepend s (decodeURIComponent r)"
proof (induction s arbitrary: e rule: encodeURIComponent.induct)
  case 1
  then show ?case by (cases "decodeURIComponent r") simp_all
next
  case (2 c s)
  show ?case
  proof (cases "uri_unreserved c")
    case True
    with "2.prems" obtain w where "encodeURIComponent s = Inr w" "e = c # w"
      by (auto simp: prepend_eq_Inr)
    with True "2.IH"(1) show ?thesis
      by (cases "decodeURIComponent r") (simp_all add: uri_unreserved_not_pct)
  next
    case unres: False
    show ?thesis
    proof (cases "is_high_surrogate c")
      case True
      with unres "2.prems" obtain d s' w where s: "s = d # s'" and d: "is_low_surrogate d"
        and w: "encodeURIComponent s' = Inr w"
        and e: "e = concat (map pct_byte (utf8_encode (surrogate_pair_cp c d))) @ w"
        by (auto simp: prepend_eq_Inr is_high_surrogate_def is_low_surrogate_def
                 split: list.splits if_splits)
      have lowc: "\<not> is_low_surrogate c"
        using True by (auto simp: is_high_surrogate_unat is_low_surrogate_unat)
      have ih: "decodeURIComponent (w @ r) = prepend s' (decodeURIComponent r)"
        by (rule "2.IH"(2) [OF unres lowc True s d w])
      note sp = surrogate_pair [OF True d]
      have "decodeURIComponent (e @ r) =
          prepend (utf16_encode (surrogate_pair_cp c d)) (decodeURIComponent (w @ r))"
        unfolding e using sp(1,2) by (simp only: append_assoc) (intro decode_utf8_cp; simp)
      with ih sp(3) s show ?thesis by (cases "decodeURIComponent r") simp_all
    next
      case False
      with unres "2.prems" have low: "\<not> is_low_surrogate c"
        by (auto split: if_splits)
      with unres False "2.prems" obtain w where w: "encodeURIComponent s = Inr w"
        and e: "e = concat (map pct_byte (utf8_encode (unat c))) @ w"
        by (auto simp: prepend_eq_Inr)
      have ih: "decodeURIComponent (w @ r) = prepend s (decodeURIComponent r)"
        using "2.IH"(3) [OF unres low False] w .
      have "decodeURIComponent (e @ r) = prepend [c] (decodeURIComponent (w @ r))"
        unfolding e using bmp_cp [OF False low]
        by (simp only: append_assoc) (simp add: decode_utf8_cp)
      with ih show ?thesis by (cases "decodeURIComponent r") simp_all
    qed
  qed
qed

theorem decode_encode:
  "encodeURIComponent s = Inr e \<Longrightarrow> decodeURIComponent e = Inr s"
  using decode_encode_append [of s e "[]"] by simp

lemma uri_unreserved_not_surrogate:
  "uri_unreserved c \<Longrightarrow> \<not> is_high_surrogate c \<and> \<not> is_low_surrogate c"
  by (auto simp: uri_unreserved_def js_def is_high_surrogate_def is_low_surrogate_def word_le_nat_alt)

lemma encode_ok_iff: "(\<exists>e. encodeURIComponent s = Inr e) \<longleftrightarrow> wf_utf16 s"
proof (induction s rule: encodeURIComponent.induct)
  case (2 c s)
  then show ?case
    using uri_unreserved_not_surrogate [of c]
    by (auto simp: prepend_eq_Inr split: list.splits)
qed simp

lemma prepend_eq_Inl: "prepend u r = Inl e \<longleftrightarrow> r = Inl e"
  by (cases r) (simp_all add: prepend_def)

lemma encode_error: "encodeURIComponent s = Inl err \<Longrightarrow> err = URIError"
proof (induction s rule: encodeURIComponent.induct)
  case (2 c s)
  then show ?case
    by (simp add: prepend_eq_Inl split: list.splits if_splits)
qed simp

lemma pct_bytes_chars:
  "\<forall>b\<in>set bs. b < 256 \<Longrightarrow> x \<in> set (concat (map pct_byte bs)) \<Longrightarrow> uri_encoded_char x"
proof (induction bs)
  case (Cons b bs)
  from Cons.prems(1) have b: "b < 256" and bs: "\<forall>b\<in>set bs. b < 256" by simp_all
  show ?case
  proof (cases "x \<in> set (pct_byte b)")
    case True
    from b have "b div 16 < 16" "b mod 16 < 16" by simp_all
    with True hex_digit_range [of "b div 16"] hex_digit_range [of "b mod 16"] show ?thesis
      by (auto simp: pct_byte_def uri_encoded_char_def)
  next
    case False
    with Cons.prems(2) have "x \<in> set (concat (map pct_byte bs))" by simp
    with bs show ?thesis by (rule Cons.IH)
  qed
qed simp

lemma utf8_encode_bytes:
  "cp < 0x110000 \<Longrightarrow> \<not> (0xD800 \<le> cp \<and> cp \<le> 0xDFFF) \<Longrightarrow> \<forall>b\<in>set (utf8_encode cp). b < 256"
  using utf8_encode_multi [of cp] by (cases "cp < 0x80") (auto simp: utf8_encode_ascii)

lemma encode_alphabet:
  "encodeURIComponent s = Inr e \<Longrightarrow> x \<in> set e \<Longrightarrow> uri_encoded_char x"
proof (induction s arbitrary: e rule: encodeURIComponent.induct)
  case (2 c s)
  show ?case
  proof (cases "uri_unreserved c")
    case True
    with 2 show ?thesis by (auto simp: prepend_eq_Inr uri_encoded_char_def)
  next
    case unres: False
    show ?thesis
    proof (cases "is_high_surrogate c")
      case True
      with unres "2.prems" obtain d s' w where s: "s = d # s'" and d: "is_low_surrogate d"
        and w: "encodeURIComponent s' = Inr w"
        and e: "e = concat (map pct_byte (utf8_encode (surrogate_pair_cp c d))) @ w"
        by (auto simp: prepend_eq_Inr is_high_surrogate_def is_low_surrogate_def
                 split: list.splits if_splits)
      have lowc: "\<not> is_low_surrogate c"
        using True by (auto simp: is_high_surrogate_unat is_low_surrogate_unat)
      note sp = surrogate_pair [OF True d]
      have "\<forall>b\<in>set (utf8_encode (surrogate_pair_cp c d)). b < 256"
        using sp(1,2) by (intro utf8_encode_bytes) simp_all
      moreover from "2.prems"(2) e
      have "x \<in> set (concat (map pct_byte (utf8_encode (surrogate_pair_cp c d)))) \<or> x \<in> set w"
        by simp
      ultimately show ?thesis
        using "2.IH"(2) [OF unres lowc True s d w] pct_bytes_chars by blast
    next
      case False
      with unres "2.prems" have low: "\<not> is_low_surrogate c"
        by (auto split: if_splits)
      with unres False "2.prems" obtain w where w: "encodeURIComponent s = Inr w"
        and e: "e = concat (map pct_byte (utf8_encode (unat c))) @ w"
        by (auto simp: prepend_eq_Inr)
      have "\<forall>b\<in>set (utf8_encode (unat c)). b < 256"
        using bmp_cp [OF False low] by (intro utf8_encode_bytes) simp_all
      moreover from "2.prems"(2) e
      have "x \<in> set (concat (map pct_byte (utf8_encode (unat c)))) \<or> x \<in> set w"
        by simp
      ultimately show ?thesis
        using "2.IH"(3) [OF unres low False w] pct_bytes_chars by blast
    qed
  qed
qed simp

lemma encoded_char_not_delim:
  "uri_encoded_char x \<Longrightarrow> x \<notin> {0x22, 0x26, 0x3D, 0x3F, 0x5C} \<and> 0x20 < x \<and> x < 0x7F"
  by (auto simp: uri_encoded_char_def uri_unreserved_def js_def word_le_nat_alt word_less_nat_alt)

theorem decode_no_pct: "0x25 \<notin> set s \<Longrightarrow> decodeURIComponent s = Inr s"
  by (induction s) simp_all

lemma encode_encoded: "wf_utf16 s \<Longrightarrow> encodeURIComponent s = Inr (encoded s)"
  using encode_ok_iff [of s] by (auto simp: encoded_def)

lemma encoded_no_q: "wf_utf16 s \<Longrightarrow> 0x3F \<notin> set (encoded s)"
  using encode_alphabet [OF encode_encoded] encoded_char_not_delim by blast

lemma prepend_prepend: "prepend u (prepend w r) = prepend (u @ w) r"
  by (cases r) simp_all

lemma wf_utf16_append: "wf_utf16 u \<Longrightarrow> wf_utf16 v \<Longrightarrow> wf_utf16 (u @ v)"
proof (induction u rule: wf_utf16.induct)
  case (2 c s)
  then show ?case by (auto split: if_splits list.splits)
qed simp

lemma wf_utf16_bmp: "\<forall>c\<in>set s. c < 0xD800 \<Longrightarrow> wf_utf16 s"
  by (induction s) (auto simp: is_low_surrogate_def is_high_surrogate_def word_le_nat_alt word_less_nat_alt)

lemma encode_result:
  "encodeURIComponent s = (if wf_utf16 s then Inr (encoded s) else Inl URIError)"
proof (cases "wf_utf16 s")
  case True
  then show ?thesis by (simp add: encode_encoded)
next
  case False
  with encode_ok_iff [of s] obtain err where "encodeURIComponent s = Inl err"
    by (cases "encodeURIComponent s") auto
  with False show ?thesis using encode_error by auto
qed

lemma encode_no_delims:
  "encodeURIComponent s = Inr e \<Longrightarrow> x \<in> set e \<Longrightarrow>
   x \<notin> {0x22, 0x26, 0x3D, 0x3F, 0x5C} \<and> 0x20 < x \<and> x < 0x7F"
  using encode_alphabet encoded_char_not_delim by blast

end
