(* ===== verification/JS_Values.thy ===== *)
theory JS_Values
  imports JS_Prelude
begin

text \<open>
  JavaScript values as the utilities see them. Primitives are \<open>undefined\<close>,
  \<open>null\<close>, booleans, numbers (integral values and \<open>NaN\<close>) and strings; an array
  or a plain object is a tree node that carries its allocation address, so that strict
  equality \<open>===\<close> on objects compares addresses while the contents stay available to
  \<open>ToString\<close> and \<open>for ... in\<close>. An object's own enumerable properties are a list
  of key/value pairs in enumeration order. The group defines truthiness (\<open>!x\<close>),
  \<open>ToString\<close> (as \<open>String(x)\<close> and \<open>Array.prototype.join\<close> compute it),
  strict equality, property definition (\<open>JSON.parse\<close>'s CreateDataProperty) and
  assignment (\<open>obj[k] = v\<close> on a plain object, where the key \<open>__proto__\<close> goes to
  the inherited setter and a primitive value is dropped), and the source's
  \<open>arrayEqual\<close> and \<open>isEmptyObject\<close> (src/index.js).
\<close>

datatype jsnum = NaN | Num int

datatype jsval =
    JUndefined
  | JNull
  | JBool bool
  | JNumber jsnum
  | JString jsstr
  | JArray nat "jsval list"
  | JObject nat "(jsstr \<times> jsval) list"

type_synonym props = "(jsstr \<times> jsval) list"

subsection \<open>Conversions and comparisons\<close>

fun truthy :: "jsval \<Rightarrow> bool" where
  "truthy JUndefined = False"
| "truthy JNull = False"
| "truthy (JBool b) = b"
| "truthy (JNumber NaN) = False"
| "truthy (JNumber (Num i)) = (i \<noteq> 0)"
| "truthy (JString s) = (s \<noteq> [])"
| "truthy (JArray a xs) = True"
| "truthy (JObject a ps) = True"

fun to_string :: "jsval \<Rightarrow> jsstr" where
  "to_string JUndefined = js ''undefined''"
| "to_string JNull = js ''null''"
| "to_string (JBool b) = (if b then js ''true'' else js ''false'')"
| "to_string (JNumber NaN) = js ''NaN''"
| "to_string (JNumber (Num i)) = show_int i"
| "to_string (JString s) = s"
| "to_string (JArray a xs) =
     join_with (js '','') (map (\<lambda>x. if x = JUndefined \<or> x = JNull then [] else to_string x) xs)"
| "to_string (JObject a ps) = js ''[object Object]''"

text \<open>\<open>x === y\<close>: \<open>NaN\<close> equals nothing, objects are equal when they are the same
  allocation.\<close>

fun strict_eq :: "jsval \<Rightarrow> jsval \<Rightarrow> bool" where
  "strict_eq JUndefined JUndefined = True"
| "strict_eq JNull JNull = True"
| "strict_eq (JBool a) (JBool b) = (a = b)"
| "strict_eq (JNumber (Num a)) (JNumber (Num b)) = (a = b)"
| "strict_eq (JString a) (JString b) = (a = b)"
| "strict_eq (JArray a xs) (JArray b ys) = (a = b)"
| "strict_eq (JObject a ps) (JObject b qs) = (a = b)"
| "strict_eq x y = False"

subsection \<open>Properties\<close>

text \<open>CreateDataProperty: a new key is appended, an existing key keeps its place and
  takes the new value.\<close>

fun define_prop :: "jsstr \<Rightarrow> 'v \<Rightarrow> (jsstr \<times> 'v) list \<Rightarrow> (jsstr \<times> 'v) list" where
  "define_prop k v [] = [(k, v)]"
| "define_prop k v ((k', v') # ps) =
     (if k = k' then (k, v) # ps else (k', v') # define_prop k v ps)"

text \<open>\<open>obj[k] = v\<close> on a plain object created by \<open>{}\<close>, as its own properties
  show it: \<open>__proto__\<close> is the accessor inherited from \<open>Object.prototype\<close>, whose
  setter ignores a primitive and makes an object (or \<open>null\<close>) the prototype; either
  way no own property is created.\<close>

definition assign_prop :: "jsstr \<Rightarrow> jsval \<Rightarrow> props \<Rightarrow> props" where
  "assign_prop k v ps = (if k = js ''__proto__'' then ps else define_prop k v ps)"

subsection \<open>arrayEqual and isEmptyObject\<close>

definition array_error_msg :: jsstr where
  "array_error_msg = [0x53C2, 0x6570, 0x5FC5, 0x987B, 0x662F, 0x6570, 0x7EC4]"

fun is_array :: "jsval \<Rightarrow> bool" where
  "is_array (JArray a xs) = True"
| "is_array v = False"

fun elems :: "jsval \<Rightarrow> jsval list" where
  "elems (JArray a xs) = xs"
| "elems v = []"

text \<open>The \<open>for\<close> loop of \<open>arrayEqual\<close>: the first index whose elements differ under
  \<open>!==\<close> returns \<open>false\<close>.\<close>

fun elems_loop :: "jsval list \<Rightarrow> jsval list \<Rightarrow> bool" where
  "elems_loop (x # xs) (y # ys) = (if \<not> strict_eq x y then False else elems_loop xs ys)"
| "elems_loop xs ys = True"

definition arrayEqual :: "jsval \<Rightarrow> jsval \<Rightarrow> js_error + bool" where
  "arrayEqual arr1 arr2 =
     (if \<not> is_array arr1 \<or> \<not> is_array arr2 then Inl (Error array_error_msg)
      else if strict_eq arr1 arr2 then Inr True
      else if length (elems arr1) \<noteq> length (elems arr2) then Inr False
      else Inr (elems_loop (elems arr1) (elems arr2)))"

definition isEmptyObject :: "jsval \<Rightarrow> bool" where
  "isEmptyObject obj =
     (if \<not> truthy obj \<or> (case obj of JObject a ps \<Rightarrow> False | JArray a xs \<Rightarrow> False | _ \<Rightarrow> True)
         \<or> is_array obj then False
      else (case obj of JObject a ps \<Rightarrow> ps = [] | _ \<Rightarrow> False))"

lemma define_prop_new: "k \<notin> set (map fst acc) \<Longrightarrow> define_prop k v acc = acc @ [(k, v)]"
  by (induction acc) auto

lemma map_of_define_prop: "map_of (define_prop k v acc) = (map_of acc)(k \<mapsto> v)"
  by (induction acc) (auto simp: fun_upd_twist)

lemma keys_define_prop:
  "map fst (define_prop k v acc) = (if k \<in> set (map fst acc) then map fst acc else map fst acc @ [k])"
  by (induction acc) force+

lemma distinct_define_prop: "distinct (map fst acc) \<Longrightarrow> distinct (map fst (define_prop k v acc))"
  by (simp add: keys_define_prop)

lemma elems_loop_list_all2:
  "length xs = length ys \<Longrightarrow> elems_loop xs ys = list_all2 strict_eq xs ys"
  by (induction xs ys rule: elems_loop.induct) auto

text \<open>C8: \<open>arrayEqual\<close> throws its error unless both arguments are arrays, and
  otherwise returns true exactly when they are the same array or have the same length
  and are elementwise \<open>===\<close>: the early-exit loop computes \<open>list_all2\<close> of
  strict equality.\<close>

theorem arrayEqual_result:
  "arrayEqual x y =
     (case (x, y) of
       (JArray a xs, JArray b ys) \<Rightarrow> Inr (a = b \<or> list_all2 strict_eq xs ys)
     | _ \<Rightarrow> Inl (Error array_error_msg))"
  by (cases x; cases y)
     (auto simp: arrayEqual_def elems_loop_list_all2 list_all2_lengthD)

text \<open>\<open>isEmptyObject\<close> holds exactly for a plain object without own
  enumerable properties; arrays, \<open>null\<close> and primitives give false.\<close>

theorem isEmptyObject_iff: "isEmptyObject v \<longleftrightarrow> (\<exists>a. v = JObject a [])"
  by (cases v) (simp_all add: isEmptyObject_def)

end
