(* ===== verification/JSON_Parse.thy ===== *)
theory JSON_Parse
  imports JS_Values
begin

text \<open>
  \<open>JSON.parse\<close> without a reviver (ECMA-262 and ECMA-404), the builtin that
  \<open>parseQueryString\<close> hands its rewritten query to. The parser is recursive descent
  over the full grammar: objects, arrays, strings with their escapes (\<open>\u\<close> gives
  one UTF-16 code unit), numbers, \<open>true\<close>, \<open>false\<close>, \<open>null\<close>, and
  whitespace between tokens. A number is kept as its lexeme, since the utilities never
  compute with one. Object members are created with CreateDataProperty in text order, so
  a repeated key keeps its first position and its last value, and \<open>__proto__\<close> is
  an ordinary key. Any syntax error is \<open>SyntaxError\<close>.

  The three mutually recursive parsers take fuel: each call spends one unit. Every
  nested call happens after at least one code unit is consumed, so fuel above twice the
  input length is never exhausted. The lemma \<open>json_fuel\<close> shows that the result
  no longer depends on the fuel there, so \<open>JSON_parse\<close>, which passes
  \<open>2 * length text + 1\<close>, is the parser of the specification and not an approximation.
\<close>

datatype json =
    JsonNull
  | JsonBool bool
  | JsonNum jsstr
  | JsonStr jsstr
  | JsonArr "json list"
  | JsonObj "(jsstr \<times> json) list"

subsection \<open>Tokens\<close>

definition is_json_ws :: "cu \<Rightarrow> bool" where
  "is_json_ws c \<longleftrightarrow> c = 0x20 \<or> c = 0x09 \<or> c = 0x0A \<or> c = 0x0D"

definition skip_ws :: "jsstr \<Rightarrow> jsstr" where
  "skip_ws s = dropWhile is_json_ws s"

definition is_digit :: "cu \<Rightarrow> bool" where
  "is_digit c \<longleftrightarrow> 0x30 \<le> c \<and> c \<le> 0x39"

definition json_escape :: "cu \<Rightarrow> cu option" where
  "json_escape e =
     (if e = 0x22 \<or> e = 0x5C \<or> e = 0x2F then Some e
      else if e = 0x62 then Some 0x08 else if e = 0x66 then Some 0x0C
      else if e = 0x6E then Some 0x0A else if e = 0x72 then Some 0x0D
      else if e = 0x74 then Some 0x09 else None)"

definition hex4 :: "cu \<Rightarrow> cu \<Rightarrow> cu \<Rightarrow> cu \<Rightarrow> cu option" where
  "hex4 a b c d =
     (case (hex_val a, hex_val b, hex_val c, hex_val d) of
       (Some w, Some x, Some y, Some z) \<Rightarrow> Some (word_of_nat (w * 4096 + x * 256 + y * 16 + z))
     | _ \<Rightarrow> None)"

text \<open>The body of a string literal after its opening quote: the decoded contents and the
  input after the closing quote.\<close>

fun json_string :: "jsstr \<Rightarrow> (jsstr \<times> jsstr) option" where
  "json_string [] = None"
| "json_string (c # s) =
     (if c = 0x22 then Some ([], s)
      else if c = 0x5C then
        (case s of
          [] \<Rightarrow> None
        | e # s' \<Rightarrow>
            if e = 0x75 then
              (case s' of
                h1 # h2 # h3 # h4 # s'' \<Rightarrow>
                  (case hex4 h1 h2 h3 h4 of
                    Some u \<Rightarrow> map_option (\<lambda>(t, r). (u # t, r)) (json_string s'')
                  | None \<Rightarrow> None)
              | _ \<Rightarrow> None)
            else
              (case json_escape e of
                Some u \<Rightarrow> map_option (\<lambda>(t, r). (u # t, r)) (json_string s')
              | None \<Rightarrow> None))
      else if c < 0x20 then None
      else map_option (\<lambda>(t, r). (c # t, r)) (json_string s))"

text \<open>Numbers: \<open>-? (0 | [1-9][0-9]* ) (. [0-9]+)? ([eE] [+-]? [0-9]+)?\<close>.\<close>

definition num_int :: "jsstr \<Rightarrow> (jsstr \<times> jsstr) option" where
  "num_int s =
     (case s of
       [] \<Rightarrow> None
     | d # r \<Rightarrow>
         if d = 0x30 then Some ([d], r)
         else if is_digit d then Some (d # takeWhile is_digit r, dropWhile is_digit r)
         else None)"

definition num_frac :: "jsstr \<Rightarrow> (jsstr \<times> jsstr) option" where
  "num_frac s =
     (case s of
       d # r \<Rightarrow>
         if d = 0x2E then
           (if takeWhile is_digit r = [] then None
            else Some (d # takeWhile is_digit r, dropWhile is_digit r))
         else Some ([], s)
     | [] \<Rightarrow> Some ([], s))"

definition num_exp :: "jsstr \<Rightarrow> (jsstr \<times> jsstr) option" where
  "num_exp s =
     (case s of
       e # r \<Rightarrow>
         if e = 0x65 \<or> e = 0x45 then
           (let (sg, r') = (case r of x # r'' \<Rightarrow> if x = 0x2B \<or> x = 0x2D then ([x], r'') else ([], r)
                                     | [] \<Rightarrow> ([], r))
            in if takeWhile is_digit r' = [] then None
               else Some (e # sg @ takeWhile is_digit r', dropWhile is_digit r'))
         else Some ([], s)
     | [] \<Rightarrow> Some ([], s))"

definition num_sign :: "jsstr \<Rightarrow> jsstr \<times> jsstr" where
  "num_sign s = (case s of x # r \<Rightarrow> if x = 0x2D then ([x], r) else ([], s) | [] \<Rightarrow> ([], s))"

definition json_number :: "jsstr \<Rightarrow> (jsstr \<times> jsstr) option" where
  "json_number s =
     (case num_sign s of
       (sg, s1) \<Rightarrow>
         (case num_int s1 of
           None \<Rightarrow> None
         | Some (i, s2) \<Rightarrow>
             (case num_frac s2 of
               None \<Rightarrow> None
             | Some (f, s3) \<Rightarrow>
                 (case num_exp s3 of
                   None \<Rightarrow> None
                 | Some (e, s4) \<Rightarrow> Some (sg @ i @ f @ e, s4)))))"

text \<open>A literal or a number, at a position where no bracket or quote starts a value.\<close>

definition json_scalar :: "jsstr \<Rightarrow> (json \<times> jsstr) option" where
  "json_scalar s =
     (if take 4 s = js ''true'' then Some (JsonBool True, drop 4 s)
      else if take 5 s = js ''false'' then Some (JsonBool False, drop 5 s)
      else if take 4 s = js ''null'' then Some (JsonNull, drop 4 s)
      else map_option (\<lambda>(l, r). (JsonNum l, r)) (json_number s))"

text \<open>The next token must be the code unit \<open>c\<close>.\<close>

definition expect :: "cu \<Rightarrow> jsstr \<Rightarrow> jsstr option" where
  "expect c s = (case skip_ws s of d # r \<Rightarrow> if d = c then Some r else None | [] \<Rightarrow> None)"

subsection \<open>Values, members and elements\<close>

fun json_value :: "nat \<Rightarrow> jsstr \<Rightarrow> (json \<times> jsstr) option"
and json_members :: "nat \<Rightarrow> (jsstr \<times> json) list \<Rightarrow> jsstr \<Rightarrow> ((jsstr \<times> json) list \<times> jsstr) option"
and json_elements :: "nat \<Rightarrow> json list \<Rightarrow> jsstr \<Rightarrow> (json list \<times> jsstr) option" where
  "json_value 0 s = None"
| "json_value (Suc n) s =
     (case skip_ws s of
       [] \<Rightarrow> None
     | c # r \<Rightarrow>
         if c = 0x7B then
           (case expect 0x7D r of
             Some r' \<Rightarrow> Some (JsonObj [], r')
           | None \<Rightarrow> map_option (\<lambda>(ps, t). (JsonObj ps, t)) (json_members n [] r))
         else if c = 0x5B then
           (case expect 0x5D r of
             Some r' \<Rightarrow> Some (JsonArr [], r')
           | None \<Rightarrow> map_option (\<lambda>(vs, t). (JsonArr vs, t)) (json_elements n [] r))
         else if c = 0x22 then map_option (\<lambda>(str, t). (JsonStr str, t)) (json_string r)
         else json_scalar (c # r))"
| "json_members 0 acc s = None"
| "json_members (Suc n) acc s =
     (case expect 0x22 s of
       None \<Rightarrow> None
     | Some r \<Rightarrow>
         (case json_string r of
           None \<Rightarrow> None
         | Some (k, r1) \<Rightarrow>
             (case expect 0x3A r1 of
               None \<Rightarrow> None
             | Some r2 \<Rightarrow>
                 (case json_value n r2 of
                   None \<Rightarrow> None
                 | Some (v, r3) \<Rightarrow>
                     (case skip_ws r3 of
                       [] \<Rightarrow> None
                     | d # r4 \<Rightarrow>
                         if d = 0x2C then json_members n (define_prop k v acc) r4
                         else if d = 0x7D then Some (define_prop k v acc, r4)
                         else None)))))"
| "json_elements 0 acc s = None"
| "json_elements (Suc n) acc s =
     (case json_value n s of
       None \<Rightarrow> None
     | Some (v, r) \<Rightarrow>
         (case skip_ws r of
           [] \<Rightarrow> None
         | d # r' \<Rightarrow>
             if d = 0x2C then json_elements n (acc @ [v]) r'
             else if d = 0x5D then Some (acc @ [v], r')
             else None))"

definition JSON_parse :: "jsstr \<Rightarrow> js_error + json" where
  "JSON_parse text =
     (case json_value (2 * length text + 1) text of
       Some (v, r) \<Rightarrow> if skip_ws r = [] then Inr v else Inl SyntaxError
     | None \<Rightarrow> Inl SyntaxError)"

definition json_plain :: "jsstr \<Rightarrow> bool" where
  "json_plain s \<longleftrightarrow> (\<forall>c\<in>set s. 0x20 \<le> c \<and> c \<noteq> 0x22 \<and> c \<noteq> 0x5C)"

subsection \<open>Every parser consumes input\<close>

lemma skip_ws_len: "length (skip_ws s) \<le> length s"
  by (simp add: skip_ws_def length_dropWhile_le)

lemma skip_ws_Cons: "skip_ws s = c # r \<Longrightarrow> length r < length s"
  using skip_ws_len [of s] by simp

lemma expect_shorter: "expect c s = Some r \<Longrightarrow> length r < length s"
  by (auto simp: expect_def split: list.splits if_splits dest: skip_ws_Cons)

lemma json_string_shorter: "json_string s = Some (t, r) \<Longrightarrow> length r < length s"
proof (induction s arbitrary: t rule: json_string.induct)
  case (2 c s)
  then show ?case
    by (fastforce split: if_splits list.splits option.splits)
qed simp

lemma dropWhile_shorter: "length (dropWhile P xs) \<le> length xs"
  by (rule length_dropWhile_le)

lemma num_int_shorter: "num_int s = Some (i, r) \<Longrightarrow> length r < length s"
  by (auto simp: num_int_def split: list.splits if_splits intro: le_less_trans [OF dropWhile_shorter])

lemma num_frac_shorter: "num_frac s = Some (f, r) \<Longrightarrow> length r \<le> length s"
  by (auto simp: num_frac_def split: list.splits if_splits intro: le_trans [OF dropWhile_shorter])

lemma num_exp_shorter: "num_exp s = Some (e, r) \<Longrightarrow> length r \<le> length s"
  by (auto simp: num_exp_def split: list.splits if_splits
           intro: le_trans [OF dropWhile_shorter] dropWhile_shorter [THEN le_SucI])

lemma num_sign_shorter: "num_sign s = (sg, s1) \<Longrightarrow> length s1 \<le> length s"
  by (cases s) (auto simp: num_sign_def split: if_splits)

lemma json_number_shorter: "json_number s = Some (l, r) \<Longrightarrow> length r < length s"
proof -
  assume a: "json_number s = Some (l, r)"
  obtain sg s1 where sg: "num_sign s = (sg, s1)" by (metis surj_pair)
  from a sg obtain i s2 where i: "num_int s1 = Some (i, s2)"
    by (cases "num_int s1") (auto simp: json_number_def)
  with a sg obtain f s3 where f: "num_frac s2 = Some (f, s3)"
    by (cases "num_frac s2") (auto simp: json_number_def)
  with a sg i obtain e where e: "num_exp s3 = Some (e, r)"
    by (cases "num_exp s3") (auto simp: json_number_def)
  from num_sign_shorter [OF sg] num_int_shorter [OF i] num_frac_shorter [OF f] num_exp_shorter [OF e]
  show ?thesis by linarith
qed

lemma take_literal_shorter: "take k s = t \<Longrightarrow> length t = k \<Longrightarrow> 0 < k \<Longrightarrow> length (drop k s) < length s"
proof -
  assume "take k s = t" "length t = k" "0 < k"
  then have "k \<le> length s" by (metis length_take min.absorb_iff1 min.commute)
  with \<open>0 < k\<close> show ?thesis by simp
qed

lemma json_scalar_shorter:
  assumes "json_scalar s = Some (v, r)"
  shows "length r < length s"
proof (cases "take 4 s = js ''true'' \<or> take 5 s = js ''false'' \<or> take 4 s = js ''null''")
  case True
  with assms have "(take 4 s = js ''true'' \<and> r = drop 4 s) \<or> (take 5 s = js ''false'' \<and> r = drop 5 s)
      \<or> (take 4 s = js ''null'' \<and> r = drop 4 s)"
    by (auto simp: json_scalar_def split: if_splits)
  then show ?thesis
    by (auto simp: js_def intro: take_literal_shorter)
next
  case False
  with assms obtain l where "json_number s = Some (l, r)"
    by (auto simp: json_scalar_def)
  then show ?thesis by (rule json_number_shorter)
qed


lemma json_shorter:
  "json_value n s = Some (v, r) \<Longrightarrow> length r < length s"
  "json_members n acc s = Some (ps, r) \<Longrightarrow> length r < length s"
  "json_elements n acc' s = Some (vs, r) \<Longrightarrow> length r < length s"
proof (induction n s and n acc s and n acc' s arbitrary: v r and ps r and vs r
       rule: json_value_json_members_json_elements.induct)
  case (2 n s)
  then show ?case
    by (fastforce split: list.splits if_splits option.splits
         dest: skip_ws_Cons expect_shorter json_string_shorter json_scalar_shorter)
next
  case (4 n acc s)
  then show ?case
    by (fastforce split: list.splits if_splits option.splits
         dest: skip_ws_Cons expect_shorter json_string_shorter)
next
  case (6 n acc s)
  then show ?case
    by (fastforce split: list.splits if_splits option.splits dest: skip_ws_Cons)
qed simp_all

subsection \<open>Fuel\<close>

lemma json_fuel_all:
  "(\<forall>s m. 2 * length s < n \<longrightarrow> 2 * length s < m \<longrightarrow> json_value n s = json_value m s) \<and>
   (\<forall>acc s m. 2 * length s + 1 < n \<longrightarrow> 2 * length s + 1 < m \<longrightarrow>
      json_members n acc s = json_members m acc s) \<and>
   (\<forall>acc s m. 2 * length s + 1 < n \<longrightarrow> 2 * length s + 1 < m \<longrightarrow>
      json_elements n acc s = json_elements m acc s)"
proof (induction n)
  case 0
  then show ?case by simp
next
  case (Suc n)
  have IHv: "json_value n s = json_value m s" if "2 * length s < n" "2 * length s < m" for s m
    using Suc.IH that by blast
  have IHm: "json_members n acc s = json_members m acc s"
    if "2 * length s + 1 < n" "2 * length s + 1 < m" for acc s m
    using Suc.IH that by blast
  have IHe: "json_elements n acc s = json_elements m acc s"
    if "2 * length s + 1 < n" "2 * length s + 1 < m" for acc s m
    using Suc.IH that by blast
  have V: "json_value (Suc n) s = json_value m s" if h: "2 * length s < Suc n" "2 * length s < m" for s m
  proof -
    obtain m' where m: "m = Suc m'" using h by (cases m) auto
    show ?thesis
    proof (cases "skip_ws s")
      case Nil
      then show ?thesis by (simp add: m)
    next
      case (Cons c r)
      with skip_ws_Cons have "length r < length s" by blast
      with h m have e1: "json_members n [] r = json_members m' [] r"
        and e2: "json_elements n [] r = json_elements m' [] r"
        by (auto intro!: IHm IHe)
      show ?thesis by (simp add: m Cons e1 e2 split: option.split)
    qed
  qed
  have M: "json_members (Suc n) acc s = json_members m acc s"
    if h: "2 * length s + 1 < Suc n" "2 * length s + 1 < m" for acc s m
  proof -
    obtain m' where m: "m = Suc m'" using h by (cases m) auto
    show ?thesis
    proof (cases "expect 0x22 s")
      case None
      then show ?thesis by (simp add: m)
    next
      case (Some r)
      note r = expect_shorter [OF Some]
      show ?thesis
      proof (cases "json_string r")
        case None
        with Some show ?thesis by (simp add: m)
      next
        case (Some kr1)
        obtain k r1 where kr1: "kr1 = (k, r1)" by fastforce
        note r1 = json_string_shorter [OF Some [unfolded kr1]]
        show ?thesis
        proof (cases "expect 0x3A r1")
          case None
          with \<open>expect 0x22 s = Some r\<close> Some kr1 show ?thesis by (simp add: m)
        next
          case (Some r2)
          note r2 = expect_shorter [OF Some]
          from r r1 r2 h m have v: "json_value n r2 = json_value m' r2"
            by (intro IHv) simp_all
          have rest: "json_members n acc' r4 = json_members m' acc' r4"
            if "json_value n r2 = Some (v, r3)" "skip_ws r3 = d # r4" for acc' v r3 d r4
          proof -
            from that have "length r4 < length r2"
              using json_shorter(1) [OF that(1)] skip_ws_Cons [OF that(2)] by simp
            with r r1 r2 \<open>2 * length s + 1 < Suc n\<close> \<open>2 * length s + 1 < m\<close> m show ?thesis
              by (intro IHm) simp_all
          qed
          show ?thesis
            using \<open>expect 0x22 s = Some r\<close> \<open>json_string r = Some kr1\<close> kr1 Some v rest
            by (auto simp: m split: option.splits list.splits)
        qed
      qed
    qed
  qed
  have E: "json_elements (Suc n) acc s = json_elements m acc s"
    if h: "2 * length s + 1 < Suc n" "2 * length s + 1 < m" for acc s m
  proof -
    obtain m' where m: "m = Suc m'" using h by (cases m) auto
    from h m have v: "json_value n s = json_value m' s"
      by (intro IHv) simp_all
    have rest: "json_elements n acc' r' = json_elements m' acc' r'"
      if "json_value n s = Some (v, r)" "skip_ws r = d # r'" for acc' v r d r'
    proof -
      from that have "length r' < length s"
        using json_shorter(1) [OF that(1)] skip_ws_Cons [OF that(2)] by simp
      with \<open>2 * length s + 1 < Suc n\<close> \<open>2 * length s + 1 < m\<close> m show ?thesis
        by (intro IHe) simp_all
    qed
    show ?thesis
      using v rest by (auto simp: m split: option.splits list.splits)
  qed
  show ?case using V M E by blast
qed

theorem json_fuel:
  "2 * length s < n \<Longrightarrow> json_value n s = json_value (2 * length s + 1) s"
proof -
  assume "2 * length s < n"
  moreover have "2 * length s < 2 * length s + 1" by simp
  ultimately show ?thesis using json_fuel_all [of n] by blast
qed

lemma skip_ws_Cons_non_ws: "\<not> is_json_ws c \<Longrightarrow> skip_ws (c # s) = c # s"
  by (simp add: skip_ws_def)

lemma json_ws_delims [simp]:
  "\<not> is_json_ws 0x22" "\<not> is_json_ws 0x2C" "\<not> is_json_ws 0x3A" "\<not> is_json_ws 0x7B" "\<not> is_json_ws 0x7D"
  by (simp_all add: is_json_ws_def)

lemma expect_same: "\<not> is_json_ws c \<Longrightarrow> expect c (c # s) = Some s"
  by (simp add: expect_def skip_ws_Cons_non_ws)

lemma json_string_plain:
  "json_plain s \<Longrightarrow> json_string (s @ 0x22 # r) = Some (s, r)"
proof (induction s)
  case (Cons c s)
  then have "c \<noteq> 0x22" "c \<noteq> 0x5C" "\<not> c < 0x20" "json_plain s"
    by (auto simp: json_plain_def not_less)
  with Cons.IH show ?case by simp
qed simp

lemma json_value_string:
  "json_plain v \<Longrightarrow> json_value (Suc n) (0x22 # v @ 0x22 # r) = Some (JsonStr v, r)"
  by (simp add: skip_ws_Cons_non_ws json_string_plain)

end
