(* ===== verification/Query_String.thy ===== *)
theory Query_String
  imports URI_Codec JSON_Parse
begin

text \<open>
  The query-string functions of src/index.js (lines 633-703). \<open>parseQueryString\<close>
  takes the text after the last \<open>?\<close>, percent-decodes all of it, rewrites it into a
  JSON object literal by three global replaces (\<open>"\<close> to \<open>\"\<close>, \<open>&\<close> to
  \<open>","\<close>, \<open>=\<close> to \<open>":"\<close>) and hands it to \<open>JSON.parse\<close>.
  \<open>parseUrlQuery\<close> splits on \<open>&\<close> and \<open>=\<close> and decodes each value.
  \<open>stringifyQueryString\<close> encodes key and value of each own enumerable property,
  an array value as one \<open>key[i]=value\<close> pair per element; \<open>stringifyUrlQuery\<close>
  encodes only the value. A missing or empty argument of the parsers is replaced by
  \<open>window.location.href\<close>, passed here as the parameter \<open>loc\<close>.
\<close>

subsection \<open>Shared steps\<close>

text \<open>\<open>url = !url ? window.location.href : url\<close> for a string argument.\<close>

definition url_or_location :: "jsstr \<Rightarrow> jsstr option \<Rightarrow> jsstr" where
  "url_or_location loc u = (case u of None \<Rightarrow> loc | Some s \<Rightarrow> if s = [] then loc else s)"

text \<open>\<open>url.substring(url.lastIndexOf('?') + 1)\<close>.\<close>

definition query_part :: "jsstr \<Rightarrow> jsstr" where
  "query_part u = substring_from u (last_index_of 0x3F u + 1)"

text \<open>The JSON text \<open>parseQueryString\<close> builds from the decoded query:
  \<open>'{"' + s.replace(/"/g, '\\"').replace(/&/g, '","').replace(/=/g, '":"') + '"}'\<close>.\<close>

definition query_json_text :: "jsstr \<Rightarrow> jsstr" where
  "query_json_text d =
     [0x7B, 0x22] @
     replace_all_cu 0x3D [0x22, 0x3A, 0x22]
       (replace_all_cu 0x26 [0x22, 0x2C, 0x22] (replace_all_cu 0x22 [0x5C, 0x22] d)) @
     [0x22, 0x7D]"

subsection \<open>parseQueryString\<close>

definition parseQueryString :: "jsstr \<Rightarrow> jsstr option \<Rightarrow> js_error + json" where
  "parseQueryString loc url =
     (let search = query_part (url_or_location loc url) in
      if search = [] then Inr (JsonObj [])
      else (case decodeURIComponent search of
              Inl e \<Rightarrow> Inl e
            | Inr d \<Rightarrow> JSON_parse (query_json_text d)))"

subsection \<open>parseUrlQuery\<close>

text \<open>\<open>str.replace(/^\?/, '')\<close>.\<close>

definition strip_leading_q :: "jsstr \<Rightarrow> jsstr" where
  "strip_leading_q s = (case s of c # r \<Rightarrow> if c = 0x3F then r else s | [] \<Rightarrow> [])"

text \<open>One step of the \<open>forEach\<close>: \<open>s = item.split('=')\<close>,
  \<open>ret[s[0]] = decodeURIComponent(s[1])\<close>; a missing \<open>s[1]\<close> is \<open>undefined\<close>,
  which \<open>decodeURIComponent\<close> reads as the string \<open>"undefined"\<close>.\<close>

definition url_item :: "props \<Rightarrow> jsstr \<Rightarrow> js_error + props" where
  "url_item ret item =
     (let s = split_on 0x3D item;
          key = hd s;
          value = (if 2 \<le> length s then s ! 1 else to_string JUndefined)
      in case decodeURIComponent value of
           Inl e \<Rightarrow> Inl e
         | Inr v \<Rightarrow> Inr (assign_prop key (JString v) ret))"

fun url_items :: "props \<Rightarrow> jsstr list \<Rightarrow> js_error + props" where
  "url_items ret [] = Inr ret"
| "url_items ret (item # items) =
     (case url_item ret item of Inl e \<Rightarrow> Inl e | Inr ret' \<Rightarrow> url_items ret' items)"

definition parseUrlQuery :: "jsstr \<Rightarrow> jsstr option \<Rightarrow> js_error + props" where
  "parseUrlQuery loc str =
     (let s = url_or_location loc str;
          search = query_part s
      in if search = [] then Inr []
         else url_items [] (split_on 0x26 (strip_leading_q s)))"

subsection \<open>stringifyQueryString and stringifyUrlQuery\<close>

text \<open>The keys \<open>for (let key in obj)\<close> visits, with \<open>obj[key]\<close>: an object's own
  enumerable properties, an array's or a string's indices; a number or a boolean has
  none.\<close>

fun enum_props :: "jsval \<Rightarrow> props" where
  "enum_props (JObject a ps) = ps"
| "enum_props (JArray a xs) = zip (map show_nat [0..<length xs]) xs"
| "enum_props (JString s) = zip (map show_nat [0..<length s]) (map (\<lambda>c. JString [c]) s)"
| "enum_props v = []"

text \<open>\<open>encodeURIComponent(k) + '=' + encodeURIComponent(v)\<close>; the key is encoded
  first, and \<open>encodeURIComponent\<close> applies \<open>ToString\<close> to the value.\<close>

definition encode_pair :: "jsstr \<Rightarrow> jsval \<Rightarrow> js_error + jsstr" where
  "encode_pair k v =
     (case encodeURIComponent k of
       Inl e \<Rightarrow> Inl e
     | Inr ek \<Rightarrow>
         (case encodeURIComponent (to_string v) of
           Inl e \<Rightarrow> Inl e
         | Inr ev \<Rightarrow> Inr (ek @ [0x3D] @ ev)))"

text \<open>The inner loop over an array value: \<open>key + '[' + i + ']'\<close>.\<close>

fun array_pairs :: "jsstr \<Rightarrow> nat \<Rightarrow> jsval list \<Rightarrow> js_error + jsstr list" where
  "array_pairs k i [] = Inr []"
| "array_pairs k i (x # xs) =
     (case encode_pair (k @ [0x5B] @ show_nat i @ [0x5D]) x of
       Inl e \<Rightarrow> Inl e
     | Inr p \<Rightarrow> map_sum id (Cons p) (array_pairs k (Suc i) xs))"

fun entry_pairs :: "props \<Rightarrow> js_error + jsstr list" where
  "entry_pairs [] = Inr []"
| "entry_pairs ((k, v) # ps) =
     (case (if is_array v then array_pairs k 0 (elems v) else map_sum id (\<lambda>p. [p]) (encode_pair k v)) of
       Inl e \<Rightarrow> Inl e
     | Inr qs \<Rightarrow> map_sum id (\<lambda>rs. qs @ rs) (entry_pairs ps))"

definition stringifyQueryString :: "jsval \<Rightarrow> js_error + jsstr" where
  "stringifyQueryString obj =
     (if \<not> truthy obj then Inr [] else map_sum id (join_with [0x26]) (entry_pairs (enum_props obj)))"

fun url_pairs :: "props \<Rightarrow> js_error + jsstr list" where
  "url_pairs [] = Inr []"
| "url_pairs ((k, v) # ps) =
     (case encodeURIComponent (to_string v) of
       Inl e \<Rightarrow> Inl e
     | Inr ev \<Rightarrow> map_sum id (Cons (k @ [0x3D] @ ev)) (url_pairs ps))"

definition stringifyUrlQuery :: "jsval \<Rightarrow> js_error + jsstr" where
  "stringifyUrlQuery data =
     (if \<not> truthy data then Inr [] else map_sum id (join_with [0x26]) (url_pairs (enum_props data)))"

subsection \<open>Vocabulary of the round-trip proof\<close>

text \<open>A string that survives the round trip: well-formed UTF-16, no control character,
  and none of the four characters the parser rewrites or splits on (\<open>"\<close>,
  \<open>&\<close>, \<open>=\<close>, backslash).\<close>

definition query_safe :: "jsstr \<Rightarrow> bool" where
  "query_safe s \<longleftrightarrow> wf_utf16 s \<and> (\<forall>c\<in>set s. 0x20 \<le> c \<and> c \<notin> {0x22, 0x26, 0x3D, 0x5C})"

definition pair_text :: "jsstr \<times> jsstr \<Rightarrow> jsstr" where
  "pair_text kv = fst kv @ [0x3D] @ snd kv"

definition enc_pair_text :: "jsstr \<times> jsstr \<Rightarrow> jsstr" where
  "enc_pair_text kv = encoded (fst kv) @ [0x3D] @ encoded (snd kv)"

definition member_text :: "jsstr \<times> jsstr \<Rightarrow> jsstr" where
  "member_text kv = fst kv @ [0x22, 0x3A, 0x22] @ snd kv"

definition add_str_member :: "(jsstr \<times> json) list \<Rightarrow> jsstr \<times> jsstr \<Rightarrow> (jsstr \<times> json) list" where
  "add_str_member acc kv = define_prop (fst kv) (JsonStr (snd kv)) acc"

text \<open>A key \<open>parseUrlQuery\<close> reads back: \<open>stringifyUrlQuery\<close> writes keys
  unencoded, so a key must not contain the separators, and \<open>__proto__\<close> with a string
  value is swallowed by the inherited setter.\<close>

definition url_key_ok :: "jsstr \<Rightarrow> bool" where
  "url_key_ok k \<longleftrightarrow> 0x26 \<notin> set k \<and> 0x3D \<notin> set k \<and> k \<noteq> js ''__proto__''"

definition url_pair_text :: "jsstr \<times> jsstr \<Rightarrow> jsstr" where
  "url_pair_text kv = fst kv @ [0x3D] @ encoded (snd kv)"

subsection \<open>Lemmas\<close>

lemma json_members_flat:
  "ps \<noteq> [] \<Longrightarrow> \<forall>kv\<in>set ps. json_plain (fst kv) \<and> json_plain (snd kv) \<Longrightarrow> length ps < n \<Longrightarrow>
   json_members n acc (0x22 # join_with [0x22, 0x2C, 0x22] (map member_text ps) @ [0x22, 0x7D] @ r) =
   Some (foldl add_str_member acc ps, r)"
proof (induction ps arbitrary: acc n)
  case Nil
  then show ?case by simp
next
  case (Cons kv qs)
  obtain k v where kv: "kv = (k, v)" by fastforce
  from Cons.prems kv have k: "json_plain k" and v: "json_plain v" by auto
  from Cons.prems obtain n' where n: "n = Suc (Suc n')"
    by (cases n; cases "n - 1") auto
  have step: "add_str_member acc kv = define_prop k (JsonStr v) acc"
    by (simp add: kv add_str_member_def)
  show ?case
  proof (cases "qs = []")
    case True
    then show ?thesis
      by (simp add: n kv member_text_def add_str_member_def expect_same json_string_plain k
                    json_value_string v skip_ws_Cons_non_ws)
  next
    case False
    from Cons.prems False n have ih: "json_members (Suc n') (define_prop k (JsonStr v) acc)
        (0x22 # join_with [0x22, 0x2C, 0x22] (map member_text qs) @ [0x22, 0x7D] @ r) =
        Some (foldl add_str_member (define_prop k (JsonStr v) acc) qs, r)"
      using Cons.IH [of "Suc n'" "define_prop k (JsonStr v) acc"] by auto
    from False have tx: "0x22 # join_with [0x22, 0x2C, 0x22] (map member_text (kv # qs)) @ [0x22, 0x7D] @ r =
        0x22 # k @ 0x22 # 0x3A # 0x22 # v @ 0x22 # 0x2C #
        (0x22 # join_with [0x22, 0x2C, 0x22] (map member_text qs) @ [0x22, 0x7D] @ r)"
      by (cases qs) (simp_all add: kv member_text_def)
    show ?thesis
      unfolding tx n
      by (simp del: json_members.simps add: json_members.simps(2) [of "Suc n'"] ih [unfolded append_Cons append_Nil] step
            expect_same json_string_plain k json_value_string v skip_ws_Cons_non_ws)
  qed
qed

lemma JSON_parse_members:
  assumes "ps \<noteq> []" "\<forall>kv\<in>set ps. json_plain (fst kv) \<and> json_plain (snd kv)"
  shows "JSON_parse (0x7B # 0x22 # join_with [0x22, 0x2C, 0x22] (map member_text ps) @ [0x22, 0x7D]) =
           Inr (JsonObj (foldl add_str_member [] ps))"
proof -
  let ?J = "join_with [0x22, 0x2C, 0x22] (map member_text ps)"
  let ?t = "0x7B # 0x22 # ?J @ [0x22, 0x7D]"
  have "length ps \<le> length ?J"
    using length_join_with_ge [of "map member_text ps"] by (simp add: member_text_def)
  then have len: "length ps < 2 * length ?t" by simp
  have m: "json_members (2 * length ?t) [] (0x22 # ?J @ [0x22, 0x7D] @ []) =
      Some (foldl add_str_member [] ps, [])"
    using assms len by (intro json_members_flat) simp_all
  have "expect 0x7D (0x22 # ?J @ [0x22, 0x7D]) = None"
    by (simp add: expect_def skip_ws_Cons_non_ws)
  with m show ?thesis
    by (simp add: JSON_parse_def skip_ws_Cons_non_ws skip_ws_def)
qed

lemma foldl_add_str_member:
  "distinct (map fst ps) \<Longrightarrow> set (map fst ps) \<inter> set (map fst acc) = {} \<Longrightarrow>
   foldl add_str_member acc ps = acc @ map (\<lambda>kv. (fst kv, JsonStr (snd kv))) ps"
proof (induction ps arbitrary: acc)
  case (Cons kv ps)
  then have "add_str_member acc kv = acc @ [(fst kv, JsonStr (snd kv))]"
    by (simp add: add_str_member_def define_prop_new)
  with Cons show ?case by auto
qed simp

lemma decode_enc_pair:
  "wf_utf16 (fst kv) \<Longrightarrow> wf_utf16 (snd kv) \<Longrightarrow>
   decodeURIComponent (enc_pair_text kv @ rest) = prepend (pair_text kv) (decodeURIComponent rest)"
proof -
  assume k: "wf_utf16 (fst kv)" and v: "wf_utf16 (snd kv)"
  have "decodeURIComponent (encoded (fst kv) @ (0x3D # encoded (snd kv) @ rest)) =
      prepend (fst kv) (decodeURIComponent (0x3D # encoded (snd kv) @ rest))"
    by (rule decode_encode_append [OF encode_encoded [OF k]])
  moreover have "decodeURIComponent (encoded (snd kv) @ rest) =
      prepend (snd kv) (decodeURIComponent rest)"
    by (rule decode_encode_append [OF encode_encoded [OF v]])
  ultimately show ?thesis
    by (simp add: enc_pair_text_def pair_text_def prepend_prepend)
qed

lemma decode_join_pairs:
  "\<forall>kv\<in>set ps. wf_utf16 (fst kv) \<and> wf_utf16 (snd kv) \<Longrightarrow>
   decodeURIComponent (join_with [0x26] (map enc_pair_text ps)) = Inr (join_with [0x26] (map pair_text ps))"
proof (induction ps)
  case Nil
  then show ?case by simp
next
  case (Cons kv qs)
  show ?case
  proof (cases qs)
    case Nil
    with Cons.prems show ?thesis using decode_enc_pair [of kv "[]"] by simp
  next
    case (Cons q qs')
    with Cons.prems Cons.IH show ?thesis
      using decode_enc_pair [of kv "0x26 # join_with [0x26] (map enc_pair_text qs)"]
      by (simp add: prepend_prepend)
  qed
qed

lemma query_json_text_pairs:
  assumes "\<forall>kv\<in>set ps. query_safe (fst kv) \<and> query_safe (snd kv)"
  shows "query_json_text (join_with [0x26] (map pair_text ps)) =
           [0x7B, 0x22] @ join_with [0x22, 0x2C, 0x22] (map member_text ps) @ [0x22, 0x7D]"
proof -
  have no: "c \<notin> set (fst kv) \<and> c \<notin> set (snd kv)" if "kv \<in> set ps" "c \<in> {0x22, 0x26, 0x3D}" for kv c
    using assms that by (auto simp: query_safe_def)
  have "0x22 \<notin> set (join_with [0x26] (map pair_text ps))"
    using set_join_with [of "[0x26]" "map pair_text ps"] no by (fastforce simp: pair_text_def)
  then have q: "replace_all_cu 0x22 [0x5C, 0x22] (join_with [0x26] (map pair_text ps)) =
      join_with [0x26] (map pair_text ps)"
    by (rule replace_all_cu_absent)
  have a: "replace_all_cu 0x26 [0x22, 0x2C, 0x22] (join_with [0x26] (map pair_text ps)) =
      join_with [0x22, 0x2C, 0x22] (map pair_text ps)"
    using no by (intro replace_join_sep) (auto simp: pair_text_def)
  have e: "map (replace_all_cu 0x3D [0x22, 0x3A, 0x22] \<circ> pair_text) ps = map member_text ps"
    using no by (auto simp: pair_text_def member_text_def replace_all_cu_absent)
  show ?thesis
    unfolding query_json_text_def q a by (simp add: replace_join e)
qed

lemma encode_pair_string:
  "wf_utf16 k \<Longrightarrow> wf_utf16 v \<Longrightarrow> encode_pair k (JString v) = Inr (enc_pair_text (k, v))"
  by (simp add: encode_pair_def encode_encoded enc_pair_text_def)

lemma entry_pairs_strings:
  "\<forall>kv\<in>set ps. wf_utf16 (fst kv) \<and> wf_utf16 (snd kv) \<Longrightarrow>
   entry_pairs (map (\<lambda>kv. (fst kv, JString (snd kv))) ps) = Inr (map enc_pair_text ps)"
  by (induction ps) (auto simp: encode_pair_string)

lemma stringify_strings:
  "\<forall>kv\<in>set ps. wf_utf16 (fst kv) \<and> wf_utf16 (snd kv) \<Longrightarrow>
   stringifyQueryString (JObject a (map (\<lambda>kv. (fst kv, JString (snd kv))) ps)) =
   Inr (join_with [0x26] (map enc_pair_text ps))"
  by (simp add: stringifyQueryString_def entry_pairs_strings)

lemma query_part_enc_pairs:
  assumes "\<forall>kv\<in>set ps. wf_utf16 (fst kv) \<and> wf_utf16 (snd kv)"
  shows "query_part (join_with [0x26] (map enc_pair_text ps)) = join_with [0x26] (map enc_pair_text ps)"
proof -
  have "0x3F \<notin> set (join_with [0x26] (map enc_pair_text ps))"
    using set_join_with [of "[0x26]" "map enc_pair_text ps"] assms
    by (fastforce simp: enc_pair_text_def dest: encoded_no_q)
  then show ?thesis by (simp add: query_part_def substring_after_absent)
qed

lemma query_safe_json_plain: "query_safe s \<Longrightarrow> json_plain s"
  by (auto simp: query_safe_def json_plain_def)

text \<open>C1: \<open>parseQueryString\<close> inverts \<open>stringifyQueryString\<close> on a plain object
  with string values: for a non-empty object with distinct keys whose keys and values are
  well-formed UTF-16 without control characters, double quotes, \<open>&\<close>, \<open>=\<close> or
  backslashes, stringifying succeeds and parsing the result, whatever the page location,
  gives the same keys with the same values in the same order.\<close>

theorem parse_stringify_roundtrip:
  assumes "ps \<noteq> []" "distinct (map fst ps)" "\<forall>kv\<in>set ps. query_safe (fst kv) \<and> query_safe (snd kv)"
  shows "\<exists>q. stringifyQueryString (JObject a (map (\<lambda>kv. (fst kv, JString (snd kv))) ps)) = Inr q \<and>
             parseQueryString loc (Some q) = Inr (JsonObj (map (\<lambda>kv. (fst kv, JsonStr (snd kv))) ps))"
proof -
  let ?q = "join_with [0x26] (map enc_pair_text ps)"
  from assms(3) have wf: "\<forall>kv\<in>set ps. wf_utf16 (fst kv) \<and> wf_utf16 (snd kv)"
    by (simp add: query_safe_def)
  from assms(3) have plain: "\<forall>kv\<in>set ps. json_plain (fst kv) \<and> json_plain (snd kv)"
    by (simp add: query_safe_json_plain)
  from assms(1) obtain p ps' where ps: "ps = p # ps'" by (cases ps) auto
  then have ne: "?q \<noteq> []"
    by (simp add: join_with_Cons_not_Nil enc_pair_text_def)
  have "parseQueryString loc (Some ?q) =
      JSON_parse (query_json_text (join_with [0x26] (map pair_text ps)))"
    using ne by (simp add: parseQueryString_def url_or_location_def query_part_enc_pairs [OF wf]
                   decode_join_pairs [OF wf])
  also have "\<dots> = Inr (JsonObj (foldl add_str_member [] ps))"
    using assms(1) plain by (simp add: query_json_text_pairs [OF assms(3)] JSON_parse_members)
  also have "\<dots> = Inr (JsonObj (map (\<lambda>kv. (fst kv, JsonStr (snd kv))) ps))"
    using assms(2) by (simp add: foldl_add_str_member)
  finally show ?thesis using stringify_strings [OF wf] by blast
qed

lemma wf_index_key: "wf_utf16 k \<Longrightarrow> wf_utf16 (k @ [0x5B] @ show_nat i @ [0x5D])"
proof -
  assume k: "wf_utf16 k"
  have "\<forall>c\<in>set ([0x5B] @ show_nat i @ [0x5D]). c < (0xD800 :: cu)"
    using show_nat_digits [of _ i] by (fastforce simp: word_le_nat_alt word_less_nat_alt)
  then show ?thesis using wf_utf16_append [OF k wf_utf16_bmp] by blast
qed

lemma array_pairs_strings:
  "wf_utf16 k \<Longrightarrow> \<forall>x\<in>set xs. wf_utf16 x \<Longrightarrow>
   array_pairs k i (map JString xs) =
   Inr (map (\<lambda>(j, x). enc_pair_text (k @ [0x5B] @ show_nat j @ [0x5D], x)) (zip [i..<i + length xs] xs))"
proof (induction xs arbitrary: i)
  case (Cons x xs)
  then have "encode_pair (k @ [0x5B] @ show_nat i @ [0x5D]) (JString x) =
      Inr (enc_pair_text (k @ [0x5B] @ show_nat i @ [0x5D], x))"
    by (intro encode_pair_string wf_index_key) simp_all
  moreover have "[i..<i + length (x # xs)] = i # [Suc i..<Suc i + length xs]"
    by (simp add: upt_conv_Cons del: upt_Suc)
  ultimately show ?case using Cons by (simp del: upt_Suc)
qed simp

text \<open>C2: an array value \<open>k: [x0, x1, ...]\<close> of string elements is written as one
  pair \<open>encodeURIComponent(k[i])=encodeURIComponent(xi)\<close> per element, the index in
  decimal, joined by \<open>&\<close>.\<close>

theorem stringify_array:
  assumes "wf_utf16 k" "\<forall>x\<in>set xs. wf_utf16 x"
  shows "stringifyQueryString (JObject a [(k, JArray b (map JString xs))]) =
    Inr (join_with [0x26]
      (map (\<lambda>(i, x). encoded (k @ [0x5B] @ show_nat i @ [0x5D]) @ [0x3D] @ encoded x)
           (zip [0..<length xs] xs)))"
  using array_pairs_strings [OF assms, of 0]
  by (simp add: stringifyQueryString_def enc_pair_text_def case_prod_beta)

lemma encode_pair_chars:
  "encode_pair k v = Inr p \<Longrightarrow> c \<in> set p \<Longrightarrow> uri_encoded_char c \<or> c = 0x3D"
  by (auto simp: encode_pair_def split: sum.splits dest: encode_alphabet)

lemma array_pairs_chars:
  "array_pairs k i xs = Inr ps \<Longrightarrow> p \<in> set ps \<Longrightarrow> c \<in> set p \<Longrightarrow> uri_encoded_char c \<or> c = 0x3D"
proof (induction k i xs arbitrary: ps rule: array_pairs.induct)
  case (2 k i x xs)
  then show ?case
    by (auto split: sum.splits dest: encode_pair_chars)
qed simp

lemma entry_pairs_chars:
  "entry_pairs kvs = Inr ps \<Longrightarrow> p \<in> set ps \<Longrightarrow> c \<in> set p \<Longrightarrow> uri_encoded_char c \<or> c = 0x3D"
proof (induction kvs arbitrary: ps rule: entry_pairs.induct)
  case (2 k v kvs)
  then show ?case
    by (auto split: sum.splits if_splits dest: encode_pair_chars array_pairs_chars)
qed simp

text \<open>C3: a string produced by \<open>stringifyQueryString\<close> consists of characters of
  the encoded alphabet (unreserved characters, \<open>%\<close> and upper-case hexadecimal
  digits) and the separators \<open>=\<close> and \<open>&\<close>.\<close>

theorem stringify_alphabet:
  "stringifyQueryString obj = Inr q \<Longrightarrow> c \<in> set q \<Longrightarrow> uri_encoded_char c \<or> c = 0x3D \<or> c = 0x26"
  using set_join_with entry_pairs_chars
  by (fastforce simp: stringifyQueryString_def split: if_splits sum.splits)


theorem parse_stringify_roundtrip_witness:
  "stringifyQueryString (JObject 0 [(js ''a'', JString (js ''1'')), (js ''b'', JString (js ''x y''))]) =
     Inr (js ''a=1&b=x%20y'') \<and>
   parseQueryString (js ''http://h/?q=0'') (Some (js ''a=1&b=x%20y'')) =
     Inr (JsonObj [(js ''a'', JsonStr (js ''1'')), (js ''b'', JsonStr (js ''x y''))])"
proof -
  let ?ps = "[(js ''a'', js ''1''), (js ''b'', js ''x y'')]"
  have h: "?ps \<noteq> []" "distinct (map fst ?ps)"
    "\<forall>kv\<in>set ?ps. query_safe (fst kv) \<and> query_safe (snd kv)"
    by code_simp+
  have s: "stringifyQueryString (JObject 0 [(js ''a'', JString (js ''1'')), (js ''b'', JString (js ''x y''))]) =
     Inr (js ''a=1&b=x%20y'')" by code_simp
  from parse_stringify_roundtrip [OF h, of 0 "js ''http://h/?q=0''"] s show ?thesis by simp
qed

theorem stringify_array_witness:
  "stringifyQueryString (JObject 0 [(js ''a'', JArray 1 [JString (js ''x''), JString (js ''y'')])]) =
     Inr (js ''a%5B0%5D=x&a%5B1%5D=y'')"
proof -
  have h: "wf_utf16 (js ''a'')" "\<forall>x\<in>set [js ''x'', js ''y'']. wf_utf16 x" by code_simp+
  have r: "join_with [0x26]
      (map (\<lambda>(i, x). encoded (js ''a'' @ [0x5B] @ show_nat i @ [0x5D]) @ [0x3D] @ encoded x)
           (zip [0..<length [js ''x'', js ''y'']] [js ''x'', js ''y''])) = js ''a%5B0%5D=x&a%5B1%5D=y''"
    by code_simp
  from stringify_array [OF h, of 0 1] r show ?thesis by simp
qed

theorem stringify_alphabet_witness:
  "list_all (\<lambda>c. uri_encoded_char c \<or> c = 0x3D \<or> c = 0x26) (js ''k%20=v%26&k%5B0%5D=1'')"
proof -
  have s: "stringifyQueryString (JObject 0 [(js ''k '', JString (js ''v&'')), (js ''k'', JArray 1 [JNumber (Num 1)])]) =
     Inr (js ''k%20=v%26&k%5B0%5D=1'')" by code_simp
  show ?thesis unfolding list_all_iff using stringify_alphabet [OF s] by blast
qed

lemma url_pairs_strings:
  "\<forall>kv\<in>set ps. wf_utf16 (snd kv) \<Longrightarrow>
   url_pairs (map (\<lambda>kv. (fst kv, JString (snd kv))) ps) = Inr (map url_pair_text ps)"
  by (induction ps) (auto simp: encode_encoded url_pair_text_def)

lemma decode_encoded: "wf_utf16 v \<Longrightarrow> decodeURIComponent (encoded v) = Inr v"
  using decode_encode [OF encode_encoded] .

lemma url_item_pair:
  assumes "url_key_ok k" "wf_utf16 v"
  shows "url_item acc (url_pair_text (k, v)) = Inr (define_prop k (JString v) acc)"
proof -
  have "0x3D \<notin> set (encoded v)"
    using encode_no_delims [OF encode_encoded [OF assms(2)]] by blast
  then have "split_on 0x3D (url_pair_text (k, v)) = [k, encoded v]"
    using assms(1) by (simp add: url_pair_text_def url_key_ok_def split_on_append_sep split_on_no_sep)
  with assms show ?thesis
    by (simp add: url_item_def decode_encoded assign_prop_def url_key_ok_def)
qed

lemma url_items_pairs:
  "distinct (map fst ps) \<Longrightarrow> \<forall>kv\<in>set ps. url_key_ok (fst kv) \<and> wf_utf16 (snd kv) \<Longrightarrow>
   set (map fst ps) \<inter> set (map fst acc) = {} \<Longrightarrow>
   url_items acc (map url_pair_text ps) = Inr (acc @ map (\<lambda>kv. (fst kv, JString (snd kv))) ps)"
proof (induction ps arbitrary: acc)
  case (Cons kv ps)
  obtain k v where kv: "kv = (k, v)" by (cases kv)
  with Cons.prems have "url_item acc (url_pair_text kv) = Inr (acc @ [(k, JString v)])"
    by (simp add: url_item_pair define_prop_new)
  with Cons kv show ?case by auto
qed simp

lemma url_text_chars:
  assumes "\<forall>kv\<in>set ps. url_key_ok (fst kv) \<and> wf_utf16 (snd kv)"
  shows "\<forall>p\<in>set (map url_pair_text ps). 0x26 \<notin> set p"
  using assms encode_no_delims [OF encode_encoded]
  by (fastforce simp: url_pair_text_def url_key_ok_def)

lemma url_text_parse:
  assumes "ps \<noteq> []" "distinct (map fst ps)" "\<forall>kv\<in>set ps. url_key_ok (fst kv) \<and> wf_utf16 (snd kv)"
  shows "url_items [] (split_on 0x26 (join_with [0x26] (map url_pair_text ps))) =
    Inr (map (\<lambda>kv. (fst kv, JString (snd kv))) ps)"
  using assms url_text_chars [OF assms(3)] by (simp add: split_on_join url_items_pairs)

lemma url_text_not_Nil: "ps \<noteq> [] \<Longrightarrow> join_with [0x26] (map url_pair_text ps) \<noteq> []"
  by (cases ps) (simp_all add: join_with_Cons_not_Nil url_pair_text_def)

lemma join_with_prefix: "join_with sep ((x @ p) # ps) = x @ join_with sep (p # ps)"
  by (cases ps) simp_all

text \<open>C4: \<open>parseUrlQuery\<close> inverts \<open>stringifyUrlQuery\<close> on a non-empty object with
  distinct keys and well-formed string values, when no key contains \<open>&\<close>,
  \<open>=\<close> or \<open>?\<close> and no key is \<open>__proto__\<close>; the values may contain any
  character.\<close>

theorem url_query_roundtrip:
  assumes "ps \<noteq> []" "distinct (map fst ps)"
    "\<forall>kv\<in>set ps. url_key_ok (fst kv) \<and> 0x3F \<notin> set (fst kv) \<and> wf_utf16 (snd kv)"
  shows "\<exists>q. stringifyUrlQuery (JObject a (map (\<lambda>kv. (fst kv, JString (snd kv))) ps)) = Inr q \<and>
             parseUrlQuery loc (Some q) = Inr (map (\<lambda>kv. (fst kv, JString (snd kv))) ps)"
proof -
  let ?q = "join_with [0x26] (map url_pair_text ps)"
  from assms(3) have ok: "\<forall>kv\<in>set ps. url_key_ok (fst kv) \<and> wf_utf16 (snd kv)" by simp
  have noq: "0x3F \<notin> set ?q"
    using set_join_with [of "[0x26]" "map url_pair_text ps"] assms(3)
    by (fastforce simp: url_pair_text_def dest: encoded_no_q)
  have ne: "?q \<noteq> []" using assms(1) by (rule url_text_not_Nil)
  have strip: "strip_leading_q ?q = ?q"
    using ne noq by (cases ?q) (auto simp: strip_leading_q_def)
  have "parseUrlQuery loc (Some ?q) = Inr (map (\<lambda>kv. (fst kv, JString (snd kv))) ps)"
    using ne noq strip url_text_parse [OF assms(1,2) ok]
    by (simp add: parseUrlQuery_def url_or_location_def query_part_def substring_after_absent)
  moreover have "stringifyUrlQuery (JObject a (map (\<lambda>kv. (fst kv, JString (snd kv))) ps)) = Inr ?q"
    using ok by (simp add: stringifyUrlQuery_def url_pairs_strings)
  ultimately show ?thesis by blast
qed

text \<open>C5: \<open>parseUrlQuery\<close> given a full URL \<open>u?q\<close> does not drop the part before
  the \<open>?\<close>: the query \<open>q\<close> is found by \<open>lastIndexOf\<close>, but the split runs on the
  whole string, so the first key read back is \<open>u?k\<close> instead of \<open>k\<close>.\<close>

theorem url_query_full_url:
  assumes "ps \<noteq> []" "distinct (map fst ps)"
    "\<forall>kv\<in>set ps. url_key_ok (fst kv) \<and> 0x3F \<notin> set (fst kv) \<and> wf_utf16 (snd kv)"
    "u \<noteq> []" "hd u \<noteq> 0x3F" "0x26 \<notin> set u" "0x3D \<notin> set u"
  shows "\<exists>q. stringifyUrlQuery (JObject a (map (\<lambda>kv. (fst kv, JString (snd kv))) ps)) = Inr q \<and>
             parseUrlQuery loc (Some (u @ 0x3F # q)) =
               Inr ((u @ 0x3F # fst (hd ps), JString (snd (hd ps))) #
                    map (\<lambda>kv. (fst kv, JString (snd kv))) (tl ps))"
proof -
  obtain k v ps' where ps: "ps = (k, v) # ps'" using assms(1) by (cases ps) auto
  let ?q = "join_with [0x26] (map url_pair_text ps)"
  let ?ps2 = "(u @ 0x3F # k, v) # ps'"
  from assms(3) have ok: "\<forall>kv\<in>set ps. url_key_ok (fst kv) \<and> wf_utf16 (snd kv)" by simp
  have noq: "0x3F \<notin> set ?q"
    using set_join_with [of "[0x26]" "map url_pair_text ps"] assms(3)
    by (fastforce simp: url_pair_text_def dest: encoded_no_q)
  have ne: "?q \<noteq> []" using assms(1) by (rule url_text_not_Nil)
  have s: "u @ 0x3F # ?q = join_with [0x26] (map url_pair_text ?ps2)"
    using join_with_prefix [of "[0x26]" "u @ [0x3F]"] by (simp add: ps url_pair_text_def)
  have "(0x3F :: cu) \<notin> set (js ''__proto__'')" by (simp add: js_def)
  then have "u @ 0x3F # k \<noteq> js ''__proto__''" by (metis in_set_conv_decomp)
  then have key2: "url_key_ok (u @ 0x3F # k)"
    using assms(6,7) ok by (auto simp: ps url_key_ok_def)
  have nk: "u @ 0x3F # k \<notin> fst ` set ps'"
  proof
    assume "u @ 0x3F # k \<in> fst ` set ps'"
    then obtain kv where "kv \<in> set ps'" "fst kv = u @ 0x3F # k" by auto
    with assms(3) show False by (auto simp: ps)
  qed
  have d2: "distinct (map fst ?ps2)" "\<forall>kv\<in>set ?ps2. url_key_ok (fst kv) \<and> wf_utf16 (snd kv)"
    using assms(2,3) key2 ok nk by (auto simp: ps)
  have strip: "strip_leading_q (u @ 0x3F # ?q) = u @ 0x3F # ?q"
    using assms(4,5) by (cases u) (auto simp: strip_leading_q_def)
  have qp: "query_part (u @ 0x3F # ?q) = ?q"
    using noq by (simp add: query_part_def substring_after_last_append)
  have "parseUrlQuery loc (Some (u @ 0x3F # ?q)) = url_items [] (split_on 0x26 (u @ 0x3F # ?q))"
    unfolding parseUrlQuery_def url_or_location_def Let_def using qp ne strip by simp
  also have "\<dots> = Inr (map (\<lambda>kv. (fst kv, JString (snd kv))) ?ps2)"
    unfolding s by (rule url_text_parse [OF _ d2]) simp
  finally have "parseUrlQuery loc (Some (u @ 0x3F # ?q)) = Inr (map (\<lambda>kv. (fst kv, JString (snd kv))) ?ps2)" .
  moreover have "stringifyUrlQuery (JObject a (map (\<lambda>kv. (fst kv, JString (snd kv))) ps)) = Inr ?q"
    using ok by (simp add: stringifyUrlQuery_def url_pairs_strings)
  ultimately show ?thesis by (auto simp: ps)
qed

theorem url_query_roundtrip_witness:
  "stringifyUrlQuery (JObject 0 [(js ''q'', JString (js ''x&y=z?''))]) = Inr (js ''q=x%26y%3Dz%3F'') \<and>
   parseUrlQuery [] (Some (js ''q=x%26y%3Dz%3F'')) = Inr [(js ''q'', JString (js ''x&y=z?''))]"
proof -
  let ?ps = "[(js ''q'', js ''x&y=z?'')]"
  have h: "?ps \<noteq> []" "distinct (map fst ?ps)"
    "\<forall>kv\<in>set ?ps. url_key_ok (fst kv) \<and> 0x3F \<notin> set (fst kv) \<and> wf_utf16 (snd kv)"
    by code_simp+
  have s: "stringifyUrlQuery (JObject 0 [(js ''q'', JString (js ''x&y=z?''))]) = Inr (js ''q=x%26y%3Dz%3F'')"
    by code_simp
  from url_query_roundtrip [OF h, of 0 "[]"] s show ?thesis by simp
qed

theorem url_query_full_url_witness:
  "parseUrlQuery [] (Some (js ''http://example.com/path?x=5'')) =
     Inr [(js ''http://example.com/path?x'', JString (js ''5''))]"
proof -
  let ?ps = "[(js ''x'', js ''5'')]" and ?u = "js ''http://example.com/path''"
  have h: "?ps \<noteq> []" "distinct (map fst ?ps)"
    "\<forall>kv\<in>set ?ps. url_key_ok (fst kv) \<and> 0x3F \<notin> set (fst kv) \<and> wf_utf16 (snd kv)"
    "?u \<noteq> []" "hd ?u \<noteq> 0x3F" "0x26 \<notin> set ?u" "0x3D \<notin> set ?u"
    by code_simp+
  have s: "stringifyUrlQuery (JObject 0 [(js ''x'', JString (js ''5''))]) = Inr (js ''x=5'')"
    by code_simp
  have e: "?u @ 0x3F # js ''x=5'' = js ''http://example.com/path?x=5''"
    "?u @ 0x3F # js ''x'' = js ''http://example.com/path?x''" by (simp_all add: js_def)
  from url_query_full_url [OF h, of 0 "[]"] s e show ?thesis by simp
qed

lemma foldl_add_str_member_map_of:
  "map_of (foldl add_str_member acc ps) = map_of (rev (map (\<lambda>kv. (fst kv, JsonStr (snd kv))) ps) @ acc)"
  by (induction ps arbitrary: acc) (simp_all add: add_str_member_def map_of_define_prop map_add_upd [symmetric])

lemma foldl_add_str_member_distinct:
  "distinct (map fst acc) \<Longrightarrow> distinct (map fst (foldl add_str_member acc ps))"
  by (induction ps arbitrary: acc) (simp_all add: add_str_member_def distinct_define_prop)

lemma plain_query_parse:
  assumes "ps \<noteq> []"
    "\<forall>kv\<in>set ps. query_safe (fst kv) \<and> query_safe (snd kv) \<and> 0x25 \<notin> set (pair_text kv) \<and> 0x3F \<notin> set (pair_text kv)"
  shows "parseQueryString loc (Some (join_with [0x26] (map pair_text ps))) =
           Inr (JsonObj (foldl add_str_member [] ps))"
proof -
  let ?u = "join_with [0x26] (map pair_text ps)"
  have sub: "set ?u \<subseteq> \<Union> (set (map set (map pair_text ps))) \<union> {0x26}"
    using set_join_with [of "[0x26]" "map pair_text ps"] by simp
  have nop: "0x25 \<notin> set ?u" and noq: "0x3F \<notin> set ?u"
    using sub assms(2) by fastforce+
  from assms(1) have ne: "?u \<noteq> []"
    by (cases ps) (simp_all add: join_with_Cons_not_Nil pair_text_def)
  have safe: "\<forall>kv\<in>set ps. query_safe (fst kv) \<and> query_safe (snd kv)" using assms(2) by simp
  then have plain: "\<forall>kv\<in>set ps. json_plain (fst kv) \<and> json_plain (snd kv)"
    by (simp add: query_safe_json_plain)
  show ?thesis
    using ne nop noq assms(1) plain
    by (simp add: parseQueryString_def url_or_location_def query_part_def substring_after_absent
          decode_no_pct query_json_text_pairs [OF safe] JSON_parse_members)
qed

text \<open>C6: \<open>parseQueryString\<close> on a plain query \<open>k1=v1&...&kn=vn\<close> (no
  \<open>%\<close>, no \<open>?\<close>, keys and values free of the characters the parser rewrites)
  returns an object with distinct keys in which each key holds the value of its last
  occurrence: the result, read as a map, is the map built by the pairs in order.\<close>

theorem parse_last_wins:
  assumes "ps \<noteq> []"
    "\<forall>kv\<in>set ps. query_safe (fst kv) \<and> query_safe (snd kv) \<and> 0x25 \<notin> set (pair_text kv) \<and> 0x3F \<notin> set (pair_text kv)"
  shows "\<exists>ms. parseQueryString loc (Some (join_with [0x26] (map pair_text ps))) = Inr (JsonObj ms) \<and>
              distinct (map fst ms) \<and>
              map_of ms = map_of (rev (map (\<lambda>kv. (fst kv, JsonStr (snd kv))) ps))"
  using plain_query_parse [OF assms] foldl_add_str_member_distinct [of "[]" ps]
    foldl_add_str_member_map_of [of "[]" ps] by simp

theorem parse_last_wins_witness:
  "\<exists>ms. parseQueryString [] (Some (js ''a=1&b=2&a=3'')) = Inr (JsonObj ms) \<and>
        map_of ms (js ''a'') = Some (JsonStr (js ''3'')) \<and> map_of ms (js ''b'') = Some (JsonStr (js ''2''))"
proof -
  let ?ps = "[(js ''a'', js ''1''), (js ''b'', js ''2''), (js ''a'', js ''3'')]"
  have h: "?ps \<noteq> []"
    "\<forall>kv\<in>set ?ps. query_safe (fst kv) \<and> query_safe (snd kv) \<and> 0x25 \<notin> set (pair_text kv) \<and> 0x3F \<notin> set (pair_text kv)"
    by code_simp+
  have e: "join_with [0x26] (map pair_text ?ps) = js ''a=1&b=2&a=3''"
    by (simp add: pair_text_def js_def)
  from parse_last_wins [OF h, of "[]"] e show ?thesis by (auto simp: js_def)
qed

lemma json_members_string_then:
  assumes "json_plain k" "json_plain v" "d \<noteq> 0x2C" "d \<noteq> 0x7D" "\<not> is_json_ws d"
  shows "json_members (Suc (Suc n)) acc (0x22 # k @ 0x22 # 0x3A # 0x22 # v @ 0x22 # d # r) = None"
  using assms by (simp add: expect_same json_string_plain json_value_string skip_ws_Cons_non_ws)

lemma JSON_parse_string_then:
  assumes "json_plain k" "json_plain v" "d \<noteq> 0x2C" "d \<noteq> 0x7D" "\<not> is_json_ws d"
  shows "JSON_parse (0x7B # 0x22 # k @ 0x22 # 0x3A # 0x22 # v @ 0x22 # d # r) = Inl SyntaxError"
proof -
  let ?t = "0x7B # 0x22 # k @ 0x22 # 0x3A # 0x22 # v @ 0x22 # d # r"
  obtain n where n: "2 * length ?t + 1 = Suc (Suc (Suc n))" by (rule that [of "2 * length ?t - 2"]) simp
  have "expect 0x7D (0x22 # k @ 0x22 # 0x3A # 0x22 # v @ 0x22 # d # r) = None"
    by (simp add: expect_def skip_ws_Cons_non_ws)
  with json_members_string_then [OF assms, of n] show ?thesis
    unfolding JSON_parse_def n by (simp add: skip_ws_Cons_non_ws)
qed

text \<open>C7: the round trip fails for a value containing \<open>=\<close>: \<open>stringifyQueryString\<close>
  encodes it as \<open>%3D\<close>, but \<open>parseQueryString\<close> decodes the whole query before
  rewriting every \<open>=\<close> into \<open>":"\<close>, so the JSON text has a second colon in the
  member and \<open>JSON.parse\<close> throws \<open>SyntaxError\<close>.\<close>

theorem parse_eq_in_value:
  assumes "query_safe k" "query_safe v1" "wf_utf16 v2"
  shows "\<exists>q. stringifyQueryString (JObject a [(k, JString (v1 @ 0x3D # v2))]) = Inr q \<and>
             parseQueryString loc (Some q) = Inl SyntaxError"
proof -
  let ?v = "v1 @ 0x3D # v2"
  have wk: "wf_utf16 k" and wv1: "wf_utf16 v1" using assms(1,2) by (simp_all add: query_safe_def)
  have "wf_utf16 [0x3D]" by (rule wf_utf16_bmp) simp
  then have "wf_utf16 ([0x3D] @ v2)" using assms(3) by (rule wf_utf16_append)
  then have wv: "wf_utf16 ?v" using wf_utf16_append [OF wv1] by simp
  have wf: "\<forall>kv\<in>set [(k, ?v)]. wf_utf16 (fst kv) \<and> wf_utf16 (snd kv)" using wk wv by simp
  let ?q = "enc_pair_text (k, ?v)"
  have s: "stringifyQueryString (JObject a [(k, JString ?v)]) = Inr ?q"
    using stringify_strings [OF wf, of a] by simp
  have ne: "?q \<noteq> []" by (simp add: enc_pair_text_def)
  have qp: "query_part ?q = ?q" using query_part_enc_pairs [OF wf] by simp
  have dec: "decodeURIComponent ?q = Inr (pair_text (k, ?v))" using decode_join_pairs [OF wf] by simp
  have no: "c \<notin> set k \<and> c \<notin> set v1" if "c \<in> {0x22, 0x26, 0x3D}" for c
    using assms(1,2) that by (auto simp: query_safe_def)
  have "query_json_text (pair_text (k, ?v)) =
      0x7B # 0x22 # k @ 0x22 # 0x3A # 0x22 # v1 @ 0x22 # 0x3A # 0x22 #
      replace_all_cu 0x3D [0x22, 0x3A, 0x22]
        (replace_all_cu 0x26 [0x22, 0x2C, 0x22] (replace_all_cu 0x22 [0x5C, 0x22] v2)) @ [0x22, 0x7D]"
    using no by (simp add: query_json_text_def pair_text_def replace_all_cu_absent)
  moreover have "json_plain k" "json_plain v1" using assms(1,2) by (simp_all add: query_safe_json_plain)
  ultimately have "JSON_parse (query_json_text (pair_text (k, ?v))) = Inl SyntaxError"
    using JSON_parse_string_then [of k v1 "0x3A"] by (simp add: is_json_ws_def)
  with s ne qp dec show ?thesis by (simp add: parseQueryString_def url_or_location_def)
qed

theorem parse_eq_in_value_witness:
  "stringifyQueryString (JObject 0 [(js ''a'', JString (js ''b=c''))]) = Inr (js ''a=b%3Dc'') \<and>
   parseQueryString [] (Some (js ''a=b%3Dc'')) = Inl SyntaxError"
proof -
  have h: "query_safe (js ''a'')" "query_safe (js ''b'')" "wf_utf16 (js ''c'')" by code_simp+
  have e: "js ''b'' @ 0x3D # js ''c'' = js ''b=c''" by (simp add: js_def)
  have s: "stringifyQueryString (JObject 0 [(js ''a'', JString (js ''b=c''))]) = Inr (js ''a=b%3Dc'')"
    by code_simp
  from parse_eq_in_value [OF h, of 0 "[]"] e s show ?thesis by simp
qed

end
