(* ===== verification/Key_Code.thy ===== *)
theory Key_Code
  imports JS_Values
begin

text \<open>
  The key-code table of src/index.js (\<open>keyCodeMap\<close>, lines 240-348) and its
  lookup \<open>getKeyName\<close> (lines 354-362). The object literal is the association list
  \<open>key_codes\<close> from key codes to names; as a JavaScript object its keys are the
  decimal strings of the codes (\<open>keyCodeMap\<close>). \<open>getKeyName\<close> looks the argument
  up under \<open>ToString\<close> of it, returns the name when the entry is truthy, and
  otherwise logs a message and returns the empty string; the log is returned as the list
  of lines written to the console. The argument is modelled as a number; a string
  argument naming a property of \<open>Object.prototype\<close> is not modelled.
\<close>

definition key_codes :: "(nat \<times> jsstr) list" where
  "key_codes = [
     (8, js ''Backspace''),
     (9, js ''Tab''),
     (13, js ''Enter''),
     (16, js ''Shift''),
     (17, js ''Ctrl''),
     (18, js ''Alt''),
     (19, js ''Pause''),
     (20, js ''Caps Lock''),
     (27, js ''Escape''),
     (32, js ''Space''),
     (33, js ''Page Up''),
     (34, js ''Page Down''),
     (35, js ''End''),
     (36, js ''Home''),
     (37, js ''Left''),
     (38, js ''Up''),
     (39, js ''Right''),
     (40, js ''Down''),
     (42, js ''Print Screen''),
     (45, js ''Insert''),
     (46, js ''Delete''),
     (48, js ''0''),
     (49, js ''1''),
     (50, js ''2''),
     (51, js ''3''),
     (52, js ''4''),
     (53, js ''5''),
     (54, js ''6''),
     (55, js ''7''),
     (56, js ''8''),
     (57, js ''9''),
     (65, js ''A''),
     (66, js ''B''),
     (67, js ''C''),
     (68, js ''D''),
     (69, js ''E''),
     (70, js ''F''),
     (71, js ''G''),
     (72, js ''H''),
     (73, js ''I''),
     (74, js ''J''),
     (75, js ''K''),
     (76, js ''L''),
     (77, js ''M''),
     (78, js ''N''),
     (79, js ''O''),
     (80, js ''P''),
     (81, js ''Q''),
     (82, js ''R''),
     (83, js ''S''),
     (84, js ''T''),
     (85, js ''U''),
     (86, js ''V''),
     (87, js ''W''),
     (88, js ''X''),
     (89, js ''Y''),
     (90, js ''Z''),
     (91, js ''Windows''),
     (93, js ''Right Click''),
     (96, js ''Numpad 0''),
     (97, js ''Numpad 1''),
     (98, js ''Numpad 2''),
     (99, js ''Numpad 3''),
     (100, js ''Numpad 4''),
     (101, js ''Numpad 5''),
     (102, js ''Numpad 6''),
     (103, js ''Numpad 7''),
     (104, js ''Numpad 8''),
     (105, js ''Numpad 9''),
     (106, js ''Numpad *''),
     (107, js ''Numpad +''),
     (109, js ''Numpad -''),
     (110, js ''Numpad .''),
     (111, js ''Numpad /''),
     (112, js ''F1''),
     (113, js ''F2''),
     (114, js ''F3''),
     (115, js ''F4''),
     (116, js ''F5''),
     (117, js ''F6''),
     (118, js ''F7''),
     (119, js ''F8''),
     (120, js ''F9''),
     (121, js ''F10''),
     (122, js ''F11''),
     (123, js ''F12''),
     (144, js ''Num Lock''),
     (145, js ''Scroll Lock''),
     (182, js ''My Computer''),
     (183, js ''My Calculator''),
     (186, js '';''),
     (187, js ''=''),
     (188, js '',''),
     (189, js ''-''),
     (190, js ''.''),
     (191, js ''/''),
     (192, js ''`''),
     (219, js ''[''),
     (220, [0x5C]),
     (221, js '']''),
     (222, [0x27])]"

definition keyCodeMap :: "(jsstr \<times> jsstr) list" where
  "keyCodeMap = map (\<lambda>(n, s). (show_nat n, s)) key_codes"

definition unknown_key_msg :: "jsstr \<Rightarrow> jsstr" where
  "unknown_key_msg k = js ''Unknow Key(Key Code: '' @ k @ js '')''"

definition getKeyName :: "jsnum \<Rightarrow> jsstr \<times> jsstr list" where
  "getKeyName keycode =
     (let k = to_string (JNumber keycode) in
      case map_of keyCodeMap k of
        Some v \<Rightarrow> if truthy (JString v) then (v, []) else ([], [unknown_key_msg k])
      | None \<Rightarrow> ([], [unknown_key_msg k]))"

subsection \<open>Lemmas\<close>

lemma map_of_map_inj_keys:
  "inj f \<Longrightarrow> map_of (map (\<lambda>(k, v). (f k, v)) t) (f x) = map_of t x"
  by (induction t) (auto dest: injD)

lemma inj_show_nat: "inj show_nat"
  by (rule injI) (simp add: show_nat_inj)

lemma keyCodeMap_keys: "set (map fst keyCodeMap) \<subseteq> range show_nat"
  by (auto simp: keyCodeMap_def)

lemma keyCodeMap_lookup:
  "map_of keyCodeMap (show_int i) = (if 0 \<le> i then map_of key_codes (nat i) else None)"
proof (cases "0 \<le> i")
  case True
  then show ?thesis
    by (simp add: keyCodeMap_def show_int_def map_of_map_inj_keys [OF inj_show_nat])
next
  case False
  have si: "show_int i = 45 # show_nat (nat (- i))" using False by (simp add: show_int_def)
  have "show_int i \<noteq> show_nat n" for n
    using show_nat_not_minus [of n] unfolding si by (metis list.set_intros(1))
  then have "show_int i \<notin> set (map fst keyCodeMap)"
    using keyCodeMap_keys by blast
  with False show ?thesis by (simp add: map_of_eq_None_iff)
qed

lemma key_names_nonempty: "\<forall>kv\<in>set key_codes. snd kv \<noteq> []"
  by code_simp

lemma key_codes_distinct: "distinct (map fst key_codes)"
  by code_simp

text \<open>C9: \<open>getKeyName\<close> of a number returns the table's name for a code in
  \<open>keyCodeMap\<close> and writes nothing; for any other number, including negative
  ones and \<open>NaN\<close>, it returns the empty string and logs
  \<open>Unknow Key(Key Code: n)\<close>. Looking up the decimal string of the code in the
  object is the same as looking up the code in the table.\<close>

theorem getKeyName_num:
  "getKeyName keycode =
     (case keycode of
       Num i \<Rightarrow>
         (case if 0 \<le> i then map_of key_codes (nat i) else None of
           Some v \<Rightarrow> (v, [])
         | None \<Rightarrow> ([], [unknown_key_msg (show_int i)]))
     | NaN \<Rightarrow> ([], [unknown_key_msg (js ''NaN'')]))"
proof (cases keycode)
  case NaN
  have nan: "js ''NaN'' = 0x4E # [0x61, 0x4E]" by (simp add: js_def)
  have "(0x4E :: cu) \<notin> set (show_nat n)" for n using show_nat_digits [of "0x4E" n] by auto
  then have "js ''NaN'' \<noteq> show_nat n" for n unfolding nan by (metis list.set_intros(1))
  then have "js ''NaN'' \<notin> set (map fst keyCodeMap)"
    using keyCodeMap_keys by blast
  then have "map_of keyCodeMap (js ''NaN'') = None" by (simp add: map_of_eq_None_iff)
  with NaN show ?thesis by (simp add: getKeyName_def Let_def)
next
  case (Num i)
  have ne: "v \<noteq> []" if "map_of key_codes n = Some v" for n v
    using key_names_nonempty map_of_SomeD [OF that] by fastforce
  show ?thesis
    using ne by (auto simp: getKeyName_def Num keyCodeMap_lookup split: option.splits)
qed




end
