(* ===== verification/Browser_OS.thy ===== *)
theory Browser_OS
  imports JS_Prelude
begin

text \<open>
  \<open>getOS\<close> of src/index.js (lines 147-158). It reads three properties of
  \<open>window.navigator\<close>, lower-cases them, and tests them in order against
  case-insensitive regular expressions that are plain words (\<open>/mac/i\<close> and so on);
  the first test that succeeds gives the result, and when none does the function falls
  off its end and returns \<open>undefined\<close> (\<open>None\<close> here). The navigator is a record
  of optional strings (a missing property is \<open>None\<close>) and the window either has one
  or not. A regular expression that is a word of ASCII letters with the \<open>i\<close> flag
  matches where the word occurs up to ASCII case (ECMA-262 Canonicalize never maps a
  non-ASCII code unit to an ASCII one); \<open>toLowerCase\<close> is modelled on ASCII letters,
  which gives the same test results for these words.
\<close>

record navigator =
  userAgent :: "jsstr option"
  vendor :: "jsstr option"
  appVersion :: "jsstr option"

definition ascii_lower :: "cu \<Rightarrow> cu" where
  "ascii_lower c = (if 65 \<le> c \<and> c \<le> 90 then c + 32 else c)"

definition to_lower :: "jsstr \<Rightarrow> jsstr" where
  "to_lower s = map ascii_lower s"

text \<open>\<open>/p/i.test(s)\<close> for a word \<open>p\<close>: \<open>p\<close> occurs in \<open>s\<close> up to case.\<close>

fun test_ci :: "jsstr \<Rightarrow> jsstr \<Rightarrow> bool" where
  "test_ci p [] = (p = [])"
| "test_ci p (c # s) = (map ascii_lower p = map ascii_lower (take (length p) (c # s)) \<or> test_ci p s)"

text \<open>\<open>'navigator' in window && 'prop' in navigator && navigator.prop.toLowerCase() || ''\<close>.\<close>

definition nav_prop :: "navigator option \<Rightarrow> (navigator \<Rightarrow> jsstr option) \<Rightarrow> jsstr" where
  "nav_prop w f = (case w of None \<Rightarrow> [] | Some n \<Rightarrow> (case f n of None \<Rightarrow> [] | Some s \<Rightarrow> to_lower s))"

definition getOS :: "navigator option \<Rightarrow> jsstr option" where
  "getOS w =
     (let ua = nav_prop w userAgent;
          vd = nav_prop w vendor;
          av = nav_prop w appVersion
      in if test_ci (js ''mac'') av then Some (js ''MacOSX'')
         else if test_ci (js ''win'') av then Some (js ''windows'')
         else if test_ci (js ''linux'') av then Some (js ''linux'')
         else if test_ci (js ''iphone'') ua \<or> test_ci (js ''ipad'') ua \<or> test_ci (js ''ipod'') ua
           then Some (js ''ios'')
         else if test_ci (js ''android'') ua then Some (js ''android'')
         else if test_ci (js ''win'') av \<and> test_ci (js ''phone'') ua then Some (js ''windowsPhone'')
         else None)"

subsection \<open>Lemmas\<close>

lemma ascii_lower_idem [simp]: "ascii_lower (ascii_lower c) = ascii_lower c"
proof (cases "65 \<le> c \<and> c \<le> 90")
  case True
  then have "unat c + 32 < 65536" using unat_cu_less [of c] by (simp add: word_le_nat_alt)
  then have "unat (c + 32) = unat c + 32" by (simp add: unat_word_ariths)
  with True have "\<not> (65 \<le> c + 32 \<and> c + 32 \<le> (90 :: cu))" by (simp add: word_le_nat_alt)
  with True show ?thesis by (simp add: ascii_lower_def)
qed (simp add: ascii_lower_def)

lemma take_lower_Cons:
  "map ascii_lower (take n (ascii_lower a # map ascii_lower s)) = map ascii_lower (take n (a # s))"
  by (cases n) (simp_all add: take_map)

lemma test_ci_lower: "test_ci p (to_lower s) = test_ci p s"
  by (induction s) (simp_all add: to_lower_def take_lower_Cons)

lemma nav_prop_Some: "f n = Some s \<Longrightarrow> test_ci p (nav_prop (Some n) f) = test_ci p s"
  by (simp add: nav_prop_def test_ci_lower)

text \<open>C10: \<open>getOS\<close> never returns \<open>'windowsPhone'\<close>: its last test needs
  \<open>/win/i\<close> to match the app version, and then the second test has already returned
  \<open>'windows'\<close>.\<close>

theorem getOS_no_windowsPhone: "getOS w \<noteq> Some (js ''windowsPhone'')"
  by (simp add: getOS_def Let_def js_def)

text \<open>C11: the app version is tested before the user agent, so a navigator whose
  app version mentions \<open>mac\<close> is reported as \<open>'MacOSX'\<close> whatever its user agent
  says; an iPhone, whose app version reads \<open>like Mac OS X\<close>, is never reported as
  \<open>'ios'\<close>.\<close>

theorem getOS_mac_first:
  "appVersion n = Some av \<Longrightarrow> test_ci (js ''mac'') av \<Longrightarrow> getOS (Some n) = Some (js ''MacOSX'')"
  by (simp add: getOS_def nav_prop_Some)

text \<open>C32: A navigator whose app version mentions \<open>linux\<close> (and neither
  \<open>mac\<close> nor \<open>win\<close>) is reported as \<open>'linux'\<close>, so an Android device, whose app
  version reads \<open>(Linux; Android ...)\<close>, is never reported as \<open>'android'\<close>.\<close>

theorem getOS_linux_first:
  "appVersion n = Some av \<Longrightarrow> \<not> test_ci (js ''mac'') av \<Longrightarrow> \<not> test_ci (js ''win'') av \<Longrightarrow>
   test_ci (js ''linux'') av \<Longrightarrow> getOS (Some n) = Some (js ''linux'')"
  by (simp add: getOS_def nav_prop_Some)

theorem getOS_mac_first_witness:
  "getOS (Some \<lparr>userAgent = Some (js ''Mozilla/5.0 (iPhone; CPU iPhone OS 16_0 like Mac OS X) AppleWebKit/605.1.15 (KHTML, like Gecko) Version/16.0 Mobile/15E148 Safari/604.1''),
      vendor = Some (js ''Apple Computer, Inc.''),
      appVersion = Some (js ''5.0 (iPhone; CPU iPhone OS 16_0 like Mac OS X) AppleWebKit/605.1.15 (KHTML, like Gecko) Version/16.0 Mobile/15E148 Safari/604.1'')\<rparr>) = Some (js ''MacOSX'')"
proof -
  have h: "test_ci (js ''mac'') (js ''5.0 (iPhone; CPU iPhone OS 16_0 like Mac OS X) AppleWebKit/605.1.15 (KHTML, like Gecko) Version/16.0 Mobile/15E148 Safari/604.1'')" by code_simp
  show ?thesis by (rule getOS_mac_first [OF _ h]) simp
qed

theorem getOS_linux_first_witness:
  "getOS (Some \<lparr>userAgent = Some (js ''Mozilla/5.0 (Linux; Android 13; Pixel 7) AppleWebKit/537.36 (KHTML, like Gecko) Chrome/116.0.0.0 Mobile Safari/537.36''),
      vendor = Some (js ''Google Inc.''),
      appVersion = Some (js ''5.0 (Linux; Android 13; Pixel 7) AppleWebKit/537.36 (KHTML, like Gecko) Chrome/116.0.0.0 Mobile Safari/537.36'')\<rparr>) = Some (js ''linux'')"
proof -
  have h: "\<not> test_ci (js ''mac'') (js ''5.0 (Linux; Android 13; Pixel 7) AppleWebKit/537.36 (KHTML, like Gecko) Chrome/116.0.0.0 Mobile Safari/537.36'')" "\<not> test_ci (js ''win'') (js ''5.0 (Linux; Android 13; Pixel 7) AppleWebKit/537.36 (KHTML, like Gecko) Chrome/116.0.0.0 Mobile Safari/537.36'')"
    "test_ci (js ''linux'') (js ''5.0 (Linux; Android 13; Pixel 7) AppleWebKit/537.36 (KHTML, like Gecko) Chrome/116.0.0.0 Mobile Safari/537.36'')" by code_simp+
  show ?thesis by (rule getOS_linux_first [OF _ h]) simp
qed

end
