(* ===== verification/JS_Regex.thy ===== *)
theory JS_Regex
  imports JS_Prelude
begin

text \<open>
  Regular expressions as the utilities use them (ECMA-262 patterns without the
  \<open>u\<close>, \<open>v\<close>, \<open>s\<close>, \<open>m\<close> and \<open>y\<close> flags, with the web-compatibility grammar of
  Annex B). A pattern is parsed into \<open>rx\<close>; a character class is a list of code-unit
  ranges with a negation flag; a quantifier keeps its minimum, its optional extra
  maximum and its greediness; assertions are \<open>^\<close>, \<open>$\<close>, \<open>\b\<close>/\<open>\B\<close> and the
  lookaheads. Matching from a position gives the list of end positions in the order
  the backtracking matcher of the specification tries them, so the first end is the
  match \<open>exec\<close> reports and the list is empty when there is none. Capture contents
  are not kept: a pattern with a backreference or a named group is outside the model
  and the parser says so (\<open>RxOutside\<close>) instead of guessing.
\<close>

type_synonym ranges = "(cu \<times> cu) list"

datatype rx =
    REmpty
  | RClass bool ranges
  | RSeq rx rx
  | RAlt rx rx
  | RRep bool rx nat "nat option"
  | RBol
  | REol
  | RWordB bool
  | RLook bool rx

subsection \<open>Characters\<close>

fun in_ranges :: "cu \<Rightarrow> ranges \<Rightarrow> bool" where
  "in_ranges c [] = False"
| "in_ranges c ((a, b) # rs) = (a \<le> c \<and> c \<le> b \<or> in_ranges c rs)"

text \<open>Canonicalize for the \<open>i\<close> flag, on ASCII letters: the code unit of the other
  case.\<close>

definition other_case :: "cu \<Rightarrow> cu" where
  "other_case c = (if 65 \<le> c \<and> c \<le> 90 then c + 32 else if 97 \<le> c \<and> c \<le> 122 then c - 32 else c)"

definition class_match :: "bool \<Rightarrow> bool \<Rightarrow> ranges \<Rightarrow> cu \<Rightarrow> bool" where
  "class_match ic neg rs c = ((in_ranges c rs \<or> (ic \<and> in_ranges (other_case c) rs)) \<noteq> neg)"

definition word_ranges :: ranges where
  "word_ranges = [(0x30, 0x39), (0x41, 0x5A), (0x5F, 0x5F), (0x61, 0x7A)]"

definition digit_ranges :: ranges where
  "digit_ranges = [(0x30, 0x39)]"

definition space_ranges :: ranges where
  "space_ranges = [(0x09, 0x0D), (0x20, 0x20), (0xA0, 0xA0), (0x1680, 0x1680), (0x2000, 0x200A),
     (0x2028, 0x2028), (0x2029, 0x2029), (0x202F, 0x202F), (0x205F, 0x205F), (0x3000, 0x3000), (0xFEFF, 0xFEFF)]"

definition line_term_ranges :: ranges where
  "line_term_ranges = [(0x0A, 0x0A), (0x0D, 0x0D), (0x2028, 0x2029)]"

definition word_at :: "jsstr \<Rightarrow> int \<Rightarrow> bool" where
  "word_at s i = (0 \<le> i \<and> i < int (length s) \<and> in_ranges (s ! nat i) word_ranges)"

subsection \<open>Matching\<close>

fun rsize :: "rx \<Rightarrow> nat" where
  "rsize (RSeq a b) = rsize a + rsize b + 1"
| "rsize (RAlt a b) = rsize a + rsize b + 1"
| "rsize (RRep g r n k) = rsize r + 1"
| "rsize (RLook b r) = rsize r + 1"
| "rsize r = 1"

fun rcount :: "rx \<Rightarrow> nat" where
  "rcount (RRep g r n k) = n + (case k of Some m \<Rightarrow> m | None \<Rightarrow> 0)"
| "rcount r = 0"

text \<open>\<open>ends ic s r i\<close>: the positions where a match of \<open>r\<close> from position \<open>i\<close> of
  \<open>s\<close> can end, in backtracking order. A greedy quantifier tries one more iteration
  before stopping, a lazy one stops first; once the minimum is reached an iteration
  that matches the empty string is rejected.\<close>

function ends :: "bool \<Rightarrow> jsstr \<Rightarrow> rx \<Rightarrow> nat \<Rightarrow> nat list" where
  "ends ic s REmpty i = [i]"
| "ends ic s (RClass neg rs) i = (if i < length s \<and> class_match ic neg rs (s ! i) then [Suc i] else [])"
| "ends ic s (RSeq a b) i = concat (map (\<lambda>j. ends ic s b j) (ends ic s a i))"
| "ends ic s (RAlt a b) i = ends ic s a i @ ends ic s b i"
| "ends ic s (RRep g r (Suc n) k) i = concat (map (\<lambda>j. ends ic s (RRep g r n k) j) (ends ic s r i))"
| "ends ic s (RRep g r 0 (Some 0)) i = [i]"
| "ends ic s (RRep g r 0 (Some (Suc m))) i =
     (let more = concat (map (\<lambda>j. ends ic s (RRep g r 0 (Some m)) j) (filter (\<lambda>j. i < j) (ends ic s r i)))
      in if g then more @ [i] else i # more)"
| "ends ic s (RRep g r 0 None) i =
     (let more = concat (map (\<lambda>j. ends ic s (RRep g r 0 None) j)
                   (filter (\<lambda>j. i < j \<and> j \<le> length s) (ends ic s r i)))
      in if g then more @ [i] else i # more)"
| "ends ic s RBol i = (if i = 0 then [i] else [])"
| "ends ic s REol i = (if i = length s then [i] else [])"
| "ends ic s (RWordB b) i = (if (word_at s (int i - 1) \<noteq> word_at s (int i)) = b then [i] else [])"
| "ends ic s (RLook b r) i = (if (ends ic s r i \<noteq> []) = b then [i] else [])"
  by pat_completeness auto
termination
  by (relation "measures [\<lambda>(ic, s, r, i). rsize r, \<lambda>(ic, s, r, i). rcount r, \<lambda>(ic, s, r, i). length s - i]")
     auto

text \<open>\<open>re.test(s)\<close> without the \<open>g\<close> flag: a match starts at some position.\<close>

definition rx_test :: "bool \<Rightarrow> rx \<Rightarrow> jsstr \<Rightarrow> bool" where
  "rx_test ic r s = list_ex (\<lambda>i. ends ic s r i \<noteq> []) [0..<Suc (length s)]"

text \<open>The leftmost match: its start and the end the matcher reports.\<close>

definition rx_exec :: "bool \<Rightarrow> rx \<Rightarrow> jsstr \<Rightarrow> (nat \<times> nat) option" where
  "rx_exec ic r s =
     (case filter (\<lambda>i. ends ic s r i \<noteq> []) [0..<Suc (length s)] of
       [] \<Rightarrow> None
     | i # _ \<Rightarrow> Some (i, hd (ends ic s r i)))"

text \<open>\<open>s.replace(re, t)\<close> for a non-global \<open>re\<close> and a replacement without \<open>$\<close>.\<close>

definition rx_replace :: "bool \<Rightarrow> rx \<Rightarrow> jsstr \<Rightarrow> jsstr \<Rightarrow> jsstr" where
  "rx_replace ic r s t = (case rx_exec ic r s of None \<Rightarrow> s | Some (i, j) \<Rightarrow> take i s @ t @ drop j s)"

text \<open>The search of an \<open>exec\<close> that starts at \<open>lastIndex = k\<close> (a global or sticky
  expression): the first match starting at \<open>k\<close> or later.\<close>

definition rx_exec_at :: "bool \<Rightarrow> rx \<Rightarrow> jsstr \<Rightarrow> nat \<Rightarrow> (nat \<times> nat) option" where
  "rx_exec_at ic r s k =
     (case filter (\<lambda>i. ends ic s r i \<noteq> []) [k..<Suc (length s)] of
       [] \<Rightarrow> None
     | i # _ \<Rightarrow> Some (i, hd (ends ic s r i)))"

text \<open>The matches \<open>s.replace(re, t)\<close> visits for a global \<open>re\<close>: from \<open>lastIndex\<close>
  0, each search starts at the end of the previous match, one further after an empty
  match (\<open>AdvanceStringIndex\<close>), until a search fails.\<close>

function rx_matches :: "bool \<Rightarrow> rx \<Rightarrow> jsstr \<Rightarrow> nat \<Rightarrow> (nat \<times> nat) list" where
  "rx_matches ic r s k =
     (if length s < k then []
      else case rx_exec_at ic r s k of
        None \<Rightarrow> []
      | Some (i, j) \<Rightarrow> (i, j) # rx_matches ic r s (if j \<le> i then Suc i else j))"
  by pat_completeness auto
termination
proof (relation "measure (\<lambda>(ic, r, s, k). Suc (length s) - k)")
  fix ic r s k x2 i j
  assume k: "\<not> length s < k" and x: "rx_exec_at ic r s k = Some x2" and ij: "(i, j) = x2"
  obtain vs where "filter (\<lambda>i. ends ic s r i \<noteq> []) [k..<Suc (length s)] = i # vs"
    using x ij by (auto simp: rx_exec_at_def split: list.splits)
  then have "i \<in> set (filter (\<lambda>i. ends ic s r i \<noteq> []) [k..<Suc (length s)])" by simp
  then have "i \<in> set [k..<Suc (length s)]" by (simp del: upt_Suc)
  then have "k \<le> i" by (simp del: upt_Suc)
  then show "((ic, r, s, if j \<le> i then Suc i else j), ic, r, s, k) \<in> measure (\<lambda>(ic, r, s, k). Suc (length s) - k)"
    using k by auto
qed simp

text \<open>The result: the text between the matches, each match replaced by \<open>t\<close>.\<close>

fun splice :: "jsstr \<Rightarrow> nat \<Rightarrow> (nat \<times> nat) list \<Rightarrow> jsstr \<Rightarrow> jsstr" where
  "splice s p [] t = drop p s"
| "splice s p ((i, j) # ms) t = take (i - p) (drop p s) @ t @ splice s j ms t"

definition rx_replace_all :: "bool \<Rightarrow> rx \<Rightarrow> jsstr \<Rightarrow> jsstr \<Rightarrow> jsstr" where
  "rx_replace_all ic r s t = splice s 0 (rx_matches ic r s 0) t"

declare rx_matches.simps [simp del]

subsection \<open>Parsing a pattern\<close>

text \<open>The outcome of a parsing step: a syntax error, a construct outside the model
  (backreferences, named groups, lookbehind), or a result with the rest of the input.\<close>

datatype 'a pres = PSyn | POut | POk 'a

definition pbind :: "'a pres \<Rightarrow> ('a \<Rightarrow> 'b pres) \<Rightarrow> 'b pres" where
  "pbind p f = (case p of PSyn \<Rightarrow> PSyn | POut \<Rightarrow> POut | POk a \<Rightarrow> f a)"

datatype rx_parsed = RxOk rx | RxSyntax | RxOutside

definition char_rx :: "cu \<Rightarrow> rx" where
  "char_rx c = RClass False [(c, c)]"

definition dec_digit :: "cu \<Rightarrow> bool" where
  "dec_digit c \<longleftrightarrow> 0x30 \<le> c \<and> c \<le> 0x39"

definition oct_digit :: "cu \<Rightarrow> bool" where
  "oct_digit c \<longleftrightarrow> 0x30 \<le> c \<and> c \<le> 0x37"

definition ascii_letter :: "cu \<Rightarrow> bool" where
  "ascii_letter c \<longleftrightarrow> (0x41 \<le> c \<and> c \<le> 0x5A) \<or> (0x61 \<le> c \<and> c \<le> 0x7A)"

text \<open>A run of decimal digits and its value.\<close>

definition read_dec :: "jsstr \<Rightarrow> (nat \<times> jsstr) option" where
  "read_dec s =
     (let ds = takeWhile dec_digit s
      in if ds = [] then None else Some (foldl (\<lambda>a d. 10 * a + (unat d - 48)) 0 ds, dropWhile dec_digit s))"

text \<open>The rest of \<open>{n}\<close>, \<open>{n,}\<close> or \<open>{n,m}\<close> after the brace: minimum and maximum.\<close>

definition p_braces :: "jsstr \<Rightarrow> ((nat \<times> nat option) \<times> jsstr) option" where
  "p_braces s =
     (case read_dec s of
       None \<Rightarrow> None
     | Some (n, r) \<Rightarrow>
         (case r of
           [] \<Rightarrow> None
         | c # r' \<Rightarrow>
             if c = 0x7D then Some ((n, Some n), r')
             else if c = 0x2C then
               (case r' of
                 [] \<Rightarrow> None
               | d # r'' \<Rightarrow>
                   if d = 0x7D then Some ((n, None), r'')
                   else (case read_dec r' of
                           Some (m, e # r3) \<Rightarrow> if e = 0x7D then Some ((n, Some m), r3) else None
                         | _ \<Rightarrow> None))
             else None))"

text \<open>A quantifier: minimum, maximum and greediness (a trailing \<open>?\<close> makes it lazy).\<close>

definition p_quant :: "jsstr \<Rightarrow> ((nat \<times> nat option \<times> bool) \<times> jsstr) option" where
  "p_quant s =
     (case s of
       [] \<Rightarrow> None
     | c # r \<Rightarrow>
         (let q = (if c = 0x2A then Some ((0, None), r) else if c = 0x2B then Some ((1, None), r)
                   else if c = 0x3F then Some ((0, Some 1), r) else if c = 0x7B then p_braces r else None)
          in case q of
               None \<Rightarrow> None
             | Some ((n, m), r') \<Rightarrow>
                 (case r' of
                   d # r'' \<Rightarrow> if d = 0x3F then Some ((n, m, False), r'') else Some ((n, m, True), r')
                 | [] \<Rightarrow> Some ((n, m, True), r'))))"

definition mk_rep :: "bool \<Rightarrow> rx \<Rightarrow> nat \<Rightarrow> nat option \<Rightarrow> rx option" where
  "mk_rep g r n m =
     (case m of None \<Rightarrow> Some (RRep g r n None) | Some m \<Rightarrow> if m < n then None else Some (RRep g r n (Some (m - n))))"

definition quantify :: "rx \<Rightarrow> jsstr \<Rightarrow> (rx \<times> jsstr) pres" where
  "quantify a r =
     (case p_quant r of
       None \<Rightarrow> POk (a, r)
     | Some ((n, m, g), r') \<Rightarrow> (case mk_rep g a n m of None \<Rightarrow> PSyn | Some x \<Rightarrow> POk (x, r')))"

text \<open>An assertion takes no quantifier.\<close>

definition no_quant :: "rx \<Rightarrow> jsstr \<Rightarrow> (rx \<times> jsstr) pres" where
  "no_quant a r = (if p_quant r = None then POk (a, r) else PSyn)"

text \<open>Legacy octal escapes (Annex B): up to three octal digits when the first is 0-3, up
  to two otherwise.\<close>

definition p_octal :: "jsstr \<Rightarrow> cu \<times> jsstr" where
  "p_octal s =
     (let n = (if hd s \<le> 0x33 then 3 else 2);
          ds = take n (takeWhile oct_digit s)
      in (word_of_nat (foldl (\<lambda>a d. 8 * a + (unat d - 48)) 0 ds), drop (length ds) s))"

text \<open>\<open>\x\<close>, \<open>\u\<close>: the hexadecimal escapes; without their digits the letter stands for
  itself (Annex B).\<close>

definition p_hex :: "nat \<Rightarrow> cu \<Rightarrow> jsstr \<Rightarrow> cu \<times> jsstr" where
  "p_hex k e r =
     (let hs = take k r
      in if length hs = k \<and> (\<forall>h\<in>set hs. hex_val h \<noteq> None)
         then (word_of_nat (foldl (\<lambda>a h. 16 * a + the (hex_val h)) 0 hs), drop k r)
         else (e, r))"

text \<open>A character escape after the backslash, common to atoms and classes:
  the control escapes, \<open>\0\<close>, legacy octal, hexadecimal and identity escapes.
  \<open>ctrl_ok\<close> says which code units may follow \<open>\c\<close>; otherwise the backslash stands
  for itself and the \<open>c\<close> is read again.\<close>

definition p_char_escape :: "(cu \<Rightarrow> bool) \<Rightarrow> jsstr \<Rightarrow> cu \<times> jsstr" where
  "p_char_escape ctrl_ok s =
     (case s of
       [] \<Rightarrow> (0x5C, s)
     | e # r \<Rightarrow>
         if e = 0x66 then (0x0C, r) else if e = 0x6E then (0x0A, r) else if e = 0x72 then (0x0D, r)
         else if e = 0x74 then (0x09, r) else if e = 0x76 then (0x0B, r)
         else if e = 0x63 then
           (case r of x # r' \<Rightarrow> if ctrl_ok x then (word_of_nat (unat x mod 32), r') else (0x5C, s)
            | [] \<Rightarrow> (0x5C, s))
         else if e = 0x30 \<and> (r = [] \<or> \<not> dec_digit (hd r)) then (0, r)
         else if oct_digit e then p_octal s
         else if e = 0x78 then p_hex 2 e r
         else if e = 0x75 then p_hex 4 e r
         else (e, r))"

datatype catom = CChar cu | CSet ranges

text \<open>The complement of sorted disjoint ranges within the code units.\<close>

fun gaps :: "nat \<Rightarrow> ranges \<Rightarrow> ranges" where
  "gaps lo [] = (if lo \<le> 65535 then [(word_of_nat lo, 0xFFFF)] else [])"
| "gaps lo ((a, b) # rs) = (if lo < unat a then [(word_of_nat lo, a - 1)] else []) @ gaps (unat b + 1) rs"

definition class_escape_set :: "cu \<Rightarrow> ranges option" where
  "class_escape_set e =
     (if e = 0x64 then Some digit_ranges else if e = 0x44 then Some (gaps 0 digit_ranges)
      else if e = 0x77 then Some word_ranges else if e = 0x57 then Some (gaps 0 word_ranges)
      else if e = 0x73 then Some space_ranges else if e = 0x53 then Some (gaps 0 space_ranges)
      else None)"

definition catom_ranges :: "catom \<Rightarrow> ranges" where
  "catom_ranges a = (case a of CChar c \<Rightarrow> [(c, c)] | CSet rs \<Rightarrow> rs)"

text \<open>One atom of a class: \<open>\b\<close> is backspace there, and \<open>\c\<close> also takes a digit or
  \<open>_\<close> (Annex B).\<close>

definition p_class_atom :: "jsstr \<Rightarrow> (catom \<times> jsstr) pres" where
  "p_class_atom s =
     (case s of
       [] \<Rightarrow> PSyn
     | c # r \<Rightarrow>
         if c \<noteq> 0x5C then POk (CChar c, r)
         else (case r of
                 [] \<Rightarrow> PSyn
               | e # r' \<Rightarrow>
                   if e = 0x62 then POk (CChar 0x08, r')
                   else (case class_escape_set e of
                           Some rs \<Rightarrow> POk (CSet rs, r')
                         | None \<Rightarrow>
                             (let (x, r'') = p_char_escape (\<lambda>x. ascii_letter x \<or> dec_digit x \<or> x = 0x5F) r
                              in POk (CChar x, r'')))))"

fun p_class_items :: "nat \<Rightarrow> jsstr \<Rightarrow> (ranges \<times> jsstr) pres" where
  "p_class_items 0 s = PSyn"
| "p_class_items (Suc n) s =
     (case s of
       [] \<Rightarrow> PSyn
     | c # r \<Rightarrow>
         if c = 0x5D then POk ([], r)
         else pbind (p_class_atom s) (\<lambda>(a, r1).
           if take 1 r1 = [0x2D] \<and> length r1 \<ge> 2 \<and> r1 ! 1 \<noteq> 0x5D then
             pbind (p_class_atom (tl r1)) (\<lambda>(b, r3).
               case (a, b) of
                 (CChar x, CChar y) \<Rightarrow>
                   if y < x then PSyn else pbind (p_class_items n r3) (\<lambda>(rs, r4). POk ((x, y) # rs, r4))
               | _ \<Rightarrow> pbind (p_class_items n r3)
                        (\<lambda>(rs, r4). POk (catom_ranges a @ [(0x2D, 0x2D)] @ catom_ranges b @ rs, r4)))
           else pbind (p_class_items n r1) (\<lambda>(rs, r4). POk (catom_ranges a @ rs, r4))))"

text \<open>An escape in an atom: class escapes, a backreference when the number is at most
  the number of capturing groups (outside the model), \<open>\8\<close> and \<open>\9\<close> as identity
  escapes, and the character escapes.\<close>

definition p_atom_escape :: "nat \<Rightarrow> jsstr \<Rightarrow> (rx \<times> jsstr) pres" where
  "p_atom_escape k s =
     (case s of
       [] \<Rightarrow> PSyn
     | e # r \<Rightarrow>
         if e = 0x44 \<or> e = 0x57 \<or> e = 0x53 then
           POk (RClass True (if e = 0x44 then digit_ranges else if e = 0x57 then word_ranges else space_ranges), r)
         else (case class_escape_set e of
                 Some rs \<Rightarrow> POk (RClass False rs, r)
               | None \<Rightarrow>
                   if 0x31 \<le> e \<and> e \<le> 0x39 \<and> fst (the (read_dec s)) \<le> k then POut
                   else if e = 0x38 \<or> e = 0x39 then POk (char_rx e, r)
                   else (let (x, r') = p_char_escape ascii_letter s in POk (char_rx x, r'))))"

text \<open>An atom that is not a group: \<open>.\<close>, a class, an escape, or a pattern character
  (with \<open>]\<close>, \<open>{\<close>, \<open>}\<close> as literals when they cannot start a quantifier).\<close>

definition p_atom :: "nat \<Rightarrow> jsstr \<Rightarrow> (rx \<times> jsstr) pres" where
  "p_atom k s =
     (case s of
       [] \<Rightarrow> PSyn
     | c # r \<Rightarrow>
         if c = 0x2E then POk (RClass True line_term_ranges, r)
         else if c = 0x5B then
           (if take 1 r = [0x5E] then pbind (p_class_items (length r) (tl r)) (\<lambda>(rs, r'). POk (RClass True rs, r'))
            else pbind (p_class_items (length r + 1) r) (\<lambda>(rs, r'). POk (RClass False rs, r')))
         else if c = 0x5C then p_atom_escape k r
         else if c = 0x2A \<or> c = 0x2B \<or> c = 0x3F then PSyn
         else if c = 0x7B \<and> p_braces r \<noteq> None then PSyn
         else POk (char_rx c, r))"

definition close_group :: "(rx \<Rightarrow> rx) \<Rightarrow> rx \<times> jsstr \<Rightarrow> (rx \<times> jsstr) pres" where
  "close_group f dr = (case snd dr of c # r \<Rightarrow> if c = 0x29 then quantify (f (fst dr)) r else PSyn | [] \<Rightarrow> PSyn)"

fun p_disj :: "nat \<Rightarrow> nat \<Rightarrow> jsstr \<Rightarrow> (rx \<times> jsstr) pres"
and p_alt :: "nat \<Rightarrow> nat \<Rightarrow> jsstr \<Rightarrow> (rx \<times> jsstr) pres"
and p_term :: "nat \<Rightarrow> nat \<Rightarrow> jsstr \<Rightarrow> (rx \<times> jsstr) pres" where
  "p_disj k 0 s = PSyn"
| "p_disj k (Suc n) s =
     pbind (p_alt k n s) (\<lambda>(a, r).
       if take 1 r = [0x7C] then pbind (p_disj k n (tl r)) (\<lambda>(b, r'). POk (RAlt a b, r')) else POk (a, r))"
| "p_alt k 0 s = PSyn"
| "p_alt k (Suc n) s =
     (if s = [] \<or> hd s = 0x7C \<or> hd s = 0x29 then POk (REmpty, s)
      else pbind (p_term k n s) (\<lambda>(t, r). pbind (p_alt k n r) (\<lambda>(u, r'). POk (RSeq t u, r'))))"
| "p_term k 0 s = PSyn"
| "p_term k (Suc n) s =
     (case s of
       [] \<Rightarrow> PSyn
     | c # r \<Rightarrow>
         if c = 0x5E then no_quant RBol r
         else if c = 0x24 then no_quant REol r
         else if c = 0x5C \<and> (take 1 r = [0x62] \<or> take 1 r = [0x42]) then no_quant (RWordB (hd r = 0x62)) (tl r)
         else if c = 0x28 \<and> (take 2 r = [0x3F, 0x3D] \<or> take 2 r = [0x3F, 0x21]) then
           pbind (p_disj k n (drop 2 r)) (close_group (RLook (r ! 1 = 0x3D)))
         else if c = 0x28 \<and> take 2 r = [0x3F, 0x3A] then pbind (p_disj k n (drop 2 r)) (close_group id)
         else if c = 0x28 \<and> take 1 r = [0x3F] then (if take 2 r = [0x3F, 0x3C] then POut else PSyn)
         else if c = 0x28 then pbind (p_disj k n r) (close_group id)
         else pbind (p_atom k s) (\<lambda>(a, r'). quantify a r'))"

text \<open>The number of capturing groups, which decides whether \<open>\n\<close> is a backreference.\<close>

fun count_caps :: "bool \<Rightarrow> jsstr \<Rightarrow> nat" where
  "count_caps b [] = 0"
| "count_caps b (c # r) =
     (if c = 0x5C then count_caps b (drop 1 r)
      else if b then count_caps (c \<noteq> 0x5D) r
      else if c = 0x5B then count_caps True r
      else if c = 0x28 \<and> take 1 r \<noteq> [0x3F] then Suc (count_caps False r)
      else count_caps False r)"

text \<open>\<open>new RegExp(p)\<close>: each nested call consumes a code unit within three calls, so the
  fuel \<open>3 * length p + 3\<close> never runs out; text left over (an unmatched \<open>)\<close>) is a
  syntax error.\<close>

definition rx_parse :: "jsstr \<Rightarrow> rx_parsed" where
  "rx_parse p =
     (case p_disj (count_caps False p) (3 * length p + 3) p of
       POk (r, rest) \<Rightarrow> if rest = [] then RxOk r else RxSyntax
     | PSyn \<Rightarrow> RxSyntax
     | POut \<Rightarrow> RxOutside)"


subsection \<open>Literal runs\<close>

text \<open>The code units that stand for themselves in a pattern wherever they occur: not a
  syntax character of the pattern grammar.\<close>

definition plain_cu :: "cu \<Rightarrow> bool" where
  "plain_cu c \<longleftrightarrow> c \<notin> {0x5E, 0x24, 0x5C, 0x2E, 0x2A, 0x2B, 0x3F, 0x28, 0x29, 0x5B, 0x5D, 0x7B, 0x7D, 0x7C}"

text \<open>The expression a run of such code units parses to, followed by \<open>u\<close>.\<close>

definition lit :: "jsstr \<Rightarrow> rx \<Rightarrow> rx" where
  "lit w u = foldr (\<lambda>c r. RSeq (char_rx c) r) w u"

subsection \<open>Static facts about an expression\<close>

text \<open>No assertion: a match depends only on the code units it covers.\<close>

fun anchor_free :: "rx \<Rightarrow> bool" where
  "anchor_free (RSeq a b) = (anchor_free a \<and> anchor_free b)"
| "anchor_free (RAlt a b) = (anchor_free a \<and> anchor_free b)"
| "anchor_free (RRep g r n k) = anchor_free r"
| "anchor_free REmpty = True"
| "anchor_free (RClass neg rs) = True"
| "anchor_free r = False"

text \<open>The ranges of all classes, when none is negated.\<close>

fun rx_chars :: "rx \<Rightarrow> ranges option" where
  "rx_chars (RClass neg rs) = (if neg then None else Some rs)"
| "rx_chars (RSeq a b) = (case (rx_chars a, rx_chars b) of (Some x, Some y) \<Rightarrow> Some (x @ y) | _ \<Rightarrow> None)"
| "rx_chars (RAlt a b) = (case (rx_chars a, rx_chars b) of (Some x, Some y) \<Rightarrow> Some (x @ y) | _ \<Rightarrow> None)"
| "rx_chars (RRep g r n k) = rx_chars r"
| "rx_chars r = Some []"

text \<open>The possible lengths of a match, when every quantifier is bounded.\<close>

definition sums :: "nat list \<Rightarrow> nat list \<Rightarrow> nat list" where
  "sums A B = concat (map (\<lambda>a. map (\<lambda>b. a + b) B) A)"

fun rep_lens :: "nat list \<Rightarrow> nat \<Rightarrow> nat \<Rightarrow> nat list" where
  "rep_lens L 0 0 = [0]"
| "rep_lens L 0 (Suc m) = 0 # sums L (rep_lens L 0 m)"
| "rep_lens L (Suc n) k = sums L (rep_lens L n k)"

fun rx_lens :: "rx \<Rightarrow> nat list option" where
  "rx_lens REmpty = Some [0]"
| "rx_lens (RClass neg rs) = Some [1]"
| "rx_lens (RSeq a b) = (case (rx_lens a, rx_lens b) of (Some x, Some y) \<Rightarrow> Some (sums x y) | _ \<Rightarrow> None)"
| "rx_lens (RAlt a b) = (case (rx_lens a, rx_lens b) of (Some x, Some y) \<Rightarrow> Some (x @ y) | _ \<Rightarrow> None)"
| "rx_lens (RRep g r n (Some k)) = map_option (\<lambda>L. rep_lens L n k) (rx_lens r)"
| "rx_lens (RRep g r n None) = None"
| "rx_lens r = Some [0]"

text \<open>The expression starts with \<open>^\<close>, or ends with \<open>$\<close>.\<close>

fun bol_first :: "rx \<Rightarrow> bool" where
  "bol_first RBol = True"
| "bol_first (RSeq a b) = bol_first a"
| "bol_first r = False"

fun eol_last :: "rx \<Rightarrow> bool" where
  "eol_last REol = True"
| "eol_last (RSeq a b) = (eol_last b \<or> (b = REmpty \<and> eol_last a))"
| "eol_last r = False"

subsection \<open>Lemmas on the parser\<close>

text \<open>The equation of an unbounded quantifier unfolds to itself at a later position;
  it is applied by hand.\<close>

lemmas ends_star = ends.simps(8)

declare ends.simps(8) [simp del]

lemma pbind_POk [simp]: "pbind (POk a) f = f a"
  by (simp add: pbind_def)

lemma p_quant_plain: "plain_cu c \<Longrightarrow> p_quant (c # r) = None"
  by (simp add: p_quant_def plain_cu_def)

lemma p_quant_paren: "p_quant (0x28 # r) = None"
  by (simp add: p_quant_def)

lemma p_quant_plain_app: "\<forall>c\<in>set w. plain_cu c \<Longrightarrow> p_quant (w @ 0x28 # t) = None"
  by (cases w) (simp_all add: p_quant_plain p_quant_paren)

text \<open>A run of plain code units parses one code unit per step of fuel.\<close>

lemma p_alt_plain:
  "\<forall>c\<in>set w. plain_cu c \<Longrightarrow> length w < n \<Longrightarrow> p_quant rest = None \<Longrightarrow>
   p_alt k n (w @ rest) = pbind (p_alt k (n - length w) rest) (\<lambda>(u, r). POk (lit w u, r))"
proof (induction w arbitrary: n)
  case Nil
  then show ?case by (simp add: lit_def pbind_def split: pres.split prod.split)
next
  case (Cons c w)
  from Cons.prems obtain m where n: "n = Suc (Suc m)" by (cases n; cases "n - 1") auto
  have pc: "plain_cu c" and pw: "\<forall>c\<in>set w. plain_cu c" using Cons.prems by auto
  then have q: "p_quant (w @ rest) = None"
    using Cons.prems(3) by (cases w) (simp_all add: p_quant_plain)
  have t: "p_term k (Suc m) (c # w @ rest) = POk (char_rx c, w @ rest)"
    using pc q by (simp add: plain_cu_def p_atom_def quantify_def)
  have ih: "p_alt k (Suc m) (w @ rest) = pbind (p_alt k (Suc m - length w) rest) (\<lambda>(u, r). POk (lit w u, r))"
    using Cons.IH [OF pw _ Cons.prems(3), of "Suc m"] Cons.prems(2) n by (simp del: p_alt.simps)
  have nt: "c \<noteq> 0x7C \<and> c \<noteq> 0x29" using pc by (auto simp: plain_cu_def)
  have "p_alt k n (c # w @ rest) = pbind (p_alt k (Suc m) (w @ rest)) (\<lambda>(u, r'). POk (RSeq (char_rx c) u, r'))"
    unfolding n using nt by (simp only: p_alt.simps t pbind_POk list.sel list.distinct if_False simp_thms prod.case)
  also have "\<dots> = pbind (p_alt k (n - length (c # w)) rest) (\<lambda>(u, r). POk (lit (c # w) u, r))"
    unfolding ih n by (simp add: pbind_def lit_def split: pres.split prod.split)
  finally show ?case by simp
qed

lemma count_caps_plain: "\<forall>c\<in>set w. plain_cu c \<Longrightarrow> count_caps False (w @ r) = count_caps False r"
  by (induction w) (auto simp: plain_cu_def)

subsection \<open>Lemmas on the matcher\<close>

lemma take_drop_Cons_eq:
  "(take (Suc n) (drop i s) = c # w) = (i < length s \<and> s ! i = c \<and> take n (drop (Suc i) s) = w)"
  by (cases "i < length s") (simp_all add: Cons_nth_drop_Suc [symmetric])

lemma ends_lit:
  "ends False s (lit w u) i = (if take (length w) (drop i s) = w then ends False s u (i + length w) else [])"
proof (induction w arbitrary: i)
  case Nil
  then show ?case by (simp add: lit_def)
next
  case (Cons c w)
  have l: "lit (c # w) u = RSeq (char_rx c) (lit w u)" by (simp add: lit_def)
  show ?case
  proof (cases "i < length s \<and> s ! i = c")
    case True
    then show ?thesis
      unfolding l by (simp add: char_rx_def class_match_def Cons.IH take_drop_Cons_eq)
  next
    case False
    then show ?thesis
      unfolding l by (auto simp: char_rx_def class_match_def take_drop_Cons_eq)
  qed
qed

lemma cu_le_antisym_iff: "(a \<le> c \<and> c \<le> a) = (c = (a :: cu))"
  by auto

lemma cu_9_13: "(0x09 \<le> c \<and> c \<le> (0x0D :: cu)) = (c \<in> {0x09, 0x0A, 0x0B, 0x0C, 0x0D})"
  by (auto simp: word_le_nat_alt word_unat_eq_iff)

lemma space_ranges_js_space: "in_ranges c space_ranges = is_js_space c"
  unfolding space_ranges_def is_js_space_def in_ranges.simps cu_le_antisym_iff cu_9_13
  by (simp only: insert_iff empty_iff) blast

lemma class_match_space: "class_match False False space_ranges c = is_js_space c"
  by (simp add: class_match_def space_ranges_js_space)

lemma concat_map_ends_REmpty [simp]: "concat (map (ends ic s REmpty) xs) = xs"
  by (induction xs) simp_all

lemma ends_seq_REmpty [simp]: "ends ic s (RSeq a REmpty) i = ends ic s a i"
  by (simp add: concat_map_ends_REmpty)

lemma if_Nil_nonempty: "((if c then x else []) \<noteq> []) = (c \<and> x \<noteq> [])"
  by simp

lemma ends_seq_nonempty: "(ends ic s (RSeq a b) i \<noteq> []) = (\<exists>p\<in>set (ends ic s a i). ends ic s b p \<noteq> [])"
  by auto

lemma ends_space_or:
  "ends False s (RAlt (RSeq (RClass False space_ranges) REmpty) (RSeq a REmpty)) i =
   (if i < length s \<and> is_js_space (s ! i) then [Suc i] else []) @ ends False s a i"
  by (simp add: class_match_space)

lemma take_drop_eq_split:
  "take (length w) (drop p s) = w \<Longrightarrow> p \<le> length s \<Longrightarrow> p + length w \<le> length s \<and> s = take p s @ w @ drop (p + length w) s"
proof -
  assume t: "take (length w) (drop p s) = w" and p: "p \<le> length s"
  from t have "length (take (length w) (drop p s)) = length w" by simp
  then have l: "p + length w \<le> length s" using p by (simp add: min_def split: if_splits)
  have d: "drop (length w) (drop p s) = drop (p + length w) s" by (simp add: add.commute)
  have "s = take p s @ take (length w) (drop p s) @ drop (length w) (drop p s)"
    by (simp only: append_take_drop_id)
  then show ?thesis unfolding t d using l by simp
qed

text \<open>The match \<open>exec\<close> reports starts at the first position a match starts at.\<close>

lemma rx_exec_first:
  assumes i: "i \<le> length s" and m: "ends ic s r i \<noteq> []" and f: "\<forall>j<i. ends ic s r j = []"
  shows "rx_exec ic r s = Some (i, hd (ends ic s r i))"
proof -
  have a: "[0..<Suc (length s)] = [0..<i] @ [i..<Suc (length s)]"
    using upt_add_eq_append [of 0 i "Suc (length s) - i"] i by simp
  have b: "[i..<Suc (length s)] = i # [Suc i..<Suc (length s)]"
    using i by (intro upt_conv_Cons) simp
  have u: "[0..<Suc (length s)] = [0..<i] @ i # [Suc i..<Suc (length s)]"
    by (simp only: a b)
  have "filter (\<lambda>j. ends ic s r j \<noteq> []) [0..<i] = []" using f by (simp add: filter_empty_conv)
  then show ?thesis unfolding rx_exec_def u using m by (simp del: upt_Suc)
qed

subsection \<open>Lemmas on the static facts\<close>

lemma ends_shift:
  "anchor_free r \<Longrightarrow> j \<in> set (ends ic s r i) \<Longrightarrow>
   length x + j \<in> set (ends ic (x @ s @ y) r (length x + i))"
proof (induction ic s r i arbitrary: j rule: ends.induct)
  case (2 ic s neg rs i)
  then show ?case by (auto simp: nth_append split: if_splits)
next
  case (3 ic s a b i)
  then obtain p where p: "p \<in> set (ends ic s a i)" and j: "j \<in> set (ends ic s b p)" by auto
  have "length x + p \<in> set (ends ic (x @ s @ y) a (length x + i))" using 3 p by simp
  moreover have "length x + j \<in> set (ends ic (x @ s @ y) b (length x + p))" using 3 p j by simp
  ultimately show ?case by auto
next
  case (5 ic s g r n k i)
  then obtain p where p: "p \<in> set (ends ic s r i)" and j: "j \<in> set (ends ic s (RRep g r n k) p)" by auto
  have "length x + p \<in> set (ends ic (x @ s @ y) r (length x + i))" using 5 p by simp
  moreover have "length x + j \<in> set (ends ic (x @ s @ y) (RRep g r n k) (length x + p))" using 5 p j by simp
  ultimately show ?case by auto
next
  case (7 ic s g r m i)
  show ?case
  proof (cases "j = i")
    case True
    then show ?thesis by (simp add: Let_def)
  next
    case False
    then obtain p where p: "p \<in> set (ends ic s r i)" "i < p" and j: "j \<in> set (ends ic s (RRep g r 0 (Some m)) p)"
      using 7 by (auto simp: Let_def split: if_splits)
    have "length x + p \<in> set (ends ic (x @ s @ y) r (length x + i))" using 7 p by simp
    moreover have "length x + j \<in> set (ends ic (x @ s @ y) (RRep g r 0 (Some m)) (length x + p))"
      using 7 p j by simp
    ultimately show ?thesis using p(2) by (auto simp: Let_def)
  qed
next
  case (8 ic s g r i)
  show ?case
  proof (cases "j = i")
    case True
    then show ?thesis by (subst ends_star) (simp add: Let_def)
  next
    case False
    then obtain p where p: "p \<in> set (ends ic s r i)" "i < p" "p \<le> length s"
        and j: "j \<in> set (ends ic s (RRep g r 0 None) p)"
      using 8(4) by (subst (asm) ends_star) (auto simp: Let_def split: if_splits)
    have "length x + p \<in> set (ends ic (x @ s @ y) r (length x + i))" using 8 p by simp
    moreover have "length x + j \<in> set (ends ic (x @ s @ y) (RRep g r 0 None) (length x + p))"
      using 8 p j by simp
    ultimately show ?thesis using p(2,3) by (subst ends_star) (auto simp: Let_def)
  qed
qed auto

lemma in_ranges_append [simp]: "in_ranges c (a @ b) = (in_ranges c a \<or> in_ranges c b)"
  by (induction a) auto

lemma span_trans:
  assumes a: "(i :: nat) \<le> p \<and> (\<forall>k. i \<le> k \<and> k < p \<longrightarrow> P k)" and b: "p \<le> j \<and> (\<forall>k. p \<le> k \<and> k < j \<longrightarrow> P k)"
  shows "i \<le> j \<and> (\<forall>k. i \<le> k \<and> k < j \<longrightarrow> P k)"
proof (intro conjI allI impI)
  show "i \<le> j" using conjunct1 [OF a] conjunct1 [OF b] by linarith
  fix k assume k: "i \<le> k \<and> k < j"
  show "P k"
  proof (cases "k < p")
    case True
    then show ?thesis using a k by blast
  next
    case False
    then show ?thesis using b k by simp
  qed
qed

lemma ends_chars:
  "j \<in> set (ends False s r i) \<Longrightarrow> rx_chars r = Some rs \<Longrightarrow>
   i \<le> j \<and> (\<forall>k. i \<le> k \<and> k < j \<longrightarrow> in_ranges (s ! k) rs)"
proof (induction "False" s r i arbitrary: j rs rule: ends.induct)
  case (2 s neg rs' i)
  then show ?case by (clarsimp simp: class_match_def split: if_splits) (metis le_antisym less_Suc_eq_le)
next
  case (3 s a b i)
  then obtain p where p: "p \<in> set (ends False s a i)" and j: "j \<in> set (ends False s b p)" by auto
  obtain x y where xy: "rx_chars a = Some x" "rx_chars b = Some y" "rs = x @ y"
    using 3(4) by (auto split: option.splits)
  have "i \<le> p \<and> (\<forall>k. i \<le> k \<and> k < p \<longrightarrow> in_ranges (s ! k) x)" using 3(1) p xy by blast
  moreover have "p \<le> j \<and> (\<forall>k. p \<le> k \<and> k < j \<longrightarrow> in_ranges (s ! k) y)" using 3(2) p j xy by blast
  ultimately show ?case unfolding xy(3) in_ranges_append by (meson le_trans not_le)
next
  case (4 s a b i)
  then show ?case by (auto split: option.splits)
next
  case (5 s g r n k i)
  then obtain p where p: "p \<in> set (ends False s r i)" and j: "j \<in> set (ends False s (RRep g r n k) p)" by auto
  have "i \<le> p \<and> (\<forall>k. i \<le> k \<and> k < p \<longrightarrow> in_ranges (s ! k) rs)" using 5 p by simp
  moreover have "p \<le> j \<and> (\<forall>k. p \<le> k \<and> k < j \<longrightarrow> in_ranges (s ! k) rs)" using 5 p j by simp
  ultimately show ?case by (rule span_trans)
next
  case (7 s g r m i)
  show ?case
  proof (cases "j = i")
    case False
    then obtain p where p: "p \<in> set (ends False s r i)" "i < p" and j: "j \<in> set (ends False s (RRep g r 0 (Some m)) p)"
      using 7 by (auto simp: Let_def split: if_splits)
    have "i \<le> p \<and> (\<forall>k. i \<le> k \<and> k < p \<longrightarrow> in_ranges (s ! k) rs)" using 7 p by simp
    moreover have "p \<le> j \<and> (\<forall>k. p \<le> k \<and> k < j \<longrightarrow> in_ranges (s ! k) rs)" using 7 p j by (auto simp: Let_def)
    ultimately show ?thesis by (rule span_trans)
  qed auto
next
  case (8 s g r i)
  show ?case
  proof (cases "j = i")
    case False
    then obtain p where p: "p \<in> set (ends False s r i)" "i < p" "p \<le> length s"
        and j: "j \<in> set (ends False s (RRep g r 0 None) p)"
      using 8(3) by (subst (asm) ends_star) (auto simp: Let_def split: if_splits)
    have "i \<le> p \<and> (\<forall>k. i \<le> k \<and> k < p \<longrightarrow> in_ranges (s ! k) rs)" using 8(1) [OF p(1)] 8(4) by simp
    moreover have "p \<le> j \<and> (\<forall>k. p \<le> k \<and> k < j \<longrightarrow> in_ranges (s ! k) rs)"
      using 8(2) [of p j rs] p j 8(4) by simp
    ultimately show ?thesis by (rule span_trans)
  qed auto
qed (auto split: if_splits)

lemma sums_mem: "a \<in> set A \<Longrightarrow> b \<in> set B \<Longrightarrow> a + b \<in> set (sums A B)"
  by (auto simp: sums_def)

lemma ends_lens:
  "j \<in> set (ends ic s r i) \<Longrightarrow> rx_lens r = Some L \<Longrightarrow> i \<le> j \<and> j - i \<in> set L"
proof (induction ic s r i arbitrary: j L rule: ends.induct)
  case (3 ic s a b i)
  obtain p where p: "p \<in> set (ends ic s a i)" and j: "j \<in> set (ends ic s b p)" using 3(3) by auto
  obtain A B where ab: "rx_lens a = Some A" "rx_lens b = Some B" "L = sums A B"
    using 3(4) by (auto split: option.splits)
  have "i \<le> p \<and> p - i \<in> set A" using 3(1) [OF p ab(1)] .
  moreover have "p \<le> j \<and> j - p \<in> set B" using 3(2) [OF p j ab(2)] .
  ultimately show ?case using sums_mem [of "p - i" A "j - p" B] ab(3)
    by (simp add: add.commute)
next
  case (4 ic s a b i)
  then show ?case by (auto split: option.splits)
next
  case (5 ic s g r n k i)
  obtain p where p: "p \<in> set (ends ic s r i)" and j: "j \<in> set (ends ic s (RRep g r n k) p)" using 5(3) by auto
  obtain k' L0 where k: "k = Some k'" "rx_lens r = Some L0" "L = sums L0 (rep_lens L0 n k')"
    using 5(4) by (cases k) auto
  have "i \<le> p \<and> p - i \<in> set L0" using 5(1) [OF p k(2)] .
  moreover have "p \<le> j \<and> j - p \<in> set (rep_lens L0 n k')" using 5(2) [OF p j] k by simp
  ultimately show ?case using sums_mem [of "p - i" L0 "j - p" "rep_lens L0 n k'"] k(3)
    by (simp add: add.commute)
next
  case (7 ic s g r m i)
  obtain L0 where l: "rx_lens r = Some L0" "L = 0 # sums L0 (rep_lens L0 0 m)" using 7(4) by auto
  show ?case
  proof (cases "j = i")
    case False
    then obtain p where p: "p \<in> set (ends ic s r i)" "i < p" and j: "j \<in> set (ends ic s (RRep g r 0 (Some m)) p)"
      using 7(3) by (auto simp: Let_def split: if_splits)
    have "i \<le> p \<and> p - i \<in> set L0" using 7(1) [OF p(1) l(1)] .
    moreover have "p \<le> j \<and> j - p \<in> set (rep_lens L0 0 m)" using 7(2) [OF _ j] p l by simp
    ultimately show ?thesis using sums_mem [of "p - i" L0 "j - p" "rep_lens L0 0 m"] l(2)
      by (simp add: add.commute)
  qed (simp add: l)
next
  case (8 ic s g r i)
  from 8(4) show ?case by simp
qed (auto split: if_splits)

lemma ends_bol_first: "ends ic s r i \<noteq> [] \<Longrightarrow> bol_first r \<Longrightarrow> i = 0"
proof (induction r arbitrary: i)
  case (RSeq a b)
  then have "ends ic s a i \<noteq> []" by auto
  then show ?case using RSeq.IH(1) RSeq.prems(2) by simp
qed (auto split: if_splits)

lemma ends_eol_last: "j \<in> set (ends ic s r i) \<Longrightarrow> eol_last r \<Longrightarrow> j = length s"
proof (induction r arbitrary: i j)
  case (RSeq a b)
  obtain p where p: "p \<in> set (ends ic s a i)" and j: "j \<in> set (ends ic s b p)" using RSeq.prems(1) by auto
  show ?case
  proof (cases "eol_last b")
    case True
    then show ?thesis using RSeq.IH(2) [OF j] by simp
  next
    case False
    then have "b = REmpty" "eol_last a" using RSeq.prems(2) by auto
    then show ?thesis using RSeq.IH(1) [OF p] j by simp
  qed
qed (auto split: if_splits)

text \<open>A pattern without assertions that matches inside a string matches inside any
  string containing it.\<close>

lemma rx_test_shift: "anchor_free r \<Longrightarrow> rx_test ic r s \<Longrightarrow> rx_test ic r (x @ s @ y)"
proof -
  assume a: "anchor_free r" and "rx_test ic r s"
  then obtain i where i0: "i \<in> set [0..<Suc (length s)]" and n: "ends ic s r i \<noteq> []"
    unfolding rx_test_def list_ex_iff by blast
  from i0 have i: "i \<le> length s" by (simp only: set_upt atLeastLessThan_iff) linarith
  define j where "j = hd (ends ic s r i)"
  have j: "j \<in> set (ends ic s r i)" unfolding j_def using n by (rule hd_in_set)
  have "length x + j \<in> set (ends ic (x @ s @ y) r (length x + i))" by (rule ends_shift [OF a j])
  moreover have "length x + i \<in> set [0..<Suc (length (x @ s @ y))]"
    using i by (simp only: set_upt atLeastLessThan_iff length_append) linarith
  ultimately show ?thesis unfolding rx_test_def list_ex_iff by (metis empty_iff empty_set)
qed

lemma in_ranges_digits:
  "list_all (\<lambda>(a, b). 0x30 \<le> a \<and> b \<le> 0x39) rs \<Longrightarrow> in_ranges c rs \<Longrightarrow> 0x30 \<le> c \<and> c \<le> (0x39 :: cu)"
  by (induction rs) auto

text \<open>What a test of an anchored pattern with bounded lengths and positive classes says
  of the whole string.\<close>

lemma rx_test_anchored:
  assumes t: "rx_test False r s" and b: "bol_first r" and e: "eol_last r"
    and l: "rx_lens r = Some L" and c: "rx_chars r = Some rs"
  shows "length s \<in> set L \<and> (\<forall>k < length s. in_ranges (s ! k) rs)"
proof -
  obtain i where n: "ends False s r i \<noteq> []"
    using t unfolding rx_test_def list_ex_iff by auto
  define j where "j = hd (ends False s r i)"
  have j: "j \<in> set (ends False s r i)" unfolding j_def using n by (rule hd_in_set)
  have "i = 0" by (rule ends_bol_first [OF n b])
  moreover have "j = length s" by (rule ends_eol_last [OF j e])
  ultimately show ?thesis using ends_lens [OF j l] ends_chars [OF j c] by simp
qed

end
