(* ===== verification/Validators.thy ===== *)
theory Validators
  imports JS_Regex JS_Values
begin

text \<open>
  The validators of src/index.js (lines 434-466): \<open>isEmail\<close>, \<open>isIDCard\<close>,
  \<open>isPhone\<close> and \<open>isUrl\<close>. Each tests its argument, converted by \<open>ToString\<close>,
  against a regular-expression literal of the source with \<open>RegExp.prototype.test\<close>;
  \<open>isUrl\<close>'s literal has the \<open>i\<close> flag. The literals are kept as their source text
  and parsed by \<open>rx_parse\<close>; each parses (\<open>RxOk\<close>), as the lemmas
  \<open>*_src_parses\<close> check. In the HOL string literals below, a backquote stands for
  the backslash of the source, which a HOL string literal cannot contain; no literal
  of the source contains a backquote.
\<close>

definition pat :: "string \<Rightarrow> jsstr" where
  "pat s = map (\<lambda>c. if c = CHR ''`'' then 0x5C else word_of_nat (of_char c)) s"

text \<open>\<open>re.test(str)\<close> for a regular-expression literal of the source.\<close>

definition regex_test :: "jsstr \<Rightarrow> bool \<Rightarrow> jsval \<Rightarrow> bool" where
  "regex_test p ic str = (case rx_parse p of RxOk r \<Rightarrow> rx_test ic r (to_string str) | _ \<Rightarrow> False)"

definition email_src :: jsstr where
  "email_src = pat ''`w+([-+.]`w+)*@`w+([-.]`w+)*`.`w+([-.]`w+)*''"

definition isEmail :: "jsval \<Rightarrow> bool" where
  "isEmail str = regex_test email_src False str"

definition idcard_src :: jsstr where
  "idcard_src = pat ''^(^[1-9]`d{7}((0`d)|(1[0-2]))(([0|1|2]`d)|3[0-1])`d{3}$)|(^[1-9]`d{5}[1-9]`d{3}((0`d)|(1[0-2]))(([0|1|2]`d)|3[0-1])((`d{4})|`d{3}[Xx])$)$''"

definition isIDCard :: "jsval \<Rightarrow> bool" where
  "isIDCard str = regex_test idcard_src False str"

definition phone_src :: jsstr where
  "phone_src = pat ''^(0|86|17951)?(13[0-9]|15[012356789]|17[678]|18[0-9]|14[57])[0-9]{8}$''"

definition isPhone :: "jsval \<Rightarrow> bool" where
  "isPhone str = regex_test phone_src False str"

definition url_src :: jsstr where
  "url_src = pat ''[-a-zA-Z0-9@:%._`+~#=]{2,256}`.[a-z]{2,6}`b([-a-zA-Z0-9@:%_`+.~#?&//=]*)''"

definition isUrl :: "jsval \<Rightarrow> bool" where
  "isUrl str = regex_test url_src True str"

subsection \<open>The literals\<close>

lemma email_src_facts: "case rx_parse email_src of RxOk r \<Rightarrow> anchor_free r | _ \<Rightarrow> False"
  by code_simp

lemma phone_src_facts:
  "case rx_parse phone_src of
     RxOk r \<Rightarrow> bol_first r \<and> eol_last r \<and>
       (case rx_lens r of Some L \<Rightarrow> list_all (\<lambda>n. n = 11 \<or> n = 12 \<or> n = 13 \<or> n = 16) L | None \<Rightarrow> False) \<and>
       (case rx_chars r of Some rs \<Rightarrow> list_all (\<lambda>(a, b). 0x30 \<le> a \<and> b \<le> 0x39) rs | None \<Rightarrow> False)
   | _ \<Rightarrow> False"
  by code_simp

lemma email_src_parse: "\<exists>r. rx_parse email_src = RxOk r \<and> anchor_free r"
  using email_src_facts by (auto split: rx_parsed.splits)

lemma phone_src_parse:
  "\<exists>r L rs. rx_parse phone_src = RxOk r \<and> bol_first r \<and> eol_last r \<and> rx_lens r = Some L \<and>
     list_all (\<lambda>n. n = 11 \<or> n = 12 \<or> n = 13 \<or> n = 16) L \<and> rx_chars r = Some rs \<and>
     list_all (\<lambda>(a, b). 0x30 \<le> a \<and> b \<le> 0x39) rs"
  using phone_src_facts by (auto split: rx_parsed.splits option.splits)

lemma isPhone_phone1: "isPhone (JString (js ''18227766736''))"
  by code_simp

subsection \<open>Properties\<close>

text \<open>the validators give the results the repository's tests expect
  (src/test/index.js): isEmail accepts '123456789@qq.com' and rejects '12345678qq.com'
  and '12345678@qorg'; isIDCard accepts '510722199202192936' and rejects
  '510722199222192936' and '51072219920219293'; isPhone accepts '18227766736' and
  '18327788773' and rejects '17183728374'; isUrl accepts 'https://www.baidu.com/' and
  rejects '12345'.\<close>

theorem validators_test_file:
  "isEmail (JString (js ''123456789@qq.com'')) \<and> \<not> isEmail (JString (js ''12345678qq.com'')) \<and>
   \<not> isEmail (JString (js ''12345678@qorg'')) \<and>
   isIDCard (JString (js ''510722199202192936'')) \<and> \<not> isIDCard (JString (js ''510722199222192936'')) \<and>
   \<not> isIDCard (JString (js ''51072219920219293'')) \<and>
   isPhone (JString (js ''18227766736'')) \<and> isPhone (JString (js ''18327788773'')) \<and>
   \<not> isPhone (JString (js ''17183728374'')) \<and>
   isUrl (JString (js ''https://www.baidu.com/'')) \<and> \<not> isUrl (JString (js ''12345''))"
  by code_simp

text \<open>C23: isEmail is not anchored: a string that contains an address anywhere is
  accepted, whatever surrounds it.\<close>

theorem isEmail_unanchored: "isEmail (JString s) \<Longrightarrow> isEmail (JString (x @ s @ y))"
  using email_src_parse rx_test_shift by (auto simp: isEmail_def regex_test_def)

theorem isEmail_unanchored_witness:
  "isEmail (JString (js ''a@b.cn'')) \<and> isEmail (JString (js ''<< '' @ js ''a@b.cn'' @ js '' is not an address''))"
proof -
  have e: "isEmail (JString (js ''a@b.cn''))" by code_simp
  show ?thesis using e isEmail_unanchored [OF e] by simp
qed

text \<open>C24: what isPhone accepts, as a string (a number is converted by ToString), is made
  of decimal digits only and has 11, 12, 13 or 16 of them: an 11-digit number with an
  optional prefix 0, 86 or 17951.\<close>

theorem isPhone_shape:
  "isPhone str \<Longrightarrow>
   list_all (\<lambda>c. 0x30 \<le> c \<and> c \<le> 0x39) (to_string str) \<and> length (to_string str) \<in> {11, 12, 13, 16}"
proof -
  assume p: "isPhone str"
  obtain r L rs where r: "rx_parse phone_src = RxOk r" "bol_first r" "eol_last r" "rx_lens r = Some L"
    "list_all (\<lambda>n. n = 11 \<or> n = 12 \<or> n = 13 \<or> n = 16) L" "rx_chars r = Some rs"
    "list_all (\<lambda>(a, b). 0x30 \<le> a \<and> b \<le> 0x39) rs"
    using phone_src_parse by blast
  have t: "rx_test False r (to_string str)" using p r(1) by (simp add: isPhone_def regex_test_def)
  note a = rx_test_anchored [OF t r(2,3,4,6)]
  have "length (to_string str) \<in> {11, 12, 13, 16}" using a r(5) by (auto simp: list_all_iff)
  moreover have "list_all (\<lambda>c. 0x30 \<le> c \<and> c \<le> 0x39) (to_string str)"
    using a in_ranges_digits [OF r(7)] by (auto simp: list_all_length)
  ultimately show ?thesis by simp
qed

theorem isPhone_shape_witness:
  "isPhone (JString (js ''18227766736'')) \<and>
   list_all (\<lambda>c. 0x30 \<le> c \<and> c \<le> 0x39) (js ''18227766736'') \<and> length (js ''18227766736'') \<in> {11, 12, 13, 16}"
  using isPhone_phone1 isPhone_shape [OF isPhone_phone1] by simp

text \<open>isIDCard accepts strings that are not identity numbers: the class
  \<open>[0|1|2]\<close> meant as 0, 1 or 2 also contains '|', so '510722199202|12936' passes,
  and the month alternative \<open>0\d\<close> admits month 00, so '510722199200192936' passes.\<close>

theorem isIDCard_accepts_malformed:
  "isIDCard (JString (js ''510722199202|12936'')) \<and> isIDCard (JString (js ''510722199200192936''))"
  by code_simp

end
