(* ===== verification/Browser_Version.thy ===== *)
theory Browser_Version
  imports Browser_OS Validators
begin

text \<open>
  \<open>getBrowser\<close> of src/index.js (lines 119-141). It lower-cases
  \<open>navigator.userAgent\<close>, tries seven regular expressions in order with
  \<open>ua.match\<close>, and on the first that matches assigns the version it captured to a
  property of \<open>sys\<close>; when none matches it evaluates \<open>0\<close>. It then reads
  \<open>sys.ie\<close>, \<open>sys.edge\<close> and so on. The function declares \<open>system\<close>, not
  \<open>sys\<close>, so every path evaluates the identifier \<open>sys\<close>, which resolves only when
  the global scope has a binding of that name. The global scope is the parameter
  \<open>glob\<close> (the names it binds); \<open>navigator\<close> is \<open>None\<close> when the global scope
  has none, which makes reading it a \<open>ReferenceError\<close>, and a missing
  \<open>userAgent\<close> makes \<open>toLowerCase\<close> a \<open>TypeError\<close>. With a global \<open>sys\<close> the
  result depends on the captured version strings, which the regular-expression model
  does not keep: that case is \<open>None\<close>, outside the model.
\<close>

text \<open>The seven literals, in the order of the source (a backquote stands for a
  backslash).\<close>

definition browser_srcs :: "jsstr list" where
  "browser_srcs =
     [pat ''rv:([`d.]+)`) like gecko'', pat ''msie ([`d`.]+)'', pat ''edge`/([`d`.]+)'',
      pat ''firefox`/([`d`.]+)'', pat ''(?:opera|opr).([`d`.]+)'', pat ''chrome`/([`d`.]+)'',
      pat ''version`/([`d`.]+).*safari'']"

text \<open>Evaluating the identifier \<open>sys\<close>: a \<open>ReferenceError\<close> unless the global scope
  binds it.\<close>

definition sys_ref :: "(jsstr \<Rightarrow> bool) \<Rightarrow> (js_error + jsstr) option" where
  "sys_ref glob = (if glob (js ''sys'') then None else Some (Inl ReferenceError))"

definition getBrowser :: "(jsstr \<Rightarrow> bool) \<Rightarrow> navigator option \<Rightarrow> (js_error + jsstr) option" where
  "getBrowser glob w =
     (case w of
       None \<Rightarrow> Some (Inl ReferenceError)
     | Some n \<Rightarrow>
         (case userAgent n of
           None \<Rightarrow> Some (Inl TypeError)
         | Some u \<Rightarrow>
             (case find (\<lambda>p. regex_test p False (JString (to_lower u))) browser_srcs of
               Some p \<Rightarrow> sys_ref glob
             | None \<Rightarrow> sys_ref glob)))"

text \<open>\<open>isSupportWebP\<close> (lines 510-512): \<open>!![].map\<close> holds in every engine with
  \<open>Array.prototype.map\<close>, and \<open>indexOf('data:image/webp') == 0\<close> asks whether the
  data URL the canvas writes for the type \<open>image/webp\<close> starts with that prefix. The
  URL is the parameter: a browser without a WebP encoder writes a PNG URL instead.\<close>

definition isSupportWebP :: "jsstr \<Rightarrow> bool" where
  "isSupportWebP data_url = (take (length (js ''data:image/webp'')) data_url = js ''data:image/webp'')"

lemma isSupportWebP_png: "\<not> isSupportWebP (js ''data:image/png;base64,'')"
  by (simp add: isSupportWebP_def js_def)

lemma browser_srcs_parse: "list_all (\<lambda>p. case rx_parse p of RxOk r \<Rightarrow> True | _ \<Rightarrow> False) browser_srcs"
  by code_simp

text \<open>C25: getBrowser never returns a browser name: without a global binding of
  \<open>sys\<close> it throws ReferenceError on every user agent (TypeError when the navigator
  has no user agent), because the function declares \<open>system\<close> but uses \<open>sys\<close>.\<close>

theorem getBrowser_throws:
  "\<not> glob (js ''sys'') \<Longrightarrow>
   getBrowser glob (Some n) = Some (Inl (if userAgent n = None then TypeError else ReferenceError)) \<and>
   getBrowser glob None = Some (Inl ReferenceError)"
  by (simp add: getBrowser_def sys_ref_def split: option.split)

theorem getBrowser_throws_witness:
  "\<not> (\<lambda>x. x = js ''window'') (js ''sys'') \<and>
   getBrowser (\<lambda>x. x = js ''window'')
     (Some \<lparr>userAgent = Some (js ''Mozilla/5.0 (X11) Chrome/120.0 Safari/537.36''), vendor = None, appVersion = None\<rparr>) =
     Some (Inl ReferenceError) \<and>
   getBrowser (\<lambda>x. x = js ''window'') None = Some (Inl ReferenceError)"
  using getBrowser_throws [of "\<lambda>x. x = js ''window''"
      "\<lparr>userAgent = Some (js ''Mozilla/5.0 (X11) Chrome/120.0 Safari/537.36''), vendor = None, appVersion = None\<rparr>"]
  by (simp add: js_def)

end
