(* ===== verification/JS_Time.thy ===== *)
theory JS_Time
  imports JS_Values Complex_Main
begin

text \<open>
  The relative-time formatters of src/index.js: \<open>formatRemainTime\<close> (lines 617-631)
  and \<open>formatPassTime\<close> (lines 590-610). The clock is the parameter \<open>now\<close>, the
  current time in milliseconds. A time argument is a number (a string or a \<open>Date\<close>
  argument, which goes through date parsing, is not modelled); \<open>new Date(x)\<close> of a
  number applies TimeClip, which makes a time beyond 8.64e15 ms invalid (\<open>NaN\<close>).
  Arithmetic on numbers is exact rational arithmetic: the quotients the formatters take
  are rationals, \<open>Math.floor\<close> is \<open>floor\<close>, \<open>%\<close> truncates its quotient toward
  zero, and \<open>parseInt\<close> of a number reads the decimal digits \<open>ToString\<close> writes for it
  (fixed notation between 1e-6 and 1e21, exponent notation, whose integer prefix is the
  leading digit, outside). IEEE-754 rounding of the quotients is not modelled.
  \<open>Date.parse(new Date())\<close> goes through the string form of the date, which has whole
  seconds, so the current time it gives is truncated to the second.
\<close>

subsection \<open>Numbers\<close>

definition time_clip :: "jsnum \<Rightarrow> jsnum" where
  "time_clip t = (case t of NaN \<Rightarrow> NaN | Num x \<Rightarrow> if 8640000000000000 < \<bar>x\<bar> then NaN else Num x)"

text \<open>\<open>n % d\<close> for finite operands: the remainder of the quotient truncated toward zero.\<close>

definition js_mod :: "rat \<Rightarrow> rat \<Rightarrow> rat" where
  "js_mod n d = n - d * of_int (if 0 \<le> n / d then floor (n / d) else - floor (- (n / d)))"

text \<open>The leading decimal digit of a positive integer.\<close>

fun lead_int :: "int \<Rightarrow> int" where
  "lead_int n = (if n < 10 then n else lead_int (n div 10))"

text \<open>The number of decimal digits of a positive integer.\<close>

fun dec_len :: "int \<Rightarrow> nat" where
  "dec_len n = (if n < 10 then 1 else Suc (dec_len (n div 10)))"

declare lead_int.simps [simp del] dec_len.simps [simp del]

text \<open>The leading significant digit of a positive rational: scaled up by ten to the
  number of digits of its denominator it is at least one, and the integer part of a
  number at least one has the number's leading digit.\<close>

definition lead_digit :: "rat \<Rightarrow> int" where
  "lead_digit q = lead_int (floor (q * 10 ^ dec_len (snd (quotient_of q))))"

text \<open>\<open>parseInt(x)\<close> for a finite number \<open>x\<close>: \<open>ToString(x)\<close> is the plain decimal
  form when \<open>1e-6 \<le> |x| < 1e21\<close>, whose integer prefix is \<open>x\<close> truncated, and the
  exponent form otherwise, whose integer prefix is the sign and the leading digit.\<close>

definition parse_int_num :: "rat \<Rightarrow> int" where
  "parse_int_num x =
     (if x = 0 then 0
      else if 1 / 1000000 \<le> \<bar>x\<bar> \<and> \<bar>x\<bar> < 10 ^ 21 then (if 0 \<le> x then floor x else - floor (- x))
      else if 0 < x then lead_digit x else - lead_digit (- x))"

text \<open>A number result of \<open>parseInt\<close> is truthy when it is neither \<open>0\<close> nor \<open>NaN\<close>.\<close>

definition nz :: "int option \<Rightarrow> bool" where
  "nz x = (case x of Some i \<Rightarrow> i \<noteq> 0 | None \<Rightarrow> False)"

subsection \<open>formatRemainTime\<close>

text \<open>The \<open>if (t >= 0)\<close> block: days, and hours, minutes and seconds within the day.\<close>

definition remain_fields :: "jsnum \<Rightarrow> int \<times> int \<times> int \<times> int" where
  "remain_fields t =
     (case t of
       Num t \<Rightarrow>
         if 0 \<le> t then
           (floor (of_int t / 1000 / 3600 / 24 :: rat),
            floor (js_mod (of_int t / 1000 / 60 / 60) 24),
            floor (js_mod (of_int t / 1000 / 60) 60),
            floor (js_mod (of_int t / 1000) 60))
         else (0, 0, 0, 0)
     | NaN \<Rightarrow> (0, 0, 0, 0))"

definition formatRemainTime :: "int \<Rightarrow> jsnum \<Rightarrow> jsstr" where
  "formatRemainTime now endTime =
     (let t = (case time_clip endTime of NaN \<Rightarrow> NaN | Num e \<Rightarrow> Num (e - now));
          (d, h, m, s) = remain_fields t
      in show_int d @ [0x5929] @ show_int h @ [0x5C0F, 0x65F6] @ show_int m @ [0x5206, 0x949F] @
         show_int s @ [0x79D2])"

subsection \<open>formatPassTime\<close>

definition formatPassTime :: "int \<Rightarrow> jsnum \<Rightarrow> jsstr" where
  "formatPassTime now startTime =
     (let start = (case startTime of NaN \<Rightarrow> None | Num s \<Rightarrow> Some (of_int s :: rat));
          currentTime = of_int (now div 1000 * 1000) :: rat;
          time = map_option (\<lambda>s. currentTime - s) start;
          day = map_option (\<lambda>t. parse_int_num (t / (1000 * 60 * 60 * 24))) time;
          hour = map_option (\<lambda>t. parse_int_num (t / (1000 * 60 * 60))) time;
          min = map_option (\<lambda>t. parse_int_num (t / (1000 * 60))) time;
          month = map_option (\<lambda>d. parse_int_num (of_int d / 30)) day;
          year = map_option (\<lambda>m. parse_int_num (of_int m / 12)) month
      in if nz year then show_int (the year) @ [0x5E74, 0x524D]
         else if nz month then show_int (the month) @ [0x4E2A, 0x6708, 0x524D]
         else if nz day then show_int (the day) @ [0x5929, 0x524D]
         else if nz hour then show_int (the hour) @ [0x5C0F, 0x65F6, 0x524D]
         else if nz min then show_int (the min) @ [0x5206, 0x949F, 0x524D]
         else [0x521A, 0x521A])"

subsection \<open>Lemmas\<close>

lemma lead_int_range: "1 \<le> n \<Longrightarrow> 1 \<le> lead_int n \<and> lead_int n \<le> 9"
proof (induction n rule: lead_int.induct)
  case (1 n)
  then show ?case by (cases "n < 10") (simp_all add: lead_int.simps [of n])
qed

lemma dec_len_gt: "0 \<le> n \<Longrightarrow> n < 10 ^ dec_len n"
proof (induction n rule: dec_len.induct)
  case (1 n)
  show ?case
  proof (cases "n < 10")
    case True
    then show ?thesis by (subst dec_len.simps) simp
  next
    case False
    with 1 have "n div 10 < 10 ^ dec_len (n div 10)" by simp
    then have "n < 10 * 10 ^ dec_len (n div 10)" by linarith
    with False show ?thesis by (subst dec_len.simps) simp
  qed
qed

lemma lead_digit_range:
  assumes "0 < q"
  shows "1 \<le> lead_digit q \<and> lead_digit q \<le> 9"
proof -
  obtain a b where qa: "quotient_of q = (a, b)" by (cases "quotient_of q")
  have b: "0 < b" using quotient_of_denom_pos [OF qa] .
  have q: "q = of_int a / of_int b" using quotient_of_div [OF qa] .
  with assms b have a: "1 \<le> a" by (simp add: zero_less_divide_iff)
  have "b < 10 ^ dec_len b" using b by (intro dec_len_gt) simp
  then have "(of_int b :: rat) < of_int (10 ^ dec_len b)" by (simp only: of_int_less_iff)
  then have lt: "(of_int b :: rat) < 10 ^ dec_len b" by simp
  have "(10 :: rat) ^ dec_len b \<le> of_int a * 10 ^ dec_len b"
    using mult_right_mono [of 1 "of_int a" "(10 :: rat) ^ dec_len b"] a by simp
  with lt have "(of_int b :: rat) \<le> of_int a * 10 ^ dec_len b" by linarith
  then have "1 \<le> q * 10 ^ dec_len b" using b by (simp add: q field_simps)
  then have "1 \<le> floor (q * 10 ^ dec_len b)" by (simp add: le_floor_iff)
  then show ?thesis using lead_int_range by (simp add: lead_digit_def qa)
qed

lemma parse_int_num_fixed:
  "0 \<le> x \<Longrightarrow> 1 / 1000000 \<le> x \<Longrightarrow> x < 10 ^ 21 \<Longrightarrow> parse_int_num x = floor x"
  by (simp add: parse_int_num_def)

lemma parse_int_num_div:
  assumes "0 \<le> a" "0 < b" "a = 0 \<or> b \<le> 1000000 * a" "a < 10 ^ 21 * b"
  shows "parse_int_num (of_int a / of_int b) = a div b"
proof (cases "a = 0")
  case False
  with assms have a: "0 < a" "b \<le> 1000000 * a" by auto
  have "(of_int b :: rat) \<le> of_int (1000000 * a)"
    using a(2) by (simp only: of_int_le_iff)
  then have "(of_int b :: rat) \<le> 1000000 * of_int a" by simp
  then have lo: "1 / 1000000 \<le> (of_int a / of_int b :: rat)"
    using assms(2) by (simp add: field_simps)
  have "(of_int a :: rat) < of_int (10 ^ 21 * b)"
    using assms(4) by (simp only: of_int_less_iff)
  then have "(of_int a :: rat) < 10 ^ 21 * of_int b" by simp
  then have hi: "(of_int a / of_int b :: rat) < 10 ^ 21"
    using assms(2) by (simp add: divide_less_eq)
  have nn: "0 \<le> (of_int a / of_int b :: rat)" using assms(1,2) by simp
  show ?thesis using parse_int_num_fixed [OF nn lo hi] by (simp add: floor_divide_of_int_eq)
qed (simp add: parse_int_num_def)

lemma floor_js_mod:
  assumes "0 \<le> k" "0 < m" "0 < d"
  shows "floor (js_mod (of_int k / of_int m :: rat) (of_int d)) = k div m mod d"
proof -
  let ?x = "of_int k / of_int m :: rat"
  have nn: "0 \<le> ?x / of_int d" using assms by simp
  have q: "?x / of_int d = of_int k / of_int (m * d)" by simp
  have fq: "floor (?x / of_int d) = k div m div d"
    unfolding q floor_divide_of_int_eq using assms by (simp add: zdiv_zmult2_eq)
  have "js_mod ?x (of_int d) = ?x - of_int (d * (k div m div d))"
    using nn fq by (simp add: js_mod_def)
  then have "floor (js_mod ?x (of_int d)) = floor ?x - d * (k div m div d)"
    by (simp only: floor_diff_of_int)
  then have "floor (js_mod ?x (of_int d)) = k div m - d * (k div m div d)"
    by (simp only: floor_divide_of_int_eq)
  then show ?thesis by (simp add: minus_div_mult_eq_mod [symmetric] mult.commute)
qed

lemma remain_fields_div:
  "0 \<le> t \<Longrightarrow> remain_fields (Num t) = (t div 86400000, t div 3600000 mod 24, t div 60000 mod 60, t div 1000 mod 60)"
proof -
  assume t: "0 \<le> t"
  have f0: "floor (of_int t / 1000 / 3600 / 24 :: rat) = t div 86400000"
    using floor_divide_of_int_eq [of t 86400000, where 'a = rat] by simp
  have f1: "floor (js_mod (of_int t / 1000 / 60 / 60 :: rat) 24) = t div 3600000 mod 24"
    using floor_js_mod [of t 3600000 24] t by simp
  have f2: "floor (js_mod (of_int t / 1000 / 60 :: rat) 60) = t div 60000 mod 60"
    using floor_js_mod [of t 60000 60] t by simp
  have f3: "floor (js_mod (of_int t / 1000 :: rat) 60) = t div 1000 mod 60"
    using floor_js_mod [of t 1000 60] t by simp
  show ?thesis by (simp only: remain_fields_def jsnum.case if_P [OF t] f0 f1 f2 f3)
qed

lemma formatPassTime_Num:
  "formatPassTime now (Num s) =
     (let t = of_int (now div 1000 * 1000 - s) :: rat;
          day = parse_int_num (t / of_int 86400000);
          hour = parse_int_num (t / of_int 3600000);
          min = parse_int_num (t / of_int 60000);
          month = parse_int_num (of_int day / of_int 30);
          year = parse_int_num (of_int month / of_int 12)
      in if year \<noteq> 0 then show_int year @ [0x5E74, 0x524D]
         else if month \<noteq> 0 then show_int month @ [0x4E2A, 0x6708, 0x524D]
         else if day \<noteq> 0 then show_int day @ [0x5929, 0x524D]
         else if hour \<noteq> 0 then show_int hour @ [0x5C0F, 0x65F6, 0x524D]
         else if min \<noteq> 0 then show_int min @ [0x5206, 0x949F, 0x524D]
         else [0x521A, 0x521A])"
  by (simp add: formatPassTime_def Let_def nz_def)

lemma parse_int_num_lead: "0 < x \<Longrightarrow> x < 1 / 1000000 \<Longrightarrow> parse_int_num x = lead_digit x"
  by (simp add: parse_int_num_def)

lemma parse_int_num_small:
  assumes "0 < a" "1000000 * a < b"
  shows "1 \<le> parse_int_num (of_int a / of_int b) \<and> parse_int_num (of_int a / of_int b) \<le> 9"
proof -
  have pos: "0 < (of_int a / of_int b :: rat)" using assms by simp
  have "(of_int (1000000 * a) :: rat) < of_int b" using assms(2) by (simp only: of_int_less_iff)
  then have "(of_int a / of_int b :: rat) < 1 / 1000000" using assms by (simp add: field_simps)
  then have "parse_int_num (of_int a / of_int b) = lead_digit (of_int a / of_int b)"
    using pos by (rule parse_int_num_lead [rotated])
  with lead_digit_range [OF pos] show ?thesis by simp
qed

text \<open>C15: \<open>formatPassTime\<close> of a start time 1 to 86 ms before the current second
  reports between one and nine days ago: \<open>parseInt\<close> of the tiny day count reads the
  leading digit of its exponent notation (\<open>1.1574074074074074e-8\<close> gives 1).\<close>

theorem formatPassTime_ms:
  assumes "0 < k" "k \<le> 86"
  shows "\<exists>d. 1 \<le> d \<and> d \<le> 9 \<and>
           formatPassTime now (Num (now div 1000 * 1000 - k)) = show_int d @ [0x5929, 0x524D]"
proof -
  let ?d = "parse_int_num (of_int k / of_int 86400000)"
  have d: "1 \<le> ?d \<and> ?d \<le> 9" using assms by (intro parse_int_num_small) simp_all
  then have "0 \<le> ?d" "?d = 0 \<or> 30 \<le> 1000000 * ?d" "?d < 10 ^ 21 * 30" by simp_all
  then have mo: "parse_int_num (of_int ?d / of_int 30) = 0"
    using parse_int_num_div [of ?d 30] d by simp
  have y: "parse_int_num (of_int 0 / of_int 12) = 0" by (simp add: parse_int_num_def)
  show ?thesis using d mo y by (auto simp: formatPassTime_Num Let_def)
qed

lemma parse_int_num_div_ge:
  "0 \<le> a \<Longrightarrow> 0 < b \<Longrightarrow> b \<le> 1000000 * a \<Longrightarrow> a \<le> 10 ^ 20 \<Longrightarrow>
   parse_int_num (of_int a / of_int b) = a div b"
  by (rule parse_int_num_div) auto

lemma parse_int_num_nat_div:
  "0 \<le> a \<Longrightarrow> a \<le> 10 ^ 20 \<Longrightarrow> 0 < b \<Longrightarrow> b \<le> 1000000 \<Longrightarrow>
   parse_int_num (of_int a / of_int b) = a div b"
  by (rule parse_int_num_div) auto

text \<open>C16: for a clock within the time range, a start time that is a safe integer
  (at most 2^53 in magnitude) and at least a minute but at most 2^53 ms
  before the current second, \<open>formatPassTime\<close> reports the largest nonzero unit of
  years (12 months of 30 days), months, days, hours and minutes, each the integer
  quotient of the difference: the \<open>parseInt\<close> of the quotients is integer division.
  In this range the subtraction is exact in binary64 and half an ulp of each quotient
  is below the distance \<open>1/60000\<close> to the next integer, so the rational model is
  the double computation.\<close>

theorem formatPassTime_units:
  assumes "60000 \<le> k" "k \<le> 2 ^ 53" "\<bar>now\<bar> \<le> 8640000000000000"
    "\<bar>now div 1000 * 1000 - k\<bar> \<le> 2 ^ 53"
  shows "formatPassTime now (Num (now div 1000 * 1000 - k)) =
     (let day = k div 86400000; month = day div 30; year = month div 12
      in if year \<noteq> 0 then show_int year @ [0x5E74, 0x524D]
         else if month \<noteq> 0 then show_int month @ [0x4E2A, 0x6708, 0x524D]
         else if day \<noteq> 0 then show_int day @ [0x5929, 0x524D]
         else if k div 3600000 \<noteq> 0 then show_int (k div 3600000) @ [0x5C0F, 0x65F6, 0x524D]
         else show_int (k div 60000) @ [0x5206, 0x949F, 0x524D])"
proof -
  have "k \<le> 10 ^ 20" using assms(2) by simp
  note assms = assms(1) this
  have d: "parse_int_num (of_int k / of_int 86400000) = k div 86400000"
    using assms by (intro parse_int_num_div_ge) simp_all
  have h: "parse_int_num (of_int k / of_int 3600000) = k div 3600000"
    using assms by (intro parse_int_num_div_ge) simp_all
  have m: "parse_int_num (of_int k / of_int 60000) = k div 60000"
    using assms by (intro parse_int_num_div_ge) simp_all
  have "k div 86400000 \<le> k" using assms by simp
  then have mo: "parse_int_num (of_int (k div 86400000) / of_int 30) = k div 86400000 div 30"
    using assms by (intro parse_int_num_nat_div) simp_all
  have "k div 86400000 div 30 \<le> k div 86400000"
    using assms by (cases "k div 86400000 = 0") (simp_all add: int_div_le_self)
  with \<open>k div 86400000 \<le> k\<close> have "k div 86400000 div 30 \<le> k" by linarith
  then have y: "parse_int_num (of_int (k div 86400000 div 30) / of_int 12) = k div 86400000 div 30 div 12"
    using assms by (intro parse_int_num_nat_div) simp_all
  have mn: "k div 60000 \<noteq> 0" using assms by simp
  show ?thesis using mn
    by (simp add: formatPassTime_Num Let_def d [simplified] h [simplified] m [simplified] mo [simplified] y [simplified])
qed

text \<open>C39: For a clock within the time range, a start time between 87 ms and one
  minute before the current second is reported as just now (every quotient is below
  one and at least 1e-6, so \<open>parseInt\<close> reads 0 from its decimal form).\<close>

theorem formatPassTime_just_now:
  assumes "87 \<le> k" "k < 60000" "\<bar>now\<bar> \<le> 8640000000000000"
  shows "formatPassTime now (Num (now div 1000 * 1000 - k)) = [0x521A, 0x521A]"
proof -
  have d: "parse_int_num (of_int k / of_int 86400000) = 0"
    using parse_int_num_div_ge [of k 86400000] assms by simp
  have h: "parse_int_num (of_int k / of_int 3600000) = 0"
    using parse_int_num_div_ge [of k 3600000] assms by simp
  have m: "parse_int_num (of_int k / of_int 60000) = 0"
    using parse_int_num_div_ge [of k 60000] assms by simp
  have z: "parse_int_num (of_int 0 / of_int n) = 0" for n by (simp add: parse_int_num_def)
  show ?thesis
    by (simp add: formatPassTime_Num Let_def d [simplified] h [simplified] m [simplified] z [of 30, simplified] z [of 12, simplified])
qed

lemma time_clip_Num: "\<bar>e\<bar> \<le> 8640000000000000 \<Longrightarrow> time_clip (Num e) = Num e"
  by (simp add: time_clip_def)

text \<open>C12: \<open>formatRemainTime\<close> of a valid end time not before now writes the days
  and the hours, minutes and seconds within the day of the remaining time: the
  \<open>Math.floor\<close> and \<open>%\<close> chain on quotients equals integer division and remainder.\<close>

theorem formatRemainTime_future:
  assumes "\<bar>e\<bar> \<le> 8640000000000000" "now \<le> e"
  shows "formatRemainTime now (Num e) =
    show_int ((e - now) div 86400000) @ [0x5929] @ show_int ((e - now) div 3600000 mod 24) @ [0x5C0F, 0x65F6] @
    show_int ((e - now) div 60000 mod 60) @ [0x5206, 0x949F] @ show_int ((e - now) div 1000 mod 60) @ [0x79D2]"
  using assms by (simp add: formatRemainTime_def time_clip_Num remain_fields_div)

text \<open>C13: the fields \<open>formatRemainTime\<close> computes for a non-negative time are
  within their ranges (hours below 24, minutes and seconds below 60) and together give
  back the whole seconds of the time.\<close>

theorem remain_fields_bounds:
  assumes "0 \<le> t" "remain_fields (Num t) = (d, h, m, s)"
  shows "0 \<le> d \<and> 0 \<le> h \<and> h < 24 \<and> 0 \<le> m \<and> m < 60 \<and> 0 \<le> s \<and> s < 60 \<and>
         ((d * 24 + h) * 60 + m) * 60 + s = t div 1000"
proof -
  let ?u = "t div 1000"
  have e: "t div 86400000 = ?u div 60 div 60 div 24" "t div 3600000 = ?u div 60 div 60"
    "t div 60000 = ?u div 60" by (simp_all add: zdiv_zmult2_eq [symmetric])
  have f: "d = ?u div 60 div 60 div 24" "h = ?u div 60 div 60 mod 24" "m = ?u div 60 mod 60" "s = ?u mod 60"
    using assms(2) unfolding remain_fields_div [OF assms(1)] e by simp_all
  have "?u div 60 div 60 div 24 * 24 + ?u div 60 div 60 mod 24 = ?u div 60 div 60" by simp
  moreover have "?u div 60 div 60 * 60 + ?u div 60 mod 60 = ?u div 60" by simp
  moreover have "?u div 60 * 60 + ?u mod 60 = ?u" by simp
  ultimately have "((d * 24 + h) * 60 + m) * 60 + s = ?u" unfolding f by presburger
  moreover have "0 \<le> d \<and> 0 \<le> h \<and> h < 24 \<and> 0 \<le> m \<and> m < 60 \<and> 0 \<le> s \<and> s < 60"
    using assms(1) unfolding f by simp
  ultimately show ?thesis by simp
qed

text \<open>C14: an end time in the past, an invalid end time (\<open>NaN\<close>) and one beyond the
  time range all give zero days, hours, minutes and seconds.\<close>

theorem formatRemainTime_expired:
  "(case time_clip endTime of NaN \<Rightarrow> True | Num e \<Rightarrow> e < now) \<Longrightarrow>
   formatRemainTime now endTime = [0x30, 0x5929, 0x30, 0x5C0F, 0x65F6, 0x30, 0x5206, 0x949F, 0x30, 0x79D2]"
  by (cases "time_clip endTime")
     (simp_all add: formatRemainTime_def remain_fields_def show_int_def show_nat.simps)

theorem formatPassTime_ms_witness:
  "\<exists>d. 1 \<le> d \<and> d \<le> 9 \<and>
     formatPassTime 1700000000123 (Num 1699999999999) = show_int d @ [0x5929, 0x524D]"
  using formatPassTime_ms [of 1 1700000000123] by simp

theorem formatPassTime_units_witness:
  "formatPassTime 1700000000123 (Num (1700000000000 - 3 * 86400000)) = [0x33, 0x5929, 0x524D]"
proof -
  have "formatPassTime 1700000000123 (Num (1700000000123 div 1000 * 1000 - 259200000)) =
        show_int 3 @ [0x5929, 0x524D]"
    using formatPassTime_units [of 259200000 1700000000123] by (simp add: Let_def)
  then show ?thesis by (simp add: show_int_def show_nat.simps)
qed

theorem formatPassTime_just_now_witness:
  "formatPassTime 1700000000123 (Num 1699999999000) = [0x521A, 0x521A]"
  using formatPassTime_just_now [of 1000 1700000000123] by simp

theorem formatRemainTime_future_witness:
  "formatRemainTime 0 (Num 90061000) =
     [0x31, 0x5929, 0x31, 0x5C0F, 0x65F6, 0x31, 0x5206, 0x949F, 0x31, 0x79D2]"
  using formatRemainTime_future [of 90061000 0] by (simp add: show_int_def show_nat.simps)

theorem remain_fields_bounds_witness:
  "remain_fields (Num 90061000) = (1, 1, 1, 1) \<and> ((1 * 24 + 1) * 60 + 1) * 60 + 1 = (90061000 :: int) div 1000"
proof -
  have r: "remain_fields (Num 90061000) = (1, 1, 1, 1)" by code_simp
  from remain_fields_bounds [OF _ r] r show ?thesis by simp
qed

theorem formatRemainTime_expired_witness:
  "formatRemainTime 1700000000000 NaN = [0x30, 0x5929, 0x30, 0x5C0F, 0x65F6, 0x30, 0x5206, 0x949F, 0x30, 0x79D2] \<and>
   formatRemainTime 1700000000000 (Num 1600000000000) = [0x30, 0x5929, 0x30, 0x5C0F, 0x65F6, 0x30, 0x5206, 0x949F, 0x30, 0x79D2]"
  using formatRemainTime_expired [where endTime = NaN and now = 1700000000000]
    formatRemainTime_expired [where endTime = "Num 1600000000000" and now = 1700000000000]
  by (simp_all add: time_clip_def)

end
