(* ===== verification/Cookie.thy ===== *)
theory Cookie
  imports URI_Codec JS_Values
begin

text \<open>
  \<open>getCookie\<close> of src/index.js (lines 102-116). It reads \<open>document.cookie\<close>, here
  the parameter \<open>cookie\<close>, deletes every white-space code unit (\<open>/\s/g\<close>), splits
  the rest on \<open>;\<close>, splits each item on \<open>=\<close>, and returns the
  \<open>decodeURIComponent\<close> of the second piece of the first item whose first piece
  equals the name, or the empty string when none does. A missing second piece is
  \<open>undefined\<close>, which \<open>decodeURIComponent\<close> reads as the string
  \<open>"undefined"\<close>. \<open>setCookie\<close> and \<open>removeCookie\<close> write \<open>document.cookie\<close>,
  whose effect is the browser's cookie store; they are not modelled. The cookie store
  as \<open>document.cookie\<close> shows it is modelled by \<open>cookie_jar_text\<close>: the name/value
  pairs joined by \<open>"; "\<close>.
\<close>

definition remove_ws :: "jsstr \<Rightarrow> jsstr" where
  "remove_ws s = filter (\<lambda>c. \<not> is_js_space c) s"

text \<open>The \<open>for\<close> loop over the items.\<close>

fun cookie_scan :: "jsstr \<Rightarrow> jsstr list \<Rightarrow> js_error + jsstr" where
  "cookie_scan name [] = Inr []"
| "cookie_scan name (item # items) =
     (let tempArr = split_on 0x3D item
      in if hd tempArr = name
         then decodeURIComponent (if 2 \<le> length tempArr then tempArr ! 1 else to_string JUndefined)
         else cookie_scan name items)"

definition getCookie :: "jsstr \<Rightarrow> jsstr \<Rightarrow> js_error + jsstr" where
  "getCookie cookie name = cookie_scan name (split_on 0x3B (remove_ws cookie))"

definition cookie_jar_text :: "(jsstr \<times> jsstr) list \<Rightarrow> jsstr" where
  "cookie_jar_text jar = join_with [0x3B, 0x20] (map (\<lambda>(n, v). n @ 0x3D # v) jar)"

subsection \<open>Lemmas\<close>

lemma hd_split_on: "hd (split_on c s) = takeWhile (\<lambda>x. x \<noteq> c) s"
  by (induction s) (simp_all add: Let_def)

lemma split_on_pair:
  "c \<notin> set n \<Longrightarrow> split_on c (n @ c # v) = n # split_on c v"
  using split_on_append_sep [of c n v] by (simp add: split_on_no_sep)

lemma remove_ws_join:
  "remove_ws (join_with sep ps) = join_with (remove_ws sep) (map remove_ws ps)"
  by (induction sep ps rule: join_with.induct) (simp_all add: remove_ws_def)

lemma remove_ws_id: "\<forall>c\<in>set s. \<not> is_js_space c \<Longrightarrow> remove_ws s = s"
  by (simp add: remove_ws_def)

lemma cookie_scan_jar:
  "\<forall>nv\<in>set jar. 0x3D \<notin> set (fst nv) \<Longrightarrow>
   cookie_scan name (map (\<lambda>(n, v). n @ 0x3D # v) jar) =
     (case map_of jar name of None \<Rightarrow> Inr [] | Some v \<Rightarrow> decodeURIComponent (takeWhile (\<lambda>c. c \<noteq> 0x3D) v))"
proof (induction jar)
  case (Cons nv jar)
  obtain n v where nv: "nv = (n, v)" by (cases nv)
  with Cons.prems have "0x3D \<notin> set n" by simp
  then have sp: "split_on 0x3D (n @ 0x3D # v) = n # split_on 0x3D v" by (rule split_on_pair)
  obtain p ps where pps: "split_on 0x3D v = p # ps" by (cases "split_on 0x3D v") auto
  then have "p = takeWhile (\<lambda>c. c \<noteq> 0x3D) v" using hd_split_on [of "0x3D" v] by simp
  with Cons nv sp pps show ?case by (auto simp: Let_def)
qed simp

lemma jar_items_no_ws:
  assumes "\<forall>nv\<in>set jar. \<forall>c\<in>set (fst nv @ snd nv). \<not> is_js_space c"
  shows "map remove_ws (map (\<lambda>(n, v). n @ 0x3D # v) jar) = map (\<lambda>(n, v). n @ 0x3D # v) jar"
proof -
  have eq: "\<not> is_js_space 0x3D" by (simp add: is_js_space_def)
  have "remove_ws (n @ 0x3D # v) = n @ 0x3D # v" if "(n, v) \<in> set jar" for n v
  proof (rule remove_ws_id)
    from assms that have "\<forall>c\<in>set (n @ v). \<not> is_js_space c" by fastforce
    with eq show "\<forall>c\<in>set (n @ 0x3D # v). \<not> is_js_space c" by auto
  qed
  then show ?thesis by (auto intro: map_idI)
qed

lemma getCookie_text:
  assumes "jar \<noteq> [] \<or> name \<noteq> []"
    "\<forall>nv\<in>set jar. 0x3B \<notin> set (fst nv) \<and> 0x3D \<notin> set (fst nv) \<and> 0x3B \<notin> set (snd nv) \<and>
                  (\<forall>c\<in>set (fst nv @ snd nv). \<not> is_js_space c)"
  shows "getCookie (cookie_jar_text jar) name =
     (case map_of jar name of None \<Rightarrow> Inr [] | Some v \<Rightarrow> decodeURIComponent (takeWhile (\<lambda>c. c \<noteq> 0x3D) v))"
proof (cases "jar = []")
  case True
  with assms(1) show ?thesis
    by (simp add: getCookie_def cookie_jar_text_def remove_ws_def Let_def)
next
  case False
  let ?items = "map (\<lambda>(n, v). n @ 0x3D # v) jar"
  have sp: "remove_ws [0x3B, 0x20] = [0x3B]" by (simp add: remove_ws_def is_js_space_def)
  have ws: "map remove_ws ?items = ?items"
    using assms(2) by (intro jar_items_no_ws) blast
  have r: "remove_ws (cookie_jar_text jar) = join_with [0x3B] ?items"
    unfolding cookie_jar_text_def remove_ws_join sp ws ..
  have s: "split_on 0x3B (join_with [0x3B] ?items) = ?items"
    using False assms(2) by (intro split_on_join) (auto simp: neq_Nil_conv)
  have k: "\<forall>nv\<in>set jar. 0x3D \<notin> set (fst nv)" using assms(2) by blast
  show ?thesis unfolding getCookie_def r s by (rule cookie_scan_jar [OF k])
qed

text \<open>C17: \<open>getCookie\<close> refines lookup in the cookie store: on the text of a
  store whose names and values hold no \<open>;\<close> and no white space and whose names hold no
  \<open>=\<close>, it returns the decoded value of the first cookie with the name, or the empty
  string when there is none. A value is cut at its first \<open>=\<close>, since only the
  second piece of the split is read.\<close>

theorem getCookie_jar:
  assumes "jar \<noteq> [] \<or> name \<noteq> []"
    "\<forall>nv\<in>set jar. 0x3B \<notin> set (fst nv) \<and> 0x3D \<notin> set (fst nv) \<and> 0x3B \<notin> set (snd nv) \<and>
                  (\<forall>c\<in>set (fst nv @ snd nv). \<not> is_js_space c)"
  shows "getCookie (cookie_jar_text jar) name =
     (case map_of jar name of None \<Rightarrow> Inr [] | Some v \<Rightarrow> decodeURIComponent (takeWhile (\<lambda>c. c \<noteq> 0x3D) v))"
  using assms by (rule getCookie_text)

lemma cookie_scan_space:
  "\<forall>it\<in>set items. \<forall>c\<in>set it. \<not> is_js_space c \<Longrightarrow> c \<in> set name \<Longrightarrow> is_js_space c \<Longrightarrow>
   cookie_scan name items = Inr []"
proof (induction items)
  case (Cons it items)
  have "set (hd (split_on 0x3D it)) \<subseteq> set it"
    unfolding hd_split_on by (auto dest: set_takeWhileD)
  have "hd (split_on 0x3D it) \<noteq> name"
  proof
    assume "hd (split_on 0x3D it) = name"
    with \<open>set (hd (split_on 0x3D it)) \<subseteq> set it\<close> Cons.prems(2) have "c \<in> set it" by auto
    with Cons.prems(1,3) show False by simp
  qed
  moreover have "cookie_scan name items = Inr []" using Cons.prems by (intro Cons.IH) simp_all
  ultimately show ?case by (simp add: Let_def)
qed simp

lemma split_on_subset: "p \<in> set (split_on c s) \<Longrightarrow> set p \<subseteq> set s"
proof (induction s arbitrary: p)
  case (Cons x xs)
  obtain q qs where eq: "split_on c xs = q # qs"
    by (cases "split_on c xs") auto
  show ?case
  proof (cases "x = c")
    case True
    with Cons.prems eq have "p = [] \<or> p \<in> set (split_on c xs)" by (auto simp: Let_def)
    with Cons.IH show ?thesis by auto
  next
    case False
    with Cons.prems eq have "p = x # q \<or> p \<in> set qs" by (auto simp: Let_def)
    moreover have "set q \<subseteq> set xs" using Cons.IH [of q] eq by simp
    moreover have "set p' \<subseteq> set xs" if "p' \<in> set qs" for p' using Cons.IH [of p'] eq that by simp
    ultimately show ?thesis by auto
  qed
qed simp

text \<open>C33: A name containing white space is never found: the white space is deleted
  from the cookie text before the comparison, but not from the name.\<close>

theorem getCookie_space_name:
  "c \<in> set name \<Longrightarrow> is_js_space c \<Longrightarrow> getCookie cookie name = Inr []"
proof -
  assume c: "c \<in> set name" "is_js_space c"
  have ws: "\<forall>it\<in>set (split_on 0x3B (remove_ws cookie)). \<forall>d\<in>set it. \<not> is_js_space d"
  proof (intro ballI)
    fix it d assume "it \<in> set (split_on 0x3B (remove_ws cookie))" "d \<in> set it"
    then have "d \<in> set (remove_ws cookie)" using split_on_subset by blast
    then show "\<not> is_js_space d" by (simp add: remove_ws_def)
  qed
  show ?thesis unfolding getCookie_def by (rule cookie_scan_space [OF ws c])
qed

theorem getCookie_jar_witness:
  "getCookie (cookie_jar_text [(js ''a'', js ''1''), (js ''b'', js ''x%20y=z'')]) (js ''b'') = Inr (js ''x y'')"
proof -
  let ?jar = "[(js ''a'', js ''1''), (js ''b'', js ''x%20y=z'')]"
  have h: "?jar \<noteq> [] \<or> js ''b'' \<noteq> []"
    "\<forall>nv\<in>set ?jar. 0x3B \<notin> set (fst nv) \<and> 0x3D \<notin> set (fst nv) \<and> 0x3B \<notin> set (snd nv) \<and>
                  (\<forall>c\<in>set (fst nv @ snd nv). \<not> is_js_space c)" by code_simp+
  have r: "(case map_of ?jar (js ''b'') of None \<Rightarrow> Inr []
       | Some v \<Rightarrow> decodeURIComponent (takeWhile (\<lambda>c. c \<noteq> 0x3D) v)) = Inr (js ''x y'')" by code_simp
  show ?thesis using getCookie_jar [OF h] r by simp
qed

theorem getCookie_space_name_witness: "getCookie (js ''my id=1'') (js ''my id'') = Inr []"
proof -
  have h: "0x20 \<in> set (js ''my id'')" "is_js_space 0x20" by code_simp+
  show ?thesis by (rule getCookie_space_name [OF h])
qed

end
