(* ===== verification/Cookie_Store.thy ===== *)
theory Cookie_Store
  imports Cookie
begin

text \<open>
  \<open>setCookie\<close> and \<open>removeCookie\<close> of src/index.js (lines 82-95) over a model of
  the browser's cookie store, composed with \<open>getCookie\<close> of \<open>Cookie\<close>. The store
  holds the name/value pairs of the page's cookies in creation order; the
  \<open>document.cookie\<close> getter shows it as \<open>cookie_jar_text\<close>. Assigning
  \<open>document.cookie\<close> follows the storage model of RFC 6265 (sections 5.2 and 5.3):
  the name/value pair is the text before the first \<open>;\<close>, split at its first
  \<open>=\<close> and trimmed of spaces and tabs; a string without \<open>=\<close> or with an empty
  name is ignored; a cookie whose expiry is not after the current time deletes the
  cookie of that name; otherwise the value of an existing cookie of that name is
  replaced in place (it keeps its creation time) or the cookie is appended. The clock
  is the parameter \<open>now\<close> (milliseconds); \<open>date.setDate(date.getDate() + days)\<close>
  is \<open>days\<close> times 86400000 ms later (a daylight-saving change is not modelled);
  the \<open>expires\<close> attribute is taken to denote that instant, i.e. the printing of
  the date by \<open>Date.prototype.toString\<close> and its reading by the cookie-date parser
  are taken to agree.
\<close>

type_synonym cookie_store = "(jsstr \<times> jsstr) list"

definition is_wsp :: "cu \<Rightarrow> bool" where
  "is_wsp c \<longleftrightarrow> c = 0x20 \<or> c = 0x09"

definition trim_wsp :: "jsstr \<Rightarrow> jsstr" where
  "trim_wsp s = rev (dropWhile is_wsp (rev (dropWhile is_wsp s)))"

definition cookie_upsert :: "jsstr \<Rightarrow> jsstr \<Rightarrow> cookie_store \<Rightarrow> cookie_store" where
  "cookie_upsert n v store =
     (if n \<in> set (map fst store) then map (\<lambda>(m, w). if m = n then (m, v) else (m, w)) store
      else store @ [(n, v)])"

text \<open>\<open>document.cookie = s\<close>, with the expiry the attributes of \<open>s\<close> give.\<close>

definition cookie_write :: "cookie_store \<Rightarrow> int \<Rightarrow> jsstr \<Rightarrow> int \<Rightarrow> cookie_store" where
  "cookie_write store now s expiry =
     (let pair = takeWhile (\<lambda>c. c \<noteq> 0x3B) s
      in if 0x3D \<notin> set pair then store
         else (let n = trim_wsp (takeWhile (\<lambda>c. c \<noteq> 0x3D) pair);
                   v = trim_wsp (tl (dropWhile (\<lambda>c. c \<noteq> 0x3D) pair))
               in if n = [] then store
                  else if expiry \<le> now then filter (\<lambda>(m, w). m \<noteq> n) store
                  else cookie_upsert n v store))"

definition setCookie :: "cookie_store \<Rightarrow> int \<Rightarrow> jsstr \<Rightarrow> jsstr \<Rightarrow> int \<Rightarrow> cookie_store" where
  "setCookie store now name value days =
     cookie_write store now (name @ 0x3D # value @ js '';expires='') (now + days * 86400000)"

definition removeCookie :: "cookie_store \<Rightarrow> int \<Rightarrow> jsstr \<Rightarrow> cookie_store" where
  "removeCookie store now name = setCookie store now name (js ''1'') (-1)"

subsection \<open>Invariants\<close>

text \<open>The stores a page can reach from an empty store by calling \<open>setCookie\<close> and
  \<open>removeCookie\<close> with any arguments at any times.\<close>

inductive cookie_reach :: "cookie_store \<Rightarrow> bool" where
  empty: "cookie_reach []"
| set: "cookie_reach st \<Longrightarrow> cookie_reach (setCookie st now name value days)"
| remove: "cookie_reach st \<Longrightarrow> cookie_reach (removeCookie st now name)"

text \<open>The store the browser keeps: one cookie per name, no empty name.\<close>

definition store_wf :: "cookie_store \<Rightarrow> bool" where
  "store_wf store \<longleftrightarrow> distinct (map fst store) \<and> [] \<notin> set (map fst store)"

text \<open>A name or value \<open>getCookie\<close> reads back: no \<open>;\<close>, \<open>=\<close> or white space.\<close>

definition cookie_token :: "jsstr \<Rightarrow> bool" where
  "cookie_token s \<longleftrightarrow> list_all (\<lambda>c. c \<noteq> 0x3B \<and> c \<noteq> 0x3D \<and> \<not> is_js_space c) s"

definition store_tokens :: "cookie_store \<Rightarrow> bool" where
  "store_tokens store \<longleftrightarrow> list_all (\<lambda>(n, v). cookie_token n \<and> cookie_token v) store"

subsection \<open>Lemmas\<close>

lemma map_fst_upsert: "map fst (cookie_upsert n v store) =
    (if n \<in> set (map fst store) then map fst store else map fst store @ [n])"
  by (induction store) (auto simp: cookie_upsert_def)

lemma store_wf_upsert: "store_wf store \<Longrightarrow> n \<noteq> [] \<Longrightarrow> store_wf (cookie_upsert n v store)"
  by (simp add: store_wf_def map_fst_upsert)

lemma store_wf_filter: "store_wf store \<Longrightarrow> store_wf (filter P store)"
  by (auto simp: store_wf_def distinct_map_filter)

lemma store_wf_write: "store_wf store \<Longrightarrow> store_wf (cookie_write store now s e)"
  by (simp add: cookie_write_def Let_def store_wf_upsert store_wf_filter)

lemma dropWhile_none: "\<forall>c\<in>set s. \<not> P c \<Longrightarrow> dropWhile P s = s"
  by (induction s) auto

lemma trim_wsp_id: "\<forall>c\<in>set s. \<not> is_js_space c \<Longrightarrow> trim_wsp s = s"
proof -
  assume a: "\<forall>c\<in>set s. \<not> is_js_space c"
  then have "\<forall>c\<in>set s. \<not> is_wsp c" by (auto simp: is_wsp_def is_js_space_def)
  then show ?thesis by (simp add: trim_wsp_def dropWhile_none)
qed

lemma setCookie_tokens:
  assumes n: "cookie_token name" "name \<noteq> []" and v: "cookie_token value"
  shows "setCookie store now name value days =
    (if days \<le> 0 then filter (\<lambda>(m, w). m \<noteq> name) store else cookie_upsert name value store)"
proof -
  have nl: "\<forall>c\<in>set name. c \<noteq> 0x3B \<and> c \<noteq> 0x3D \<and> \<not> is_js_space c"
    and vl: "\<forall>c\<in>set value. c \<noteq> 0x3B \<and> c \<noteq> 0x3D \<and> \<not> is_js_space c"
    using n v by (simp_all add: cookie_token_def list_all_iff)
  have p: "takeWhile (\<lambda>c. c \<noteq> 0x3B) (name @ 0x3D # value @ js '';expires='') = name @ 0x3D # value"
    using nl vl by (simp add: takeWhile_append2 js_def)
  have t: "takeWhile (\<lambda>c. c \<noteq> 0x3D) (name @ 0x3D # value) = name"
    using nl by (simp add: takeWhile_append2)
  have d: "tl (dropWhile (\<lambda>c. c \<noteq> 0x3D) (name @ 0x3D # value)) = value"
    using nl by (simp add: dropWhile_append2)
  have "trim_wsp name = name" "trim_wsp value = value" using nl vl by (simp_all add: trim_wsp_id)
  moreover have "(now + days * 86400000 \<le> now) = (days \<le> 0)" by simp
  ultimately show ?thesis using n(2)
    by (simp add: setCookie_def cookie_write_def Let_def p t d)
qed

lemma map_of_map_update:
  "map_of (map (\<lambda>(m, w). if m = n then (m, v) else (m, w)) st) k =
   (if k = n then (if n \<in> set (map fst st) then Some v else None) else map_of st k)"
  by (induction st) (auto simp: rev_image_eqI)

lemma map_of_upsert:
  "map_of (cookie_upsert n v store) m = (if m = n then Some v else map_of store m)"
proof (cases "n \<in> set (map fst store)")
  case True
  then show ?thesis by (simp add: cookie_upsert_def map_of_map_update)
next
  case False
  have "n \<notin> set (map fst st) \<Longrightarrow> map_of (st @ [(n, v)]) m = (if m = n then Some v else map_of st m)" for st
    by (induction st) auto
  with False show ?thesis by (simp add: cookie_upsert_def)
qed

lemma map_of_filter_name:
  "map_of (filter (\<lambda>(m, w). m \<noteq> n) store) k = (if k = n then None else map_of store k)"
  by (induction store) auto

lemma store_tokens_upsert:
  "store_tokens store \<Longrightarrow> cookie_token n \<Longrightarrow> cookie_token v \<Longrightarrow> store_tokens (cookie_upsert n v store)"
  unfolding cookie_upsert_def store_tokens_def list_all_iff by (auto split: if_split_asm)

lemma store_tokens_filter: "store_tokens store \<Longrightarrow> store_tokens (filter P store)"
  by (auto simp: store_tokens_def list_all_iff)

text \<open>\<open>getCookie\<close> on the text of a store of tokens is lookup and decoding.\<close>

lemma getCookie_store:
  assumes t: "store_tokens store" and n: "name \<noteq> []"
  shows "getCookie (cookie_jar_text store) name =
    (case map_of store name of None \<Rightarrow> Inr [] | Some v \<Rightarrow> decodeURIComponent v)"
proof -
  have c: "\<forall>nv\<in>set store. 0x3B \<notin> set (fst nv) \<and> 0x3D \<notin> set (fst nv) \<and> 0x3B \<notin> set (snd nv) \<and>
      (\<forall>c\<in>set (fst nv @ snd nv). \<not> is_js_space c)"
    using t by (fastforce simp: store_tokens_def cookie_token_def list_all_iff)
  have w: "decodeURIComponent (takeWhile (\<lambda>c. c \<noteq> 0x3D) v) = decodeURIComponent v"
    if "map_of store name = Some v" for v
  proof -
    have "(name, v) \<in> set store" using that by (rule map_of_SomeD)
    then have "cookie_token v" using t by (auto simp: store_tokens_def list_all_iff)
    then have "takeWhile (\<lambda>c. c \<noteq> 0x3D) v = v" by (simp add: cookie_token_def list_all_iff)
    then show ?thesis by (rule arg_cong)
  qed
  have "store \<noteq> [] \<or> name \<noteq> []" using n by simp
  from getCookie_text [OF this c] show ?thesis using w by (simp split: option.split)
qed

lemma store_wf_setCookie: "store_wf st \<Longrightarrow> store_wf (setCookie st now name value days)"
  by (simp add: setCookie_def store_wf_write)

lemma decode_token: "cookie_token v \<Longrightarrow> 0x25 \<notin> set v \<Longrightarrow> decodeURIComponent v = Inr v"
  by (rule decode_no_pct)

subsection \<open>Properties\<close>

text \<open>C26: a cookie set with setCookie for a positive number of days reads back with
  getCookie, whatever the store held before (an earlier value of the name included),
  when names and values are tokens without \<open>;\<close>, \<open>=\<close>, white space and
  \<open>%\<close>.\<close>

theorem setCookie_getCookie:
  assumes st: "store_tokens st" and n: "cookie_token name" "name \<noteq> []"
    and v: "cookie_token value" "0x25 \<notin> set value" and d: "0 < days"
  shows "getCookie (cookie_jar_text (setCookie st now name value days)) name = Inr value"
proof -
  have e: "setCookie st now name value days = cookie_upsert name value st"
    using setCookie_tokens [OF n v(1)] d by simp
  have "store_tokens (cookie_upsert name value st)" by (rule store_tokens_upsert [OF st n(1) v(1)])
  then show ?thesis
    unfolding e using getCookie_store [OF _ n(2)] decode_token [OF v] by (simp add: map_of_upsert)
qed

theorem setCookie_getCookie_witness:
  "store_tokens [(js ''a'', js ''1'')] \<and> cookie_token (js ''b'') \<and> js ''b'' \<noteq> [] \<and>
   cookie_token (js ''2'') \<and> 0x25 \<notin> set (js ''2'') \<and> (0 :: int) < 7 \<and>
   getCookie (cookie_jar_text (setCookie [(js ''a'', js ''1'')] 0 (js ''b'') (js ''2'') 7)) (js ''b'') = Inr (js ''2'')"
  using setCookie_getCookie [of "[(js ''a'', js ''1'')]" "js ''b''" "js ''2''" 7 0]
  by (simp add: store_tokens_def cookie_token_def is_js_space_def js_def)

text \<open>every store a page reaches with setCookie and removeCookie, with any
  arguments in any order, has one cookie per name and no empty name.\<close>

theorem cookie_reach_wf: "cookie_reach st \<Longrightarrow> store_wf st"
proof (induction rule: cookie_reach.induct)
  case empty
  then show ?case by (simp add: store_wf_def)
next
  case (set st now name v days)
  from set.IH show ?case by (rule store_wf_setCookie)
next
  case (remove st now name)
  from remove.IH show ?case unfolding removeCookie_def by (rule store_wf_setCookie)
qed

theorem cookie_reach_wf_witness:
  "cookie_reach (removeCookie (setCookie [] 0 (js ''a'') (js ''1'') 1) 5 (js ''b'')) \<and>
   store_wf (removeCookie (setCookie [] 0 (js ''a'') (js ''1'') 1) 5 (js ''b''))"
proof -
  have r: "cookie_reach (removeCookie (setCookie [] 0 (js ''a'') (js ''1'') 1) 5 (js ''b''))"
    by (intro cookie_reach.remove cookie_reach.set cookie_reach.empty)
  show ?thesis using r cookie_reach_wf [OF r] by simp
qed

text \<open>C27: removeCookie deletes the cookie of the name, so getCookie then returns the
  empty string, and leaves every other cookie as it was.\<close>

theorem removeCookie_getCookie:
  assumes st: "store_tokens st" and n: "cookie_token name" "name \<noteq> []"
    and m: "m \<noteq> []" "m \<noteq> name"
  shows "getCookie (cookie_jar_text (removeCookie st now name)) name = Inr [] \<and>
    getCookie (cookie_jar_text (removeCookie st now name)) m = getCookie (cookie_jar_text st) m"
proof -
  have one: "cookie_token (js ''1'')" by (simp add: cookie_token_def js_def is_js_space_def)
  have e: "removeCookie st now name = filter (\<lambda>(k, w). k \<noteq> name) st"
    unfolding removeCookie_def using setCookie_tokens [OF n one] by simp
  have t: "store_tokens (filter (\<lambda>(k, w). k \<noteq> name) st)" by (rule store_tokens_filter [OF st])
  show ?thesis
    unfolding e using getCookie_store [OF t n(2)] getCookie_store [OF t m(1)] getCookie_store [OF st m(1)] m(2)
    by (simp add: map_of_filter_name)
qed

theorem removeCookie_getCookie_witness:
  "store_tokens [(js ''a'', js ''1''), (js ''b'', js ''2'')] \<and> cookie_token (js ''a'') \<and> js ''a'' \<noteq> [] \<and>
   js ''b'' \<noteq> [] \<and> js ''b'' \<noteq> js ''a'' \<and>
   getCookie (cookie_jar_text (removeCookie [(js ''a'', js ''1''), (js ''b'', js ''2'')] 9 (js ''a''))) (js ''a'') = Inr [] \<and>
   getCookie (cookie_jar_text (removeCookie [(js ''a'', js ''1''), (js ''b'', js ''2'')] 9 (js ''a''))) (js ''b'') =
     getCookie (cookie_jar_text [(js ''a'', js ''1''), (js ''b'', js ''2'')]) (js ''b'')"
  using removeCookie_getCookie [of "[(js ''a'', js ''1''), (js ''b'', js ''2'')]" "js ''a''" "js ''b''" 9]
  by (simp add: store_tokens_def cookie_token_def is_js_space_def js_def)

text \<open>setCookie stores the value without encoding it while getCookie decodes
  it, so a value with a bare \<open>%\<close> such as '100%' makes getCookie throw URIError.\<close>

theorem setCookie_percent_URIError:
  assumes st: "store_tokens st" and d: "0 < days"
  shows "getCookie (cookie_jar_text (setCookie st now (js ''rate'') (js ''100%'') days)) (js ''rate'') = Inl URIError"
proof -
  have n: "cookie_token (js ''rate'')" "js ''rate'' \<noteq> []" and v: "cookie_token (js ''100%'')"
    by (simp_all add: cookie_token_def js_def is_js_space_def)
  have e: "setCookie st now (js ''rate'') (js ''100%'') days = cookie_upsert (js ''rate'') (js ''100%'') st"
    using setCookie_tokens [OF n v] d by simp
  have u: "decodeURIComponent (js ''100%'') = Inl URIError" by code_simp
  show ?thesis
    unfolding e using getCookie_store [OF store_tokens_upsert [OF st n(1) v] n(2)] u
    by (simp add: map_of_upsert)
qed

theorem setCookie_percent_URIError_witness:
  "store_tokens [] \<and> (0 :: int) < 1 \<and>
   getCookie (cookie_jar_text (setCookie [] 0 (js ''rate'') (js ''100%'') 1)) (js ''rate'') = Inl URIError"
  using setCookie_percent_URIError [of "[]" 1 0] by (simp add: store_tokens_def)

end
