(* ===== verification/Class_Name.thy ===== *)
theory Class_Name
  imports JS_Regex
begin

text \<open>
  \<open>hasClass\<close>, \<open>addClass\<close> and \<open>removeClass\<close> of src/index.js (lines 40-73). An
  element is a record holding its \<open>className\<close>; a missing element
  (\<open>null\<close>/\<open>undefined\<close>) is \<open>None\<close>. \<open>addClass\<close> and \<open>removeClass\<close>
  assign \<open>ele.className\<close> and return the element in its new state. All three build
  \<open>new RegExp(`(\s|^)${cls}(\s|$)`)\<close> from the class name (\<open>class_src\<close>): a
  name that makes the pattern invalid throws \<open>SyntaxError\<close>, and a name that makes it
  use a construct outside the regular-expression model gives \<open>None\<close>. The
  lemmas show that for a class name of plain code units the pattern parses to
  \<open>class_rx\<close>, that its test holds exactly when the name occurs delimited by white
  space or the ends of \<open>className\<close> (\<open>class_in\<close>), and that this is membership
  in the white-space separated tokens (\<open>split_ws\<close>).
\<close>

record element =
  className :: jsstr

text \<open>The source of the pattern the three functions build from \<open>cls\<close>.\<close>

definition class_src :: "jsstr \<Rightarrow> jsstr" where
  "class_src cls = [0x28, 0x5C, 0x73, 0x7C, 0x5E, 0x29] @ cls @ [0x28, 0x5C, 0x73, 0x7C, 0x24, 0x29]"

definition hasClass :: "element option \<Rightarrow> jsstr \<Rightarrow> (js_error + bool) option" where
  "hasClass ele cls =
     (case ele of
       None \<Rightarrow> Some (Inl (Error (js ''document element can not be empty'')))
     | Some e \<Rightarrow>
         if cls = [] then Some (Inl (Error (js ''class can not be empty'')))
         else (case rx_parse (class_src cls) of
                 RxOk r \<Rightarrow> Some (Inr (rx_test False r (className e)))
               | RxSyntax \<Rightarrow> Some (Inl SyntaxError)
               | RxOutside \<Rightarrow> None))"

definition addClass :: "element option \<Rightarrow> jsstr \<Rightarrow> (js_error + element option) option" where
  "addClass ele cls =
     (case hasClass ele cls of
       None \<Rightarrow> None
     | Some (Inl err) \<Rightarrow> Some (Inl err)
     | Some (Inr b) \<Rightarrow>
         Some (Inr (if b then ele else map_option (\<lambda>e. e\<lparr>className := className e @ 0x20 # cls\<rparr>) ele)))"

definition removeClass :: "element option \<Rightarrow> jsstr \<Rightarrow> (js_error + element option) option" where
  "removeClass ele cls =
     (case hasClass ele cls of
       None \<Rightarrow> None
     | Some (Inl err) \<Rightarrow> Some (Inl err)
     | Some (Inr b) \<Rightarrow>
         if b then
           (case rx_parse (class_src cls) of
             RxOk r \<Rightarrow> Some (Inr (map_option (\<lambda>e. e\<lparr>className := rx_replace False r (className e) []\<rparr>) ele))
           | RxSyntax \<Rightarrow> Some (Inl SyntaxError)
           | RxOutside \<Rightarrow> None)
         else Some (Inr ele))"

subsection \<open>Specification\<close>

text \<open>The expression the pattern parses to for a plain class name.\<close>

definition class_rx :: "jsstr \<Rightarrow> rx" where
  "class_rx cls =
     RSeq (RAlt (RSeq (RClass False space_ranges) REmpty) (RSeq RBol REmpty))
       (lit cls (RSeq (RAlt (RSeq (RClass False space_ranges) REmpty) (RSeq REol REmpty)) REmpty))"

text \<open>\<open>w\<close> occurs in \<open>s\<close> with white space or an end of \<open>s\<close> on each side.\<close>

definition class_in :: "jsstr \<Rightarrow> jsstr \<Rightarrow> bool" where
  "class_in s w \<longleftrightarrow>
     (\<exists>u v. s = u @ w @ v \<and> (u = [] \<or> is_js_space (last u)) \<and> (v = [] \<or> is_js_space (hd v)))"

text \<open>The white-space separated pieces of a class attribute, empty pieces included.\<close>

fun split_ws :: "jsstr \<Rightarrow> jsstr list" where
  "split_ws [] = [[]]"
| "split_ws (c # s) =
     (if is_js_space c then [] # split_ws s
      else (case split_ws s of t # ts \<Rightarrow> (c # t) # ts | [] \<Rightarrow> [[c]]))"

definition class_tokens :: "jsstr \<Rightarrow> jsstr list" where
  "class_tokens s = filter (\<lambda>t. t \<noteq> []) (split_ws s)"

text \<open>A class name the pattern reads literally: non-empty, plain, without white space.\<close>

definition class_name_ok :: "jsstr \<Rightarrow> bool" where
  "class_name_ok cls \<longleftrightarrow> cls \<noteq> [] \<and> list_all (\<lambda>c. plain_cu c \<and> \<not> is_js_space c) cls"

subsection \<open>The pattern\<close>

lemma count_caps_class: "\<forall>c\<in>set w. plain_cu c \<Longrightarrow> count_caps False (class_src w) = 2"
  by (simp add: class_src_def count_caps_plain)

lemma p_alt_tail:
  "p_alt k (Suc (Suc (Suc (Suc (Suc (Suc (Suc (Suc n)))))))) [0x28, 0x5C, 0x73, 0x7C, 0x24, 0x29] =
   POk (RSeq (RAlt (RSeq (RClass False space_ranges) REmpty) (RSeq REol REmpty)) REmpty, [])"
  by (simp add: pbind_def p_atom_def p_atom_escape_def class_escape_set_def no_quant_def close_group_def quantify_def p_quant_def)

lemma p_alt_class_rest:
  assumes w: "\<forall>c\<in>set w. plain_cu c" and n: "length w + 8 \<le> n"
  shows "p_alt k n (w @ [0x28, 0x5C, 0x73, 0x7C, 0x24, 0x29]) =
     POk (lit w (RSeq (RAlt (RSeq (RClass False space_ranges) REmpty) (RSeq REol REmpty)) REmpty), [])"
proof -
  define m where "m = n - length w - 8"
  have m: "n - length w = Suc (Suc (Suc (Suc (Suc (Suc (Suc (Suc m)))))))"
    using n unfolding m_def by linarith
  have "p_alt k n (w @ [0x28, 0x5C, 0x73, 0x7C, 0x24, 0x29]) =
      pbind (p_alt k (n - length w) [0x28, 0x5C, 0x73, 0x7C, 0x24, 0x29]) (\<lambda>(u, r). POk (lit w u, r))"
    by (rule p_alt_plain [OF w _ p_quant_paren]) (use n in simp)
  then show ?thesis
    unfolding m p_alt_tail by simp
qed

lemma p_alt_class_head:
  assumes q: "p_quant t = None"
  shows "p_alt k (Suc (Suc (Suc (Suc (Suc (Suc (Suc (Suc n)))))))) ([0x28, 0x5C, 0x73, 0x7C, 0x5E, 0x29] @ t) =
     pbind (p_alt k (Suc (Suc (Suc (Suc (Suc (Suc (Suc n))))))) t)
       (\<lambda>(u, r). POk (RSeq (RAlt (RSeq (RClass False space_ranges) REmpty) (RSeq RBol REmpty)) u, r))"
proof -
  have "p_term k (Suc (Suc (Suc (Suc (Suc (Suc (Suc n))))))) ([0x28, 0x5C, 0x73, 0x7C, 0x5E, 0x29] @ t) =
      POk (RAlt (RSeq (RClass False space_ranges) REmpty) (RSeq RBol REmpty), t)"
    using q by (simp add: pbind_def p_atom_def p_atom_escape_def class_escape_set_def no_quant_def
        close_group_def quantify_def p_quant_def)
  then show ?thesis
    by (subst p_alt.simps) (simp del: p_alt.simps add: pbind_def)
qed

lemma rx_parse_class: "\<forall>c\<in>set w. plain_cu c \<Longrightarrow> rx_parse (class_src w) = RxOk (class_rx w)"
proof -
  assume w: "\<forall>c\<in>set w. plain_cu c"
  define y where "y = 3 * length w + 30"
  have f: "3 * length (class_src w) + 3 = Suc (Suc (Suc (Suc (Suc (Suc (Suc (Suc (Suc y))))))))"
    by (simp add: class_src_def y_def)
  have r: "p_alt k (Suc (Suc (Suc (Suc (Suc (Suc (Suc y))))))) (w @ [0x28, 0x5C, 0x73, 0x7C, 0x24, 0x29]) =
     POk (lit w (RSeq (RAlt (RSeq (RClass False space_ranges) REmpty) (RSeq REol REmpty)) REmpty), [])" for k
    by (rule p_alt_class_rest [OF w]) (simp add: y_def)
  show ?thesis
    unfolding rx_parse_def count_caps_class [OF w] f
    unfolding p_disj.simps(2) class_src_def
    unfolding p_alt_class_head [OF p_quant_plain_app [OF w]] r
    by (simp add: pbind_def class_rx_def)
qed

lemma ends_class_rx:
  "(ends False s (class_rx w) i \<noteq> []) =
   (\<exists>p. (i < length s \<and> is_js_space (s ! i) \<and> p = Suc i \<or> i = 0 \<and> p = 0) \<and>
        take (length w) (drop p s) = w \<and>
        (p + length w < length s \<and> is_js_space (s ! (p + length w)) \<or> p + length w = length s))"
proof -
  have g2: "(ends False s (RAlt (RSeq (RClass False space_ranges) REmpty) (RSeq REol REmpty)) q \<noteq> []) =
      (q < length s \<and> is_js_space (s ! q) \<or> q = length s)" for q
    by (simp only: ends_space_or) simp
  have g1: "set (ends False s (RAlt (RSeq (RClass False space_ranges) REmpty) (RSeq RBol REmpty)) i) =
      {p. i < length s \<and> is_js_space (s ! i) \<and> p = Suc i \<or> i = 0 \<and> p = 0}"
    by (simp only: ends_space_or) auto
  show ?thesis
    unfolding class_rx_def
    by (simp only: ends_seq_nonempty ends_seq_REmpty ends_lit g1 if_Nil_nonempty g2 Bex_def mem_Collect_eq)
qed

lemma rx_test_class: "rx_test False (class_rx w) s = class_in s w"
proof
  assume "rx_test False (class_rx w) s"
  then obtain i p where i: "i < length s \<and> is_js_space (s ! i) \<and> p = Suc i \<or> i = 0 \<and> p = 0"
    and t: "take (length w) (drop p s) = w"
    and e: "p + length w < length s \<and> is_js_space (s ! (p + length w)) \<or> p + length w = length s"
    unfolding rx_test_def list_ex_iff ends_class_rx by blast
  have "p \<le> length s" using i by auto
  then have s: "s = take p s @ w @ drop (p + length w) s" using take_drop_eq_split [OF t] by blast
  have u: "take p s = [] \<or> is_js_space (last (take p s))"
    using i by (auto simp: take_Suc_conv_app_nth)
  have v: "drop (p + length w) s = [] \<or> is_js_space (hd (drop (p + length w) s))"
    using e by (auto simp: hd_drop_conv_nth)
  show "class_in s w" unfolding class_in_def using s u v by blast
next
  assume "class_in s w"
  then obtain u v where s: "s = u @ w @ v" and u: "u = [] \<or> is_js_space (last u)"
    and v: "v = [] \<or> is_js_space (hd v)" unfolding class_in_def by blast
  define i where "i = length u - 1"
  have t: "take (length w) (drop (length u) s) = w" using s by simp
  have e: "length u + length w < length s \<and> is_js_space (s ! (length u + length w)) \<or>
      length u + length w = length s"
    using v s by (cases v) (auto simp: nth_append)
  have g: "i < length s \<and> is_js_space (s ! i) \<and> length u = Suc i \<or> i = 0 \<and> length u = 0"
    using u s by (cases u rule: rev_cases) (auto simp: i_def nth_append)
  have "ends False s (class_rx w) i \<noteq> []"
    unfolding ends_class_rx using g t e by blast
  moreover have "i \<le> length s" unfolding i_def s by simp
  then have "i \<in> set [0..<Suc (length s)]" by (simp only: set_upt atLeastLessThan_iff) linarith
  ultimately show "rx_test False (class_rx w) s"
    unfolding rx_test_def list_ex_iff by blast
qed

subsection \<open>Tokens\<close>

lemma split_ws_not_Nil [simp]: "split_ws s \<noteq> []"
  by (induction s rule: split_ws.induct) (auto split: list.split)

lemma split_ws_no_space: "\<forall>c\<in>set w. \<not> is_js_space c \<Longrightarrow> split_ws w = [w]"
  by (induction w) auto

lemma split_ws_append_space:
  "is_js_space c \<Longrightarrow> split_ws (u @ c # v) = split_ws u @ split_ws v"
proof (induction u)
  case Nil
  then show ?case by simp
next
  case (Cons a u)
  then show ?case
    by (cases "split_ws u") (auto split: list.split)
qed

text \<open>Where the pieces of \<open>split_ws\<close> sit in the string: the first at the start, the
  others after a white-space code unit, each followed by white space or the end.\<close>

lemma split_ws_pieces:
  "(\<exists>v. s = hd (split_ws s) @ v \<and> (v = [] \<or> is_js_space (hd v))) \<and>
   (\<forall>t\<in>set (tl (split_ws s)). \<exists>u v. s = u @ t @ v \<and> u \<noteq> [] \<and> is_js_space (last u) \<and>
      (v = [] \<or> is_js_space (hd v)))"
proof (induction s)
  case Nil
  then show ?case by simp
next
  case (Cons c s)
  obtain h ts where hs: "split_ws s = h # ts" by (cases "split_ws s") auto
  have ih2: "\<forall>t\<in>set ts. \<exists>u v. s = u @ t @ v \<and> u \<noteq> [] \<and> is_js_space (last u) \<and>
      (v = [] \<or> is_js_space (hd v))"
    using conjunct2 [OF Cons.IH] unfolding hs by simp
  have "\<exists>v. s = h @ v \<and> (v = [] \<or> is_js_space (hd v))"
    using conjunct1 [OF Cons.IH] unfolding hs by simp
  then obtain v where v: "s = h @ v" "v = [] \<or> is_js_space (hd v)" by blast
  have tl: "\<exists>u v. c # s = u @ t @ v \<and> u \<noteq> [] \<and> is_js_space (last u) \<and> (v = [] \<or> is_js_space (hd v))"
    if t: "t \<in> set ts" for t
  proof -
    obtain u v where uv: "s = u @ t @ v \<and> u \<noteq> [] \<and> is_js_space (last u) \<and> (v = [] \<or> is_js_space (hd v))"
      using bspec [OF ih2 t] by iprover
    have "c # s = (c # u) @ t @ v" using uv by simp
    moreover have "last (c # u) = last u" using uv by simp
    ultimately show ?thesis using uv by (intro exI [of _ "c # u"] exI [of _ v]) simp
  qed
  show ?case
  proof (cases "is_js_space c")
    case True
    then have sp: "split_ws (c # s) = [] # h # ts" using hs by simp
    have h: "\<exists>u v. c # s = u @ h @ v \<and> u \<noteq> [] \<and> is_js_space (last u) \<and> (v = [] \<or> is_js_space (hd v))"
      using True v by (intro exI [of _ "[c]"] exI [of _ v]) simp
    have "\<exists>v. c # s = hd (split_ws (c # s)) @ v \<and> (v = [] \<or> is_js_space (hd v))"
      unfolding sp using True by simp
    moreover have "\<forall>t\<in>set (tl (split_ws (c # s))). \<exists>u v. c # s = u @ t @ v \<and> u \<noteq> [] \<and>
        is_js_space (last u) \<and> (v = [] \<or> is_js_space (hd v))"
      unfolding sp using h tl by simp
    ultimately show ?thesis by (rule conjI)
  next
    case False
    then have sp: "split_ws (c # s) = (c # h) # ts" using hs by simp
    have "\<exists>v. c # s = hd (split_ws (c # s)) @ v \<and> (v = [] \<or> is_js_space (hd v))"
      unfolding sp using v by simp
    moreover have "\<forall>t\<in>set (tl (split_ws (c # s))). \<exists>u v. c # s = u @ t @ v \<and> u \<noteq> [] \<and>
        is_js_space (last u) \<and> (v = [] \<or> is_js_space (hd v))"
      unfolding sp using tl by simp
    ultimately show ?thesis by (rule conjI)
  qed
qed

lemma class_in_split_ws:
  assumes w: "w \<noteq> []" "\<forall>c\<in>set w. \<not> is_js_space c"
  shows "class_in s w = (w \<in> set (split_ws s))"
proof
  assume "class_in s w"
  then obtain u v where s: "s = u @ w @ v" and u: "u = [] \<or> is_js_space (last u)"
    and v: "v = [] \<or> is_js_space (hd v)" unfolding class_in_def by blast
  have r: "w \<in> set (split_ws (w @ v))"
    using v split_ws_no_space [OF w(2)] split_ws_append_space [of "hd v" w "tl v"] by (cases v) auto
  show "w \<in> set (split_ws s)"
  proof (cases u rule: rev_cases)
    case Nil
    then show ?thesis using s r by simp
  next
    case (snoc u' c)
    then show ?thesis using s r u split_ws_append_space [of c u' "w @ v"] by simp
  qed
next
  assume m: "w \<in> set (split_ws s)"
  obtain h ts where hs: "split_ws s = h # ts" by (cases "split_ws s") auto
  show "class_in s w"
  proof (cases "w = h")
    case True
    then show ?thesis using split_ws_pieces [of s] hs unfolding class_in_def
      by (metis append.left_neutral list.sel(1))
  next
    case False
    then have "w \<in> set (tl (split_ws s))" using m hs by simp
    then show ?thesis using split_ws_pieces [of s] unfolding class_in_def by blast
  qed
qed

lemma class_tokens_append:
  "class_name_ok cls \<Longrightarrow> class_tokens (s @ 0x20 # cls) = class_tokens s @ [cls]"
  by (simp add: class_tokens_def class_name_ok_def is_js_space_def list_all_iff split_ws_append_space
      split_ws_no_space)

lemma class_name_ok_plain: "class_name_ok cls \<Longrightarrow> \<forall>c\<in>set cls. plain_cu c"
  by (simp add: class_name_ok_def list_all_iff)

lemma class_name_ok_no_space: "class_name_ok cls \<Longrightarrow> \<forall>c\<in>set cls. \<not> is_js_space c"
  by (simp add: class_name_ok_def list_all_iff)

lemma class_test_tokens:
  "class_name_ok cls \<Longrightarrow> rx_test False (class_rx cls) s = (cls \<in> set (class_tokens s))"
  unfolding rx_test_class class_tokens_def
  using class_in_split_ws [OF _ class_name_ok_no_space] by (simp add: class_name_ok_def)

lemma hasClass_ok:
  "class_name_ok cls \<Longrightarrow> hasClass (Some e) cls = Some (Inr (rx_test False (class_rx cls) (className e)))"
  using rx_parse_class [OF class_name_ok_plain] by (simp add: hasClass_def class_name_ok_def)

text \<open>The first match of the pattern when \<open>cls\<close> follows a white-space code unit at
  \<open>i\<close> and is followed by one: it takes both white-space code units.\<close>

lemma hd_ends_class_rx:
  assumes "i < length s" "is_js_space (s ! i)" "take (length w) (drop (Suc i) s) = w"
    "Suc i + length w < length s" "is_js_space (s ! (Suc i + length w))"
  shows "hd (ends False s (class_rx w) i) = Suc (Suc i + length w)"
  using assms by (simp add: class_rx_def ends_lit class_match_space)

lemma rx_parse_class_paren: "rx_parse (class_src [0x28]) = RxSyntax"
  by code_simp

text \<open>No match starts inside a leading run \<open>a\<close> without white space that differs
  from the class name, when white space follows the run.\<close>

lemma no_class_match_before:
  assumes ok: "class_name_ok w" and a: "\<forall>c\<in>set a. \<not> is_js_space c" and ne: "a \<noteq> w"
    and s: "s = a @ 0x20 # r" and j: "j < length a"
  shows "ends False s (class_rx w) j = []"
proof -
  have sj: "\<not> is_js_space (s ! j)" using a j s by (simp add: nth_append)
  have "\<not> (take (length w) s = w \<and>
      (length w < length s \<and> is_js_space (s ! length w) \<or> length w = length s))"
  proof
    assume t: "take (length w) s = w \<and>
      (length w < length s \<and> is_js_space (s ! length w) \<or> length w = length s)"
    consider (lt) "length w < length a" | (eq) "length w = length a" | (gt) "length a < length w"
      by linarith
    then show False
    proof cases
      case lt
      then show False using t a s by (auto simp: nth_append)
    next
      case eq
      then show False using t s ne by simp
    next
      case gt
      then have "w ! length a = s ! length a" using t by (metis nth_take)
      then have "w ! length a = 0x20" using s by simp
      then have "0x20 \<in> set w" using gt by (metis nth_mem)
      then show False using class_name_ok_no_space [OF ok] by (auto simp: is_js_space_def)
    qed
  qed
  then have "\<not> (ends False s (class_rx w) j \<noteq> [])" unfolding ends_class_rx using sj by auto
  then show ?thesis by simp
qed

lemma rx_replace_class_middle:
  assumes ok: "class_name_ok w" and a: "\<forall>c\<in>set a. \<not> is_js_space c" and ne: "a \<noteq> w"
  shows "rx_replace False (class_rx w) (a @ 0x20 # w @ 0x20 # b) [] = a @ b"
proof -
  define s where "s = a @ 0x20 # w @ 0x20 # b"
  have sp: "is_js_space 0x20" by (simp add: is_js_space_def)
  have h: "hd (ends False s (class_rx w) (length a)) = Suc (Suc (length a) + length w)"
    by (rule hd_ends_class_rx) (simp_all add: s_def nth_append sp)
  have m: "ends False s (class_rx w) (length a) \<noteq> []"
    unfolding ends_class_rx by (intro exI [of _ "Suc (length a)"]) (simp add: s_def nth_append sp)
  have "rx_exec False (class_rx w) s = Some (length a, Suc (Suc (length a) + length w))"
    using rx_exec_first [OF _ m] no_class_match_before [OF ok a ne s_def] h by (simp add: s_def)
  then show ?thesis by (simp add: rx_replace_def s_def)
qed

subsection \<open>Properties\<close>

text \<open>C18: for a class name of plain code units without white space, hasClass answers
  whether the name is one of the white-space separated tokens of className, i.e. it
  refines classList.contains.\<close>

theorem hasClass_tokens:
  "class_name_ok cls \<Longrightarrow> hasClass (Some e) cls = Some (Inr (cls \<in> set (class_tokens (className e))))"
  by (simp add: hasClass_ok class_test_tokens)

theorem hasClass_tokens_witness:
  "class_name_ok (js ''b'') \<and>
   hasClass (Some \<lparr>className = js ''a b c''\<rparr>) (js ''b'') =
     Some (Inr (js ''b'' \<in> set (class_tokens (js ''a b c''))))"
  using hasClass_tokens [of "js ''b''" "\<lparr>className = js ''a b c''\<rparr>"]
  by (simp add: class_name_ok_def plain_cu_def is_js_space_def js_def)

text \<open>C19: hasClass throws 'document element can not be empty' on a missing element,
  'class can not be empty' on an empty class name, and SyntaxError when the class name
  makes the pattern invalid, such as an unbalanced parenthesis.\<close>

theorem hasClass_errors:
  "hasClass None cls = Some (Inl (Error (js ''document element can not be empty''))) \<and>
   hasClass (Some e) [] = Some (Inl (Error (js ''class can not be empty''))) \<and>
   hasClass (Some e) (js ''('') = Some (Inl SyntaxError)"
  by (simp add: hasClass_def js_def rx_parse_class_paren)

text \<open>C20: addClass with a class name of plain code units without white space leaves
  the token list unchanged when the class is present and appends the class otherwise,
  i.e. it refines classList.add.\<close>

theorem addClass_tokens:
  assumes ok: "class_name_ok cls"
  shows "\<exists>e'. addClass (Some e) cls = Some (Inr (Some e')) \<and>
     class_tokens (className e') =
       (if cls \<in> set (class_tokens (className e)) then class_tokens (className e)
        else class_tokens (className e) @ [cls])"
  using hasClass_tokens [OF ok, of e] class_tokens_append [OF ok, of "className e"]
  by (simp add: addClass_def)

text \<open>C21: removeClass deletes the white space on both sides of the class it removes,
  so removing a middle class joins its neighbours: className 'a b c' without 'b'
  becomes 'ac', a single class.\<close>

theorem removeClass_merges:
  assumes ok: "class_name_ok cls" and a: "list_all (\<lambda>c. \<not> is_js_space c) a" and ne: "a \<noteq> cls"
  shows "removeClass (Some \<lparr>className = a @ 0x20 # cls @ 0x20 # b\<rparr>) cls =
    Some (Inr (Some \<lparr>className = a @ b\<rparr>))"
proof -
  have "class_in (a @ 0x20 # cls @ 0x20 # b) cls"
    unfolding class_in_def by (intro exI [of _ "a @ [0x20]"] exI [of _ "0x20 # b"]) (simp add: is_js_space_def)
  then show ?thesis
    using hasClass_ok [OF ok] rx_parse_class [OF class_name_ok_plain [OF ok]]
      rx_replace_class_middle [OF ok _ ne] a
    by (simp add: removeClass_def rx_test_class list_all_iff)
qed

theorem removeClass_merges_witness:
  "class_name_ok (js ''b'') \<and> list_all (\<lambda>c. \<not> is_js_space c) (js ''a'') \<and> js ''a'' \<noteq> js ''b'' \<and>
   removeClass (Some \<lparr>className = js ''a'' @ 0x20 # js ''b'' @ 0x20 # js ''c''\<rparr>) (js ''b'') =
     Some (Inr (Some \<lparr>className = js ''a'' @ js ''c''\<rparr>))"
  using removeClass_merges [of "js ''b''" "js ''a''" "js ''c''"]
  by (simp add: class_name_ok_def plain_cu_def is_js_space_def js_def)

theorem addClass_tokens_witness:
  "class_name_ok (js ''d'') \<and>
   (\<exists>e'. addClass (Some \<lparr>className = js ''a b''\<rparr>) (js ''d'') = Some (Inr (Some e')) \<and>
     class_tokens (className e') =
       (if js ''d'' \<in> set (class_tokens (js ''a b'')) then class_tokens (js ''a b'')
        else class_tokens (js ''a b'') @ [js ''d'']))"
  using addClass_tokens [of "js ''d''" "\<lparr>className = js ''a b''\<rparr>"]
  by (simp add: class_name_ok_def plain_cu_def is_js_space_def js_def class_tokens_def)

end
