(* ===== verification/Random_Color.thy ===== *)
theory Random_Color
  imports JS_Prelude Complex_Main
begin

text \<open>
  \<open>randomColor\<close> of src/index.js (lines 424-426):
  \<open>'#' + ('00000' + (Math.random() * 0x1000000 << 0).toString(16)).slice(-6)\<close>.
  The value of \<open>Math.random()\<close> is the parameter \<open>r\<close>, a number in [0, 1); the
  product with \<open>0x1000000\<close> is exact (a power of two), \<open><< 0\<close> is ToInt32
  (truncation, then wrap-around to a signed 32-bit integer, here through
  \<open>32 word\<close>), \<open>toString(16)\<close> prints lower-case hexadecimal digits after a minus
  sign for a negative number, and \<open>slice(-6)\<close> keeps the last six code units.
\<close>

definition hex_lower :: "nat \<Rightarrow> cu" where
  "hex_lower d = (if d < 10 then 48 + of_nat d else 87 + of_nat d)"

fun show_hex :: "nat \<Rightarrow> jsstr" where
  "show_hex n = (if n < 16 then [hex_lower n] else show_hex (n div 16) @ [hex_lower (n mod 16)])"

text \<open>\<open>Number::toString(16)\<close> on an integral number.\<close>

definition num_to_hex :: "int \<Rightarrow> jsstr" where
  "num_to_hex i = (if i < 0 then 0x2D # show_hex (nat (- i)) else show_hex (nat i))"

definition trunc_rat :: "rat \<Rightarrow> int" where
  "trunc_rat x = (if 0 \<le> x then \<lfloor>x\<rfloor> else \<lceil>x\<rceil>)"

text \<open>ToInt32, the conversion \<open><<\<close> applies to its left operand.\<close>

definition to_int32 :: "rat \<Rightarrow> int" where
  "to_int32 x = sint (word_of_int (trunc_rat x) :: 32 word)"

text \<open>\<open>s.slice(-k)\<close>.\<close>

definition slice_last :: "jsstr \<Rightarrow> nat \<Rightarrow> jsstr" where
  "slice_last s k = drop (length s - k) s"

definition randomColor :: "rat \<Rightarrow> jsstr" where
  "randomColor r = 0x23 # slice_last (js ''00000'' @ num_to_hex (to_int32 (r * 0x1000000))) 6"

text \<open>Reading a string of hexadecimal digits back.\<close>

definition read_hex :: "jsstr \<Rightarrow> nat" where
  "read_hex s = foldl (\<lambda>a c. 16 * a + the (hex_val c)) 0 s"

definition is_hex_lower :: "cu \<Rightarrow> bool" where
  "is_hex_lower c \<longleftrightarrow> (0x30 \<le> c \<and> c \<le> 0x39) \<or> (0x61 \<le> c \<and> c \<le> 0x66)"

declare show_hex.simps [simp del]

subsection \<open>Lemmas\<close>

lemma hex_lower_val: "d < 16 \<Longrightarrow> hex_val (hex_lower d) = Some d"
  by (auto simp: hex_val_def hex_lower_def word_le_nat_alt unat_word_ariths)

lemma hex_lower_is_hex: "d < 16 \<Longrightarrow> is_hex_lower (hex_lower d)"
  by (auto simp: is_hex_lower_def hex_lower_def word_le_nat_alt unat_word_ariths)

lemma read_hex_snoc: "read_hex (s @ [c]) = 16 * read_hex s + the (hex_val c)"
  by (simp add: read_hex_def)

lemma read_show_hex: "read_hex (show_hex n) = n"
proof (induction n rule: show_hex.induct)
  case (1 n)
  show ?case
  proof (cases "n < 16")
    case True
    then show ?thesis by (simp add: show_hex.simps read_hex_def hex_lower_val)
  next
    case False
    then show ?thesis using 1 by (simp add: show_hex.simps [of n] read_hex_snoc hex_lower_val)
  qed
qed

lemma show_hex_chars: "c \<in> set (show_hex n) \<Longrightarrow> is_hex_lower c"
proof (induction n rule: show_hex.induct)
  case (1 n)
  then show ?case
    by (cases "n < 16") (auto simp: show_hex.simps [of n] hex_lower_is_hex)
qed

lemma show_hex_length: "n < 16 ^ k \<Longrightarrow> 0 < k \<Longrightarrow> length (show_hex n) \<le> k"
proof (induction n arbitrary: k rule: show_hex.induct)
  case (1 n)
  show ?case
  proof (cases "n < 16")
    case True
    then show ?thesis using 1(3) by (simp add: show_hex.simps)
  next
    case False
    then obtain j where k: "k = Suc j" using 1(3) by (cases k) auto
    have "n div 16 < 16 ^ j" using 1(2) k by (simp add: less_mult_imp_div_less mult.commute)
    moreover have "0 < j" using False 1(2) k by (cases j) auto
    ultimately have "length (show_hex (n div 16)) \<le> j" using 1(1) False by blast
    then show ?thesis using False k by (simp add: show_hex.simps [of n])
  qed
qed

lemma show_hex_not_Nil: "show_hex n \<noteq> []"
  by (simp add: show_hex.simps [of n])

lemma read_hex_zeros: "read_hex (replicate k 0x30 @ s) = read_hex s"
proof -
  have "foldl (\<lambda>a c. 16 * a + the (hex_val c)) 0 (replicate k 0x30) = 0"
    by (induction k) (simp_all add: hex_val_def)
  then show ?thesis by (simp add: read_hex_def)
qed

lemma to_int32_small: "0 \<le> x \<Longrightarrow> x < 2 ^ 31 \<Longrightarrow> to_int32 x = \<lfloor>x\<rfloor>"
proof -
  assume x: "0 \<le> x" "x < 2 ^ 31"
  have "0 \<le> \<lfloor>x\<rfloor>" using x(1) by simp
  moreover have "\<lfloor>x\<rfloor> < 2 ^ 31" using x(2) floor_less_iff [of x "2 ^ 31"] by simp
  ultimately show ?thesis
    using x(1) by (simp add: to_int32_def trunc_rat_def sint_sbintrunc' signed_take_bit_int_eq_self)
qed

lemma slice_last_pad:
  assumes "1 \<le> length h" "length h \<le> 6"
  shows "slice_last (replicate 5 0x30 @ h) 6 = replicate (6 - length h) 0x30 @ h"
proof -
  have "length (replicate 5 (0x30 :: cu) @ h) - 6 = length h - 1" using assms by simp
  moreover have "drop (length h - 1) (replicate 5 (0x30 :: cu) @ h) = replicate (6 - length h) 0x30 @ h"
    using assms by simp
  ultimately show ?thesis by (simp add: slice_last_def)
qed

lemma randomColor_form:
  assumes r: "0 \<le> r" "r < 1"
  shows "randomColor r = 0x23 # replicate (6 - length (show_hex (nat \<lfloor>r * 0x1000000\<rfloor>))) 0x30 @
      show_hex (nat \<lfloor>r * 0x1000000\<rfloor>) \<and>
    length (show_hex (nat \<lfloor>r * 0x1000000\<rfloor>)) \<le> 6 \<and> 0 \<le> \<lfloor>r * 0x1000000\<rfloor>"
proof -
  define x where "x = r * 0x1000000"
  have x: "0 \<le> x" "x < 0x1000000" using r by (simp_all add: x_def)
  have f: "0 \<le> \<lfloor>x\<rfloor>" "\<lfloor>x\<rfloor> < 0x1000000" using x floor_less_iff [of x "0x1000000"] by simp_all
  have t: "to_int32 x = \<lfloor>x\<rfloor>" using x by (intro to_int32_small) simp_all
  define h where "h = show_hex (nat \<lfloor>x\<rfloor>)"
  have "nat \<lfloor>x\<rfloor> < nat 0x1000000" using f nat_less_eq_zless by blast
  then have "nat \<lfloor>x\<rfloor> < 16 ^ 6" by simp
  then have l: "1 \<le> length h" "length h \<le> 6"
    using show_hex_length [of "nat \<lfloor>x\<rfloor>" 6] show_hex_not_Nil [of "nat \<lfloor>x\<rfloor>"]
    by (simp_all add: h_def Suc_leI length_greater_0_conv)
  have z: "js ''00000'' = replicate 5 0x30" by (simp add: js_def numeral_eq_Suc)
  have "randomColor r = 0x23 # replicate (6 - length h) 0x30 @ h"
    unfolding randomColor_def x_def [symmetric] t z using f(1)
    by (simp add: num_to_hex_def h_def [symmetric] slice_last_pad [OF l])
  then show ?thesis using f l by (simp add: h_def x_def)
qed

subsection \<open>Properties\<close>

text \<open>C28: for every value of Math.random() in [0, 1), randomColor returns '#' and six
  lower-case hexadecimal digits, which read as a number give the integer part of
  r * 0x1000000: every colour #000000 to #ffffff is produced, and nothing else.\<close>

theorem randomColor_hex:
  "0 \<le> r \<Longrightarrow> r < 1 \<Longrightarrow>
   length (randomColor r) = 7 \<and> hd (randomColor r) = 0x23 \<and> list_all is_hex_lower (tl (randomColor r)) \<and>
   int (read_hex (tl (randomColor r))) = \<lfloor>r * 0x1000000\<rfloor>"
proof -
  assume r: "0 \<le> r" "r < 1"
  define h where "h = show_hex (nat \<lfloor>r * 0x1000000\<rfloor>)"
  have e: "randomColor r = 0x23 # replicate (6 - length h) 0x30 @ h" and l: "length h \<le> 6"
    and p: "0 \<le> \<lfloor>r * 0x1000000\<rfloor>"
    using randomColor_form [OF r] by (simp_all add: h_def)
  have "list_all is_hex_lower (replicate (6 - length h) 0x30 @ h)"
    using show_hex_chars unfolding h_def by (auto simp: list_all_iff is_hex_lower_def)
  moreover have "read_hex (replicate (6 - length h) 0x30 @ h) = nat \<lfloor>r * 0x1000000\<rfloor>"
    by (simp add: read_hex_zeros h_def read_show_hex)
  ultimately show ?thesis using l p unfolding e by simp
qed

theorem randomColor_hex_witness:
  "0 \<le> (1 / 2 :: rat) \<and> (1 / 2 :: rat) < 1 \<and>
   length (randomColor (1 / 2)) = 7 \<and> hd (randomColor (1 / 2)) = 0x23 \<and>
   list_all is_hex_lower (tl (randomColor (1 / 2))) \<and>
   int (read_hex (tl (randomColor (1 / 2)))) = \<lfloor>(1 / 2 :: rat) * 0x1000000\<rfloor>"
  using randomColor_hex [of "1 / 2"] by simp

end
