(* ===== verification/Document.thy ===== *)
theory Document
  imports JS_Values
begin

text \<open>
  The document helpers of src/index.js (lines 164-237): \<open>getScrollTop\<close>,
  \<open>setScrollTop\<close>, \<open>offset\<close>, \<open>requestAnimFrame\<close> and \<open>scrollTo\<close>. The page is a
  record: the \<open>scrollTop\<close> of \<open>document.documentElement\<close> (\<open>None\<close> when there is
  none) and of \<open>document.body\<close>, the largest scroll position, the queue of
  animation-frame callbacks, and the errors reported to the console. Positions are
  integers (CSS pixels). \<open>window.scrollTo(0, v)\<close> sets the scroll position of the
  scrolling element (the document element when there is one) clamped to the
  scrollable range. \<open>requestAnimationFrame(cb)\<close> appends \<open>cb\<close> to the queue; a
  frame runs the first callback, and an exception it throws is reported and the page
  goes on. The only callback \<open>scrollTo\<close> schedules is \<open>ScrollStep to duration diff\<close>
  (the closure over those variables; its \<open>step\<close> is \<open>diff / duration * 10\<close>). Its
  first statement calls \<open>Math.ads\<close>, which is not a function, so it throws
  \<open>TypeError\<close> before it scrolls. \<open>scrollTo\<close> takes numbers (\<open>jsnum\<close>); string
  arguments, which go through \<open>Number\<close>, are not modelled. \<open>offset\<close> walks the
  \<open>offsetParent\<close> chain of an element in a heap of elements; the loop is a
  \<open>partial_function\<close> in the option monad, \<open>None\<close> when it does not end.
\<close>

datatype frame_cb = ScrollStep int int int

record page =
  de_top :: "int option"
  body_top :: int
  max_top :: int
  frames :: "frame_cb list"
  errors :: "js_error list"

definition getScrollTop :: "page \<Rightarrow> int" where
  "getScrollTop p = (case de_top p of Some t \<Rightarrow> if t \<noteq> 0 then t else body_top p | None \<Rightarrow> body_top p)"

text \<open>\<open>window.scrollTo(0, v)\<close>.\<close>

definition scroll_window :: "page \<Rightarrow> int \<Rightarrow> page" where
  "scroll_window p v =
     (let t = max 0 (min v (max_top p))
      in case de_top p of Some _ \<Rightarrow> p\<lparr>de_top := Some t\<rparr> | None \<Rightarrow> p\<lparr>body_top := t\<rparr>)"

definition setScrollTop :: "page \<Rightarrow> int \<Rightarrow> page \<times> int" where
  "setScrollTop p v = (scroll_window p v, v)"

text \<open>\<open>requestAnimFrame\<close>: the first of the three window properties that exists, or the
  \<open>setTimeout\<close> fallback.\<close>

datatype raf_impl = RequestAnimationFrame | WebkitRequestAnimationFrame | MozRequestAnimationFrame | TimeoutFallback

definition requestAnimFrame :: "bool \<Rightarrow> bool \<Rightarrow> bool \<Rightarrow> raf_impl" where
  "requestAnimFrame std webkit moz =
     (if std then RequestAnimationFrame else if webkit then WebkitRequestAnimationFrame
      else if moz then MozRequestAnimationFrame else TimeoutFallback)"

definition scrollTo :: "page \<Rightarrow> jsnum \<Rightarrow> jsnum \<Rightarrow> js_error + page" where
  "scrollTo p to duration =
     (case to of
       NaN \<Rightarrow> Inl (Error (js ''distance must be a number or string''))
     | Num t \<Rightarrow>
         (case duration of
           NaN \<Rightarrow> Inl (Error (js ''time must be a number or string''))
         | Num d \<Rightarrow>
             if d < 0 then Inr (fst (setScrollTop p t))
             else (let diff = t - getScrollTop p
                   in if diff = 0 then Inr p
                      else Inr (p\<lparr>frames := frames p @ [ScrollStep t d diff]\<rparr>))))"

text \<open>Running one animation frame: the callback throws \<open>TypeError\<close>
  (\<open>Math.ads is not a function\<close>), which is reported.\<close>

definition run_callback :: "page \<Rightarrow> frame_cb \<Rightarrow> page" where
  "run_callback p cb = (case cb of ScrollStep t d diff \<Rightarrow> p\<lparr>errors := errors p @ [TypeError]\<rparr>)"

definition run_frame :: "page \<Rightarrow> page" where
  "run_frame p = (case frames p of [] \<Rightarrow> p | cb # rest \<Rightarrow> run_callback (p\<lparr>frames := rest\<rparr>) cb)"

text \<open>The runs of a page in which calls of \<open>scrollTo\<close> asking for a smooth scroll
  (a duration that is not negative) and animation frames interleave in any order.\<close>

inductive smooth_step :: "page \<Rightarrow> page \<Rightarrow> bool" where
  call: "scrollTo p (Num t) (Num d) = Inr p' \<Longrightarrow> 0 \<le> d \<Longrightarrow> smooth_step p p'"
| frame: "frames p \<noteq> [] \<Longrightarrow> smooth_step p (run_frame p)"

subsection \<open>offset\<close>

record elem =
  offsetLeft :: int
  offsetTop :: int
  offsetParent :: "nat option"

type_synonym heap = "nat \<Rightarrow> elem"

partial_function (option) offset_loop :: "heap \<Rightarrow> nat option \<Rightarrow> int \<times> int \<Rightarrow> (int \<times> int) option" where
  "offset_loop h ele pos =
     (case ele of
       None \<Rightarrow> Some pos
     | Some a \<Rightarrow> offset_loop h (offsetParent (h a)) (fst pos + offsetLeft (h a), snd pos + offsetTop (h a)))"

definition offset :: "heap \<Rightarrow> nat option \<Rightarrow> (int \<times> int) option" where
  "offset h ele = offset_loop h ele (0, 0)"

text \<open>The elements met from \<open>ele\<close> up the \<open>offsetParent\<close> chain, when it ends.\<close>

inductive parent_chain :: "heap \<Rightarrow> nat option \<Rightarrow> elem list \<Rightarrow> bool" where
  top: "parent_chain h None []"
| up: "parent_chain h (offsetParent (h a)) els \<Longrightarrow> parent_chain h (Some a) (h a # els)"

subsection \<open>Lemmas\<close>

lemma run_frame_tops [simp]: "de_top (run_frame p) = de_top p" "body_top (run_frame p) = body_top p"
  by (cases "frames p"; simp add: run_frame_def run_callback_def split: frame_cb.split)+

lemma getScrollTop_run_frame [simp]: "getScrollTop (run_frame p) = getScrollTop p"
  by (simp add: getScrollTop_def split: option.split)

lemma getScrollTop_frames [simp]: "getScrollTop (p\<lparr>frames := x\<rparr>) = getScrollTop p"
  by (simp add: getScrollTop_def split: option.split)

lemma scrollTo_smooth:
  "scrollTo p (Num t) (Num d) = Inr p' \<Longrightarrow> 0 \<le> d \<Longrightarrow> getScrollTop p' = getScrollTop p"
  by (auto simp: scrollTo_def Let_def split: if_splits)

lemma smooth_step_scroll: "smooth_step p q \<Longrightarrow> getScrollTop q = getScrollTop p"
  by (induction rule: smooth_step.induct) (simp_all add: scrollTo_smooth)

lemma smooth_steps_scroll: "smooth_step\<^sup>*\<^sup>* p q \<Longrightarrow> getScrollTop q = getScrollTop p"
  by (induction rule: rtranclp_induct) (simp_all add: smooth_step_scroll)

lemma offset_loop_chain:
  "parent_chain h ele els \<Longrightarrow>
   offset_loop h ele pos = Some (fst pos + sum_list (map offsetLeft els), snd pos + sum_list (map offsetTop els))"
proof (induction arbitrary: pos rule: parent_chain.induct)
  case (top h)
  then show ?case by (simp add: offset_loop.simps)
next
  case (up h a els)
  then show ?case by (simp add: offset_loop.simps [of h "Some a"] algebra_simps)
qed

lemma offset_loop_ends:
  assumes "offset_loop h ele pos = Some x"
  shows "\<exists>els. parent_chain h ele els"
proof (rule offset_loop.raw_induct [where P = "\<lambda>h ele pos x. \<exists>els. parent_chain h ele els", OF _ assms])
  fix f h ele pos x
  assume IH: "\<And>h' e' p' y. f h' e' p' = Some y \<Longrightarrow> \<exists>els. parent_chain h' e' els"
    and body: "(case ele of None \<Rightarrow> Some pos
      | Some a \<Rightarrow> f h (offsetParent (h a)) (fst pos + offsetLeft (h a), snd pos + offsetTop (h a))) = Some x"
  show "\<exists>els. parent_chain h ele els"
  proof (cases ele)
    case None
    then show ?thesis by (auto intro: parent_chain.top)
  next
    case (Some a)
    then have "f h (offsetParent (h a)) (fst pos + offsetLeft (h a), snd pos + offsetTop (h a)) = Some x"
      using body by simp
    then obtain els where "parent_chain h (offsetParent (h a)) els" by (rule IH [elim_format]) blast
    then show ?thesis using Some by (auto intro: parent_chain.up)
  qed
qed

subsection \<open>Properties\<close>

text \<open>C29: a smooth scroll never arrives: after scrollTo(to, duration) with a duration
  that is not negative and a target other than the current position, no interleaving
  of animation frames and further smooth scrollTo calls ever brings the page to the
  target, because every frame callback throws TypeError (Math.ads) before it scrolls.\<close>

theorem scrollTo_never_arrives:
  assumes "scrollTo p (Num t) (Num d) = Inr p'" "0 \<le> d" "t \<noteq> getScrollTop p" "smooth_step\<^sup>*\<^sup>* p' q"
  shows "getScrollTop q \<noteq> t"
  using smooth_steps_scroll [OF assms(4)] scrollTo_smooth [OF assms(1,2)] assms(3) by simp

theorem scrollTo_never_arrives_witness:
  "scrollTo \<lparr>de_top = Some 0, body_top = 0, max_top = 1000, frames = [], errors = []\<rparr> (Num 500) (Num 300) =
     Inr \<lparr>de_top = Some 0, body_top = 0, max_top = 1000, frames = [ScrollStep 500 300 500], errors = []\<rparr> \<and>
   (0 :: int) \<le> 300 \<and> 500 \<noteq> getScrollTop \<lparr>de_top = Some 0, body_top = 0, max_top = 1000, frames = [], errors = []\<rparr> \<and>
   smooth_step\<^sup>*\<^sup>* \<lparr>de_top = Some 0, body_top = 0, max_top = 1000, frames = [ScrollStep 500 300 500], errors = []\<rparr>
     (run_frame \<lparr>de_top = Some 0, body_top = 0, max_top = 1000, frames = [ScrollStep 500 300 500], errors = []\<rparr>) \<and>
   getScrollTop (run_frame \<lparr>de_top = Some 0, body_top = 0, max_top = 1000, frames = [ScrollStep 500 300 500], errors = []\<rparr>) \<noteq> 500"
proof -
  let ?p = "\<lparr>de_top = Some 0, body_top = 0, max_top = 1000, frames = [], errors = []\<rparr> :: page"
  let ?p' = "\<lparr>de_top = Some 0, body_top = 0, max_top = 1000, frames = [ScrollStep 500 300 500], errors = []\<rparr> :: page"
  have c: "scrollTo ?p (Num 500) (Num 300) = Inr ?p'" by (simp add: scrollTo_def getScrollTop_def)
  have s: "smooth_step\<^sup>*\<^sup>* ?p' (run_frame ?p')" by (rule r_into_rtranclp, rule smooth_step.frame) simp
  have g: "500 \<noteq> getScrollTop ?p" by (simp add: getScrollTop_def)
  show ?thesis using c s g scrollTo_never_arrives [OF c _ g s] by simp
qed

text \<open>C30: offset returns exactly when the offsetParent chain from the element ends
  (reaches null), and then returns the sums of offsetLeft and offsetTop over the
  chain; when the chain does not end (it cycles), offset gives None: the loop runs
  forever.\<close>

theorem offset_iff_chain:
  "offset h ele = Some pos \<longleftrightarrow>
   (\<exists>els. parent_chain h ele els \<and> pos = (sum_list (map offsetLeft els), sum_list (map offsetTop els)))"
proof
  assume o: "offset h ele = Some pos"
  then obtain els where c: "parent_chain h ele els" unfolding offset_def by (blast dest: offset_loop_ends)
  then have "offset h ele = Some (sum_list (map offsetLeft els), sum_list (map offsetTop els))"
    unfolding offset_def by (simp add: offset_loop_chain)
  then show "\<exists>els. parent_chain h ele els \<and> pos = (sum_list (map offsetLeft els), sum_list (map offsetTop els))"
    using c o by auto
next
  assume "\<exists>els. parent_chain h ele els \<and> pos = (sum_list (map offsetLeft els), sum_list (map offsetTop els))"
  then show "offset h ele = Some pos" unfolding offset_def by (auto simp: offset_loop_chain)
qed

end
