(* ===== verification/Deep_Clone.thy ===== *)
theory Deep_Clone
  imports JS_Values
begin

text \<open>
  \<open>deepClone\<close> of src/index.js (lines 368-404) on the values of \<open>JS_Values\<close>:
  primitives, arrays and plain objects (a \<open>Date\<close> and a function are not values of
  the model). An array or object of the result is a new allocation: the address is
  the counter \<open>n\<close> of the next free address, which the function returns advanced
  past what it allocated. The copy is allocated before its elements are cloned, as
  \<open>copy = []\<close> and \<open>copy = {}\<close> come before the loops. The \<open>for ... in\<close> loop with
  \<open>hasOwnProperty\<close> visits the own enumerable properties in order; each
  \<open>copy[key] = ...\<close> is \<open>assign_prop\<close>.
\<close>

fun deepClone :: "nat \<Rightarrow> jsval \<Rightarrow> jsval \<times> nat"
and clone_elems :: "nat \<Rightarrow> jsval list \<Rightarrow> jsval list \<times> nat"
and clone_props :: "nat \<Rightarrow> props \<Rightarrow> props \<Rightarrow> props \<times> nat" where
  "deepClone n (JArray a xs) = (let (ys, n') = clone_elems (Suc n) xs in (JArray n ys, n'))"
| "deepClone n (JObject a ps) = (let (copy, n') = clone_props (Suc n) ps [] in (JObject n copy, n'))"
| "deepClone n v = (v, n)"
| "clone_elems n [] = ([], n)"
| "clone_elems n (x # xs) = (let (y, n1) = deepClone n x; (ys, n2) = clone_elems n1 xs in (y # ys, n2))"
| "clone_props n [] copy = (copy, n)"
| "clone_props n ((k, v) # ps) copy = (let (v', n1) = deepClone n v in clone_props n1 ps (assign_prop k v' copy))"

text \<open>A value with its addresses erased: what remains when identity is ignored.\<close>

fun strip :: "jsval \<Rightarrow> jsval" where
  "strip (JArray a xs) = JArray 0 (map strip xs)"
| "strip (JObject a ps) = JObject 0 (map (\<lambda>(k, v). (k, strip v)) ps)"
| "strip v = v"

text \<open>The addresses of the arrays and objects in a value, in pre-order.\<close>

fun addrs :: "jsval \<Rightarrow> nat list" where
  "addrs (JArray a xs) = a # concat (map addrs xs)"
| "addrs (JObject a ps) = a # concat (map (\<lambda>(k, v). addrs v) ps)"
| "addrs v = []"

text \<open>A value every object of which has distinct keys and no key \<open>__proto__\<close>.\<close>

fun val_ok :: "jsval \<Rightarrow> bool" where
  "val_ok (JArray a xs) = list_all val_ok xs"
| "val_ok (JObject a ps) =
     (distinct (map fst ps) \<and> js ''__proto__'' \<notin> set (map fst ps) \<and> list_all (\<lambda>(k, v). val_ok v) ps)"
| "val_ok v = True"

subsection \<open>Lemmas\<close>

lemma clone_mono:
  "n \<le> snd (deepClone n v)" "n \<le> snd (clone_elems n xs)" "n \<le> snd (clone_props n ps copy)"
proof (induction n v and n xs and n ps copy rule: deepClone_clone_elems_clone_props.induct)
  case (5 n x xs)
  then show ?case by (auto split: prod.split) (metis le_trans prod.sel(2))
next
  case (7 n k v ps copy)
  then show ?case by (auto split: prod.split) (metis le_trans prod.sel(2))
qed (auto split: prod.split)

lemma upt_join: "a \<le> b \<Longrightarrow> b \<le> c \<Longrightarrow> [a..<b] @ [b..<c] = [a..<c]"
  by (metis le_add_diff_inverse upt_add_eq_append)

definition strip_props :: "props \<Rightarrow> props" where
  "strip_props ps = map (\<lambda>(k, v). (k, strip v)) ps"

definition props_addrs :: "props \<Rightarrow> nat list" where
  "props_addrs ps = concat (map (\<lambda>(k, v). addrs v) ps)"

lemma clone_struct:
  "val_ok v \<Longrightarrow> strip (fst (deepClone n v)) = strip v \<and> addrs (fst (deepClone n v)) = [n..<snd (deepClone n v)]"
  "list_all val_ok xs \<Longrightarrow>
     map strip (fst (clone_elems n xs)) = map strip xs \<and>
     concat (map addrs (fst (clone_elems n xs))) = [n..<snd (clone_elems n xs)]"
  "distinct (map fst ps) \<Longrightarrow> js ''__proto__'' \<notin> set (map fst ps) \<Longrightarrow> list_all (\<lambda>(k, v). val_ok v) ps \<Longrightarrow>
     set (map fst ps) \<inter> set (map fst copy) = {} \<Longrightarrow>
     strip_props (fst (clone_props n ps copy)) = strip_props copy @ strip_props ps \<and>
     props_addrs (fst (clone_props n ps copy)) = props_addrs copy @ [n..<snd (clone_props n ps copy)]"
proof (induction n v and n xs and n ps copy rule: deepClone_clone_elems_clone_props.induct)
  case (1 n a xs)
  obtain ys n' where c: "clone_elems (Suc n) xs = (ys, n')" by (cases "clone_elems (Suc n) xs")
  have "Suc n \<le> n'" using clone_mono(2) [of "Suc n" xs] c by simp
  then show ?case using 1 c by (simp add: upt_conv_Cons)
next
  case (2 n a ps)
  obtain qs n' where c: "clone_props (Suc n) ps [] = (qs, n')" by (cases "clone_props (Suc n) ps []")
  have "Suc n \<le> n'" using clone_mono(3) [of "Suc n" ps "[]"] c by simp
  then show ?case using 2 c by (simp add: upt_conv_Cons strip_props_def props_addrs_def)
next
  case (5 n x xs)
  obtain y n1 where c1: "deepClone n x = (y, n1)" by (cases "deepClone n x")
  obtain ys n2 where c2: "clone_elems n1 xs = (ys, n2)" by (cases "clone_elems n1 xs")
  have m: "n \<le> n1" "n1 \<le> n2" using clone_mono(1) [of n x] clone_mono(2) [of n1 xs] c1 c2 by simp_all
  have "strip y = strip x \<and> addrs y = [n..<n1]" using 5(1) 5(3) c1 by simp
  moreover have "map strip ys = map strip xs \<and> concat (map addrs ys) = [n1..<n2]"
    using 5(2) [OF c1 [symmetric] refl] 5(3) c2 by simp
  ultimately show ?case using c1 c2 m by (simp add: upt_join)
next
  case (7 n k v ps copy)
  obtain v' n1 where c1: "deepClone n v = (v', n1)" by (cases "deepClone n v")
  have m: "n \<le> n1" "n1 \<le> snd (clone_props n1 ps (assign_prop k v' copy))"
    using clone_mono(1) [of n v] clone_mono(3) [of n1 ps "assign_prop k v' copy"] c1 by simp_all
  have a: "assign_prop k v' copy = copy @ [(k, v')]"
    using 7(3,4,6) by (auto simp: assign_prop_def define_prop_new)
  have v: "strip v' = strip v \<and> addrs v' = [n..<n1]" using 7(1) 7(5) c1 by simp
  have "strip_props (fst (clone_props n1 ps (copy @ [(k, v')]))) = strip_props (copy @ [(k, v')]) @ strip_props ps \<and>
      props_addrs (fst (clone_props n1 ps (copy @ [(k, v')]))) =
        props_addrs (copy @ [(k, v')]) @ [n1..<snd (clone_props n1 ps (copy @ [(k, v')]))]"
    using 7(2) [OF c1 [symmetric] refl] 7(3-6) a by auto
  then show ?case using c1 a m v by (simp add: strip_props_def props_addrs_def upt_join)
qed (simp_all add: strip_props_def props_addrs_def)

text \<open>An own property named \<open>__proto__\<close>, as \<open>JSON.parse\<close> creates one, is not
  copied: the assignment sets the prototype of the copy instead.\<close>

lemma deepClone_drops_proto:
  "deepClone n (JObject a [(js ''__proto__'', JObject b [(js ''x'', JNumber (Num 1))])]) = (JObject n [], n + 2)"
  by (simp add: assign_prop_def)

subsection \<open>Properties\<close>

text \<open>C31: deepClone of a value whose objects have distinct keys and no key
  __proto__ is equal to it up to identity, and every array and object of the copy is a
  new allocation: the copy's addresses are distinct and disjoint from the original's.\<close>

theorem deepClone_fresh_copy:
  assumes "val_ok v" "list_all (\<lambda>a. a < n) (addrs v)"
  shows "strip (fst (deepClone n v)) = strip v \<and> distinct (addrs (fst (deepClone n v))) \<and>
    set (addrs (fst (deepClone n v))) \<inter> set (addrs v) = {}"
  using clone_struct(1) [OF assms(1), of n] assms(2) by (auto simp: list_all_iff)

theorem deepClone_fresh_copy_witness:
  "val_ok (JObject 0 [(js ''a'', JArray 1 [JNumber (Num 1)])]) \<and>
   list_all (\<lambda>a. a < 2) (addrs (JObject 0 [(js ''a'', JArray 1 [JNumber (Num 1)])])) \<and>
   strip (fst (deepClone 2 (JObject 0 [(js ''a'', JArray 1 [JNumber (Num 1)])]))) =
     strip (JObject 0 [(js ''a'', JArray 1 [JNumber (Num 1)])]) \<and>
   distinct (addrs (fst (deepClone 2 (JObject 0 [(js ''a'', JArray 1 [JNumber (Num 1)])])))) \<and>
   set (addrs (fst (deepClone 2 (JObject 0 [(js ''a'', JArray 1 [JNumber (Num 1)])])))) \<inter>
     set (addrs (JObject 0 [(js ''a'', JArray 1 [JNumber (Num 1)])])) = {}"
  using deepClone_fresh_copy [of "JObject 0 [(js ''a'', JArray 1 [JNumber (Num 1)])]" 2]
  by (simp add: js_def)

end
