(* ===== verification/JS_Date.thy ===== *)
theory JS_Date
  imports JS_Time
begin

text \<open>
  The time-value arithmetic of the \<open>Date\<close> builtin (ECMA-262, 21.4.1) that the
  \<open>Moment\<close> class of src/index.js calls through \<open>getFullYear\<close>, \<open>getMonth\<close>,
  \<open>getDate\<close>, \<open>getDay\<close>, \<open>setMonth\<close>, \<open>setDate\<close> and \<open>setYear\<close>. A finite time value
  is an integral number of milliseconds from the epoch; \<open>Day\<close> and
  \<open>TimeWithinDay\<close> split it at the day, \<open>DayFromYear\<close> counts the days before a
  year with the proleptic Gregorian leap rule, \<open>YearFromTime\<close> is the year whose
  first day is the last one not after the time, and \<open>MakeDay\<close> composes a day from a
  year, a month (counted from 0 and normalised modulo 12 into the year) and a date
  (added as an offset, so that dates past the end of the month run into the next).

  The specification defines \<open>YearFromTime\<close> as the largest year whose start is not
  after the time; \<open>YearFromDay\<close> computes it from the mean Gregorian year
  (146097 days in 400 years) with one correction step, and \<open>YearFromDay_spec\<close> shows
  the two agree. The round trips between \<open>MakeDay\<close> and the field getters are the
  lemmas \<open>MakeDay_fields\<close> and \<open>fields_MakeDay\<close>.
\<close>

definition msPerDay :: int where
  "msPerDay = 86400000"

definition Day :: "int \<Rightarrow> int" where
  "Day t = t div msPerDay"

definition TimeWithinDay :: "int \<Rightarrow> int" where
  "TimeWithinDay t = t mod msPerDay"

definition DaysInYear :: "int \<Rightarrow> int" where
  "DaysInYear y =
     (if y mod 4 \<noteq> 0 then 365 else if y mod 100 \<noteq> 0 then 366 else if y mod 400 \<noteq> 0 then 365 else 366)"

definition DayFromYear :: "int \<Rightarrow> int" where
  "DayFromYear y = 365 * (y - 1970) + (y - 1969) div 4 - (y - 1901) div 100 + (y - 1601) div 400"

text \<open>The year a day falls in: the estimate from the mean year is off by at most one.\<close>

definition YearFromDay :: "int \<Rightarrow> int" where
  "YearFromDay d =
     (let y = 1970 + d * 400 div 146097
      in if DayFromYear (y + 1) \<le> d then y + 1 else if d < DayFromYear y then y - 1 else y)"

definition YearFromTime :: "int \<Rightarrow> int" where
  "YearFromTime t = YearFromDay (Day t)"

definition InLeapYear :: "int \<Rightarrow> bool" where
  "InLeapYear t = (DaysInYear (YearFromTime t) = 366)"

definition DayWithinYear :: "int \<Rightarrow> int" where
  "DayWithinYear t = Day t - DayFromYear (YearFromTime t)"

text \<open>The day within the year on which each month starts.\<close>

definition month_starts :: "bool \<Rightarrow> int list" where
  "month_starts leap =
     (let l = (if leap then 1 else 0)
      in [0, 31, 59 + l, 90 + l, 120 + l, 151 + l, 181 + l, 212 + l, 243 + l, 273 + l, 304 + l, 334 + l])"

text \<open>MonthFromTime: the number of months after January that have started by the day
  within the year.\<close>

definition month_of :: "bool \<Rightarrow> int \<Rightarrow> nat" where
  "month_of leap d = length (filter (\<lambda>s. s \<le> d) (tl (month_starts leap)))"

definition MonthFromTime :: "int \<Rightarrow> nat" where
  "MonthFromTime t = month_of (InLeapYear t) (DayWithinYear t)"

definition DateFromTime :: "int \<Rightarrow> int" where
  "DateFromTime t = DayWithinYear t - month_starts (InLeapYear t) ! MonthFromTime t + 1"

definition WeekDay :: "int \<Rightarrow> int" where
  "WeekDay t = (Day t + 4) mod 7"

text \<open>MakeDay for integral arguments: the first day of month \<open>m mod 12\<close> of year
  \<open>y + floor(m / 12)\<close>, plus \<open>dt - 1\<close> days.\<close>

definition MakeDay :: "int \<Rightarrow> int \<Rightarrow> int \<Rightarrow> int" where
  "MakeDay y m dt =
     (let ym = y + m div 12; mn = nat (m mod 12)
      in DayFromYear ym + month_starts (DaysInYear ym = 366) ! mn + dt - 1)"

definition MakeDate :: "int \<Rightarrow> int \<Rightarrow> int" where
  "MakeDate day time = day * msPerDay + time"

text \<open>The number of days of month \<open>m\<close> (from 0) of year \<open>y\<close>.\<close>

definition month_len :: "int \<Rightarrow> nat \<Rightarrow> int" where
  "month_len y m =
     (if m = 11 then DaysInYear y - month_starts (DaysInYear y = 366) ! 11
      else month_starts (DaysInYear y = 366) ! Suc m - month_starts (DaysInYear y = 366) ! m)"

subsection \<open>Lemmas\<close>

lemma div_step:
  fixes a n :: int
  assumes "0 < n"
  shows "(a + 1) div n = a div n + (if (a + 1) mod n = 0 then 1 else 0)"
proof -
  define q r where "q = a div n" and "r = a mod n"
  have a: "a = r + n * q" and r: "0 \<le> r" "r < n" using assms by (simp_all add: q_def r_def)
  show ?thesis
  proof (cases "r + 1 = n")
    case True
    then have "a + 1 = 0 + n * (q + 1)" using a by (simp add: algebra_simps)
    then show ?thesis using assms by (simp add: q_def)
  next
    case False
    then have s: "0 \<le> r + 1" "r + 1 < n" using r by simp_all
    have "a + 1 = (r + 1) + q * n" using a by simp
    then have "(a + 1) div n = (r + 1) div n + q" "(a + 1) mod n = (r + 1) mod n"
      using assms by (simp_all only: div_mult_self1 mod_mult_self1)
    then show ?thesis using s r by (simp add: q_def)
  qed
qed

lemma DayFromYear_Suc: "DayFromYear (y + 1) = DayFromYear y + DaysInYear y"
proof -
  have e: "y + 1 - 1969 = (y - 1969) + 1" "y + 1 - 1901 = (y - 1901) + 1" "y + 1 - 1601 = (y - 1601) + 1"
    by simp_all
  have m: "(y - 1969 + 1) mod 4 = 0 \<longleftrightarrow> y mod 4 = 0"
          "(y - 1901 + 1) mod 100 = 0 \<longleftrightarrow> y mod 100 = 0"
          "(y - 1601 + 1) mod 400 = 0 \<longleftrightarrow> y mod 400 = 0"
    by presburger+
  have d: "y mod 100 = 0 \<Longrightarrow> y mod 4 = 0" "y mod 400 = 0 \<Longrightarrow> y mod 100 = 0" by presburger+
  show ?thesis
    unfolding DayFromYear_def DaysInYear_def
    by (simp only: e div_step [of 4] div_step [of 100] div_step [of 400] m zero_less_numeral) (use d in auto)
qed

lemma DayFromYear_bounds:
  "146097 * (y - 1970) - 607 < 400 * DayFromYear y \<and> 400 * DayFromYear y \<le> 146097 * (y - 1970) + 593"
proof -
  have a: "4 * ((y - 1969) div 4) \<le> y - 1969" "y - 1969 < 4 * ((y - 1969) div 4) + 4"
    "100 * ((y - 1901) div 100) \<le> y - 1901" "y - 1901 < 100 * ((y - 1901) div 100) + 100"
    "400 * ((y - 1601) div 400) \<le> y - 1601" "y - 1601 < 400 * ((y - 1601) div 400) + 400"
    by (simp_all add: mult_div_mod_eq [of _ "y - _", symmetric] )
  show ?thesis unfolding DayFromYear_def using a by (simp only: algebra_simps) linarith
qed

lemma DayFromYear_mono_Suc: "DayFromYear y < DayFromYear (y + 1)"
  by (simp add: DayFromYear_Suc DaysInYear_def)

lemma DayFromYear_less: "y < y' \<Longrightarrow> DayFromYear y < DayFromYear y'"
proof -
  assume "y < y'"
  then obtain k where k: "y' = y + 1 + int k" by (metis add.commute add.left_commute zless_iff_Suc_zadd
      of_nat_Suc add.assoc)
  have "DayFromYear y < DayFromYear (y + 1 + int k)"
  proof (induction k)
    case 0
    then show ?case using DayFromYear_mono_Suc by simp
  next
    case (Suc k)
    have "DayFromYear (y + 1 + int k) < DayFromYear (y + 1 + int k + 1)" by (rule DayFromYear_mono_Suc)
    then show ?case using Suc by (simp add: add.assoc)
  qed
  then show ?thesis using k by simp
qed

lemma DayFromYear_le_iff: "DayFromYear y \<le> DayFromYear y' \<longleftrightarrow> y \<le> y'"
  by (metis DayFromYear_less linorder_not_less order_less_imp_le order_less_irrefl order_le_less)

lemma YearFromDay_bounds:
  "DayFromYear (YearFromDay d) \<le> d \<and> d < DayFromYear (YearFromDay d + 1)"
proof -
  define y where "y = 1970 + d * 400 div 146097"
  have q: "146097 * (y - 1970) \<le> 400 * d" "400 * d < 146097 * (y - 1970) + 146097"
    unfolding y_def by (simp_all add: mult.commute [of d])
  have lo: "DayFromYear (y - 1) \<le> d"
    using DayFromYear_bounds [of "y - 1"] q by (simp only: algebra_simps) linarith
  have hi: "d < DayFromYear (y + 1 + 1)"
    using DayFromYear_bounds [of "y + 1 + 1"] q by (simp only: algebra_simps) linarith
  show ?thesis
    unfolding YearFromDay_def Let_def y_def [symmetric] using lo hi by auto
qed

lemma YearFromDay_eq: "YearFromDay d = y \<longleftrightarrow> DayFromYear y \<le> d \<and> d < DayFromYear (y + 1)"
proof
  assume "YearFromDay d = y"
  then show "DayFromYear y \<le> d \<and> d < DayFromYear (y + 1)" using YearFromDay_bounds by blast
next
  assume a: "DayFromYear y \<le> d \<and> d < DayFromYear (y + 1)"
  have b: "DayFromYear (YearFromDay d) \<le> d \<and> d < DayFromYear (YearFromDay d + 1)" by (rule YearFromDay_bounds)
  have "\<not> y < YearFromDay d" using a b DayFromYear_le_iff [of "y + 1" "YearFromDay d"] by auto
  moreover have "\<not> YearFromDay d < y" using a b DayFromYear_le_iff [of "YearFromDay d + 1" y] by auto
  ultimately show "YearFromDay d = y" by simp
qed

text \<open>\<open>YearFromDay\<close>, the year computed from the mean Gregorian year with one
  correction, is the year of the specification's \<open>YearFromTime\<close>: the largest year
  whose first day is not after the given day.\<close>

theorem YearFromDay_spec: "YearFromDay d = (GREATEST y. DayFromYear y \<le> d)"
proof (rule Greatest_equality [symmetric])
  show "DayFromYear (YearFromDay d) \<le> d" using YearFromDay_bounds by blast
next
  fix y assume y: "DayFromYear y \<le> d"
  show "y \<le> YearFromDay d"
  proof (rule ccontr)
    assume "\<not> y \<le> YearFromDay d"
    then have "DayFromYear (YearFromDay d + 1) \<le> DayFromYear y" using DayFromYear_le_iff by simp
    then show False using y YearFromDay_bounds [of d] by linarith
  qed
qed

lemma month_of_eq:
  assumes "m < 12" "month_starts leap ! m \<le> d" "m < 11 \<Longrightarrow> d < month_starts leap ! Suc m"
  shows "month_of leap d = m"
  using assms unfolding month_of_def month_starts_def Let_def
  by (cases leap; auto simp: less_Suc_eq numeral_eq_Suc)

lemma month_starts_range: "m < 12 \<Longrightarrow> 0 \<le> month_starts leap ! m \<and> month_starts leap ! m \<le> 335"
  unfolding month_starts_def Let_def by (cases leap; auto simp: less_Suc_eq numeral_eq_Suc)

lemma month_of_less: "month_of leap d < 12"
proof -
  have "month_of leap d \<le> length (tl (month_starts leap))" unfolding month_of_def by (rule length_filter_le)
  then show ?thesis by (simp add: month_starts_def Let_def)
qed

lemma month_of_start: "month_starts leap ! 0 \<le> d \<Longrightarrow> month_starts leap ! month_of leap d \<le> d"
  unfolding month_of_def month_starts_def Let_def by (cases leap) auto

lemma DaysInYear_range: "365 \<le> DaysInYear y \<and> DaysInYear y \<le> 366"
  by (simp add: DaysInYear_def)

lemma Day_MakeDate: "0 \<le> tm \<Longrightarrow> tm < msPerDay \<Longrightarrow> Day (MakeDate d tm) = d \<and> TimeWithinDay (MakeDate d tm) = tm"
  by (simp add: Day_def TimeWithinDay_def MakeDate_def msPerDay_def)

lemma MakeDate_Day: "MakeDate (Day t) (TimeWithinDay t) = t"
  by (simp add: Day_def TimeWithinDay_def MakeDate_def)

lemma TimeWithinDay_range: "0 \<le> TimeWithinDay t \<and> TimeWithinDay t < msPerDay"
  by (simp add: TimeWithinDay_def msPerDay_def)

lemma DayWithinYear_range: "0 \<le> DayWithinYear t \<and> DayWithinYear t < DaysInYear (YearFromTime t)"
  using YearFromDay_bounds [of "Day t"] DayFromYear_Suc [of "YearFromDay (Day t)"]
  unfolding DayWithinYear_def YearFromTime_def by linarith

lemma MakeDay_fields: "MakeDay (YearFromTime t) (int (MonthFromTime t)) (DateFromTime t) = Day t"
proof -
  have "MonthFromTime t < 12" unfolding MonthFromTime_def by (rule month_of_less)
  then have "int (MonthFromTime t) div 12 = 0" "nat (int (MonthFromTime t) mod 12) = MonthFromTime t" by simp_all
  then show ?thesis
    unfolding MakeDay_def DateFromTime_def DayWithinYear_def InLeapYear_def Let_def by simp
qed

lemma fields_MakeDay:
  assumes m: "m < 12" and dt: "1 \<le> dt" "dt \<le> month_len y m"
    and tm: "0 \<le> tm" "tm < msPerDay"
  defines "t \<equiv> MakeDate (MakeDay y (int m) dt) tm"
  shows "YearFromTime t = y \<and> MonthFromTime t = m \<and> DateFromTime t = dt \<and> TimeWithinDay t = tm"
proof -
  let ?leap = "DaysInYear y = 366"
  let ?s = "month_starts ?leap ! m"
  have mk: "MakeDay y (int m) dt = DayFromYear y + ?s + dt - 1"
    using m by (simp add: MakeDay_def)
  have day: "Day t = DayFromYear y + ?s + dt - 1" "TimeWithinDay t = tm"
    using Day_MakeDate [OF tm] mk unfolding t_def by simp_all
  have next_le: "?s + month_len y m \<le> DaysInYear y"
    using m DaysInYear_range [of y] unfolding month_len_def month_starts_def Let_def
    by (cases "DaysInYear y = 366"; auto simp: less_Suc_eq numeral_eq_Suc)
  have s0: "0 \<le> ?s" using month_starts_range [OF m] by blast
  have year: "YearFromTime t = y"
    unfolding YearFromTime_def YearFromDay_eq day DayFromYear_Suc using next_le s0 dt by linarith
  have dwy: "DayWithinYear t = ?s + dt - 1" unfolding DayWithinYear_def year day by simp
  have leap: "InLeapYear t = ?leap" unfolding InLeapYear_def year ..
  have mon: "MonthFromTime t = m"
    unfolding MonthFromTime_def leap dwy
  proof (rule month_of_eq [OF m])
    show "?s \<le> ?s + dt - 1" using dt by simp
    show "?s + dt - 1 < month_starts ?leap ! Suc m" if "m < 11"
      using that dt unfolding month_len_def by simp
  qed
  have date: "DateFromTime t = dt" unfolding DateFromTime_def mon leap dwy by simp
  show ?thesis using year mon date day by blast
qed

lemma MakeDay_add: "MakeDay y m (dt + n) = MakeDay y m dt + n"
  by (simp add: MakeDay_def Let_def)

lemma MakeDate_add: "MakeDate (d + n) tm = MakeDate d tm + n * msPerDay"
  by (simp add: MakeDate_def algebra_simps)

lemma sorted_month_starts: "sorted (month_starts leap)"
  by (cases leap) (simp_all add: month_starts_def)

lemma filter_le_sorted: "sorted xs \<Longrightarrow> filter (\<lambda>s. s \<le> d) xs = takeWhile (\<lambda>s. s \<le> (d :: int)) xs"
proof (induction xs)
  case (Cons x xs)
  show ?case
  proof (cases "x \<le> d")
    case False
    then have "\<forall>s\<in>set xs. \<not> s \<le> d" using Cons.prems by auto
    then show ?thesis using False by (simp add: filter_False)
  qed (use Cons in simp)
qed simp

lemma month_of_takeWhile: "month_of leap d = length (takeWhile (\<lambda>s. s \<le> d) (tl (month_starts leap)))"
  unfolding month_of_def using sorted_month_starts [of leap]
  by (simp add: filter_le_sorted sorted_tl)

lemma month_of_next: "month_of leap d < 11 \<Longrightarrow> d < month_starts leap ! Suc (month_of leap d)"
proof -
  assume a: "month_of leap d < 11"
  have l: "length (tl (month_starts leap)) = 11" by (simp add: month_starts_def Let_def)
  have "\<not> tl (month_starts leap) ! month_of leap d \<le> d"
    unfolding month_of_takeWhile by (rule nth_length_takeWhile) (use a l in \<open>simp add: month_of_takeWhile\<close>)
  moreover have "tl (month_starts leap) ! month_of leap d = month_starts leap ! Suc (month_of leap d)"
    using a l by (simp add: nth_tl)
  ultimately show ?thesis by simp
qed

lemma month_len_range: "m < 12 \<Longrightarrow> 28 \<le> month_len y m \<and> month_len y m \<le> 31"
  using DaysInYear_range [of y] unfolding month_len_def month_starts_def Let_def
  by (cases "DaysInYear y = 366"; auto simp: less_Suc_eq numeral_eq_Suc)

lemma MonthFromTime_less: "MonthFromTime t < 12"
  unfolding MonthFromTime_def by (rule month_of_less)

lemma DateFromTime_range: "1 \<le> DateFromTime t \<and> DateFromTime t \<le> month_len (YearFromTime t) (MonthFromTime t)"
proof -
  let ?l = "InLeapYear t" and ?d = "DayWithinYear t" and ?m = "MonthFromTime t"
  have d: "0 \<le> ?d" "?d < DaysInYear (YearFromTime t)" using DayWithinYear_range by blast+
  have s: "month_starts ?l ! ?m \<le> ?d"
    unfolding MonthFromTime_def using d by (intro month_of_start) (simp add: month_starts_def Let_def)
  have n: "?m < 11 \<Longrightarrow> ?d < month_starts ?l ! Suc ?m"
    unfolding MonthFromTime_def by (rule month_of_next)
  show ?thesis
    using s n d MonthFromTime_less [of t] unfolding DateFromTime_def month_len_def InLeapYear_def by auto
qed

lemma MakeDay_norm: "MakeDay y m dt = MakeDay (y + m div 12) (int (nat (m mod 12))) dt"
  by (simp add: MakeDay_def Let_def)

lemma MakeDay_overflow:
  assumes "mn < 12"
  shows "MakeDay y (int mn) (month_len y mn + k) = MakeDay (if mn = 11 then y + 1 else y) (int ((mn + 1) mod 12)) k"
proof (cases "mn = 11")
  case True
  then show ?thesis by (simp add: MakeDay_def month_len_def DayFromYear_Suc month_starts_def Let_def)
next
  case False
  then have "nat (1 + int mn) = Suc mn" "(mn + 1) mod 12 = Suc mn" using assms by simp_all
  then show ?thesis using False by (simp add: MakeDay_def month_len_def Let_def)
qed

end
