(* ===== verification/Moment.thy ===== *)
theory Moment
  imports JS_Date Random_Color
begin

text \<open>
  The \<open>Moment\<close> date wrapper of src/index.js (lines 519-583): \<open>clone\<close>, \<open>pad\<close>, the
  constructor and the prototype methods \<open>addMonths\<close>, \<open>addDate\<close>, \<open>format\<close>,
  \<open>year\<close>, \<open>month\<close>, \<open>date\<close> and \<open>day\<close>. A \<open>Moment\<close> object is the record of its
  field \<open>d\<close>, the time value of the \<open>Date\<close> it wraps (\<open>NaN\<close> for an invalid date).
  The \<open>Date\<close> methods it calls are modelled from the specification over \<open>JS_Date\<close>:
  local time is the time value plus the host offset \<open>tza\<close>, a fixed number of
  milliseconds (daylight-saving changes of the offset are not modelled), and the clock
  is the parameter \<open>now\<close>, the time value \<open>new Date()\<close> takes. Each method returns
  its result (\<open>this\<close>, a number or a string) with the updated object; the arguments
  of the setters are numbers or absent, those of \<open>addMonths\<close> and \<open>addDate\<close>
  integers. The objects reachable from the constructor by any sequence of method calls
  are the inductive set \<open>moment_reach\<close>.
\<close>

record moment =
  moment_d :: jsnum

datatype mres = RThis | RNum jsnum | RStr jsstr

subsection \<open>The Date methods Moment calls\<close>

definition LocalTime :: "int \<Rightarrow> int \<Rightarrow> int" where
  "LocalTime tza t = t + tza"

definition UTC :: "int \<Rightarrow> int \<Rightarrow> int" where
  "UTC tza t = t - tza"

definition local_field :: "(int \<Rightarrow> int) \<Rightarrow> int \<Rightarrow> jsnum \<Rightarrow> jsnum" where
  "local_field f tza tv = (case tv of NaN \<Rightarrow> NaN | Num t \<Rightarrow> Num (f (LocalTime tza t)))"

definition getFullYear :: "int \<Rightarrow> jsnum \<Rightarrow> jsnum" where
  "getFullYear = local_field YearFromTime"

definition getMonth :: "int \<Rightarrow> jsnum \<Rightarrow> jsnum" where
  "getMonth = local_field (\<lambda>t. int (MonthFromTime t))"

definition getDate :: "int \<Rightarrow> jsnum \<Rightarrow> jsnum" where
  "getDate = local_field DateFromTime"

definition getDay :: "int \<Rightarrow> jsnum \<Rightarrow> jsnum" where
  "getDay = local_field WeekDay"

text \<open>\<open>setMonth(m)\<close> and \<open>setDate(dt)\<close>: an invalid date stays invalid; otherwise the
  local date is recomposed with the new month or date and clipped.\<close>

definition setMonth :: "int \<Rightarrow> jsnum \<Rightarrow> jsnum \<Rightarrow> jsnum" where
  "setMonth tza m tv =
     (case tv of NaN \<Rightarrow> NaN
      | Num t \<Rightarrow> (case m of NaN \<Rightarrow> NaN
         | Num mi \<Rightarrow> (let lt = LocalTime tza t
                     in time_clip (Num (UTC tza (MakeDate (MakeDay (YearFromTime lt) mi (DateFromTime lt))
                                                  (TimeWithinDay lt)))))))"

definition setDate :: "int \<Rightarrow> jsnum \<Rightarrow> jsnum \<Rightarrow> jsnum" where
  "setDate tza dt tv =
     (case tv of NaN \<Rightarrow> NaN
      | Num t \<Rightarrow> (case dt of NaN \<Rightarrow> NaN
         | Num di \<Rightarrow> (let lt = LocalTime tza t
                     in time_clip (Num (UTC tza (MakeDate (MakeDay (YearFromTime lt) (int (MonthFromTime lt)) di)
                                                  (TimeWithinDay lt)))))))"

text \<open>\<open>setYear(y)\<close> (Annex B): an invalid date counts as time 0 (not shifted to local
  time), and a year from 0 to 99 means 1900 to 1999.\<close>

definition setYear :: "int \<Rightarrow> jsnum \<Rightarrow> jsnum \<Rightarrow> jsnum" where
  "setYear tza y tv =
     (let t = (case tv of NaN \<Rightarrow> 0 | Num t \<Rightarrow> LocalTime tza t)
      in case y of NaN \<Rightarrow> NaN
         | Num yi \<Rightarrow> (let yyyy = (if 0 \<le> yi \<and> yi \<le> 99 then 1900 + yi else yi)
                     in time_clip (Num (UTC tza (MakeDate (MakeDay yyyy (int (MonthFromTime t)) (DateFromTime t))
                                                  (TimeWithinDay t))))))"

text \<open>\<open>NaN + n\<close> and \<open>String(x)\<close> of a number.\<close>

definition num_add :: "jsnum \<Rightarrow> int \<Rightarrow> jsnum" where
  "num_add x n = (case x of NaN \<Rightarrow> NaN | Num k \<Rightarrow> Num (k + n))"

definition num_str :: "jsnum \<Rightarrow> jsstr" where
  "num_str x = to_string (JNumber x)"

text \<open>\<open>s.replace(p, r)\<close> with a string pattern: the first occurrence of \<open>p\<close> is
  replaced by \<open>r\<close> (a replacement without \<open>$\<close>).\<close>

fun str_replace :: "jsstr \<Rightarrow> jsstr \<Rightarrow> jsstr \<Rightarrow> jsstr" where
  "str_replace p r s =
     (if take (length p) s = p then r @ drop (length p) s
      else case s of [] \<Rightarrow> [] | c # s' \<Rightarrow> c # str_replace p r s')"

declare str_replace.simps [simp del]

subsection \<open>Moment\<close>

text \<open>\<open>clone(d)\<close>: \<open>new Date(d.getTime())\<close>.\<close>

definition clone :: "jsnum \<Rightarrow> jsnum" where
  "clone tv = time_clip tv"

text \<open>\<open>pad(v)\<close>: \<open>('0' + v).slice(-2)\<close>.\<close>

definition pad :: "jsnum \<Rightarrow> jsstr" where
  "pad v = slice_last (0x30 # num_str v) 2"

text \<open>The constructor's argument: another \<open>Moment\<close>, a \<open>Date\<close> (its time value), a
  number, or a falsy value that is not a number (\<open>undefined\<close>, \<open>null\<close>, \<open>false\<close>,
  the empty string).\<close>

datatype moment_arg = MArgMoment moment | MArgDate jsnum | MArgNumber jsnum | MArgFalsy

definition Moment :: "int \<Rightarrow> moment_arg \<Rightarrow> moment" where
  "Moment now arg =
     (case arg of
       MArgMoment m \<Rightarrow> \<lparr>moment_d = clone (moment_d m)\<rparr>
     | MArgDate tv \<Rightarrow> \<lparr>moment_d = time_clip tv\<rparr>
     | MArgNumber x \<Rightarrow> if \<not> truthy (JNumber x) then \<lparr>moment_d = Num now\<rparr> else \<lparr>moment_d = time_clip x\<rparr>
     | MArgFalsy \<Rightarrow> \<lparr>moment_d = Num now\<rparr>)"

definition addMonths :: "int \<Rightarrow> int \<Rightarrow> moment \<Rightarrow> mres \<times> moment" where
  "addMonths tza n m =
     (let d = moment_d m in (RThis, m\<lparr>moment_d := setMonth tza (num_add (getMonth tza d) n) d\<rparr>))"

definition addDate :: "int \<Rightarrow> int \<Rightarrow> moment \<Rightarrow> mres \<times> moment" where
  "addDate tza n m =
     (let d = moment_d m in (RThis, m\<lparr>moment_d := setDate tza (num_add (getDate tza d) n) d\<rparr>))"

definition format :: "int \<Rightarrow> jsstr option \<Rightarrow> moment \<Rightarrow> mres \<times> moment" where
  "format tza str m =
     (let s = (case str of None \<Rightarrow> js ''YYYY-MM-DD'' | Some x \<Rightarrow> if x = [] then js ''YYYY-MM-DD'' else x);
          d = moment_d m
      in (RStr (str_replace (js ''d'') (num_str (getDay tza d))
                 (str_replace (js ''DD'') (pad (getDate tza d))
                   (str_replace (js ''MM'') (pad (num_add (getMonth tza d) 1))
                     (str_replace (js ''YYYY'') (num_str (getFullYear tza d)) s)))), m))"

text \<open>\<open>if (n)\<close>: an absent argument, \<open>0\<close> and \<open>NaN\<close> are falsy.\<close>

definition arg_truthy :: "jsnum option \<Rightarrow> bool" where
  "arg_truthy n = (case n of None \<Rightarrow> False | Some x \<Rightarrow> truthy (JNumber x))"

definition year :: "int \<Rightarrow> jsnum option \<Rightarrow> moment \<Rightarrow> mres \<times> moment" where
  "year tza n m =
     (if arg_truthy n then (RThis, m\<lparr>moment_d := setYear tza (the n) (moment_d m)\<rparr>)
      else (RNum (getFullYear tza (moment_d m)), m))"

definition month :: "int \<Rightarrow> jsnum option \<Rightarrow> moment \<Rightarrow> mres \<times> moment" where
  "month tza n m =
     (if arg_truthy n then (RThis, m\<lparr>moment_d := setMonth tza (the n) (moment_d m)\<rparr>)
      else (RNum (getMonth tza (moment_d m)), m))"

definition date :: "int \<Rightarrow> jsnum option \<Rightarrow> moment \<Rightarrow> mres \<times> moment" where
  "date tza n m =
     (if arg_truthy n then (RThis, m\<lparr>moment_d := setDate tza (the n) (moment_d m)\<rparr>)
      else (RNum (getDate tza (moment_d m)), m))"

definition day :: "int \<Rightarrow> moment \<Rightarrow> mres \<times> moment" where
  "day tza m = (RNum (getDay tza (moment_d m)), m)"

subsection \<open>Calls and reachable objects\<close>

datatype moment_op =
    OpAddMonths int | OpAddDate int | OpFormat "jsstr option"
  | OpYear "jsnum option" | OpMonth "jsnum option" | OpDate "jsnum option" | OpDay

fun moment_call :: "int \<Rightarrow> moment_op \<Rightarrow> moment \<Rightarrow> mres \<times> moment" where
  "moment_call tza (OpAddMonths n) m = addMonths tza n m"
| "moment_call tza (OpAddDate n) m = addDate tza n m"
| "moment_call tza (OpFormat s) m = format tza s m"
| "moment_call tza (OpYear n) m = year tza n m"
| "moment_call tza (OpMonth n) m = month tza n m"
| "moment_call tza (OpDate n) m = date tza n m"
| "moment_call tza OpDay m = day tza m"

text \<open>The objects a program can hold: made by the constructor from a \<open>Date\<close>, a
  number, a falsy value or a reachable \<open>Moment\<close>, or returned by a method call on a
  reachable one.\<close>

inductive moment_reach :: "int \<Rightarrow> int \<Rightarrow> moment \<Rightarrow> bool" for now tza where
  new: "(case arg of MArgMoment m \<Rightarrow> False | _ \<Rightarrow> True) \<Longrightarrow> moment_reach now tza (Moment now arg)"
| copy: "moment_reach now tza m \<Longrightarrow> moment_reach now tza (Moment now (MArgMoment m))"
| call: "moment_reach now tza m \<Longrightarrow> moment_reach now tza (snd (moment_call tza op m))"

text \<open>A number from 0 to 99 on two decimal digits.\<close>

definition two_digits :: "int \<Rightarrow> jsstr" where
  "two_digits k = [48 + word_of_nat (nat k div 10), 48 + word_of_nat (nat k mod 10)]"

text \<open>A time value: \<open>NaN\<close> or at most 8.64e15 ms from the epoch.\<close>

definition tv_ok :: "jsnum \<Rightarrow> bool" where
  "tv_ok tv = (case tv of NaN \<Rightarrow> True | Num t \<Rightarrow> \<bar>t\<bar> \<le> 8640000000000000)"

subsection \<open>Lemmas\<close>

lemma tv_ok_time_clip: "tv_ok (time_clip x)"
  by (simp add: tv_ok_def time_clip_def split: jsnum.split)

lemma tv_ok_NaN: "tv_ok NaN"
  by (simp add: tv_ok_def)

lemma tv_ok_setters: "tv_ok (setMonth tza m tv)" "tv_ok (setDate tza m tv)" "tv_ok (setYear tza m tv)"
  by (simp_all add: setMonth_def setDate_def setYear_def Let_def tv_ok_time_clip tv_ok_NaN split: jsnum.split)

lemma tv_ok_Moment: "tv_ok (Num now) \<Longrightarrow> tv_ok (moment_d (Moment now arg))"
  by (simp add: Moment_def clone_def tv_ok_time_clip split: moment_arg.split)

lemma tv_ok_moment_call: "tv_ok (moment_d m) \<Longrightarrow> tv_ok (moment_d (snd (moment_call tza op m)))"
  by (cases op) (simp_all add: addMonths_def addDate_def format_def year_def month_def date_def day_def
      Let_def tv_ok_setters)

text \<open>Every \<open>Moment\<close> a program can reach, from the constructor through any
  sequence of method calls with any arguments, holds a time value: \<open>NaN\<close> or at most
  8.64e15 ms from the epoch, provided the clock does.\<close>

theorem moment_reach_tv_ok:
  assumes "tv_ok (Num now)" and "moment_reach now tza m"
  shows "tv_ok (moment_d m)"
  using assms(2)
proof (induction rule: moment_reach.induct)
  case (new arg)
  show ?case by (rule tv_ok_Moment [OF assms(1)])
next
  case (copy m)
  show ?case by (rule tv_ok_Moment [OF assms(1)])
next
  case (call m op)
  then show ?case using tv_ok_moment_call by blast
qed

lemma UTC_LocalTime [simp]: "UTC tza (LocalTime tza t) = t"
  by (simp add: UTC_def LocalTime_def)

text \<open>C34: \<open>addDate(n)\<close> moves a valid moment by exactly \<open>n\<close> days, across month
  and year ends (and makes it invalid when that leaves the time-value range); an
  invalid moment stays invalid.\<close>

theorem addDate_days:
  "addDate tza n m =
     (RThis, m\<lparr>moment_d := (case moment_d m of NaN \<Rightarrow> NaN | Num t \<Rightarrow> time_clip (Num (t + n * msPerDay)))\<rparr>)"
proof (cases "moment_d m")
  case NaN
  then show ?thesis by (simp add: addDate_def setDate_def)
next
  case (Num t)
  let ?lt = "LocalTime tza t"
  have "MakeDate (MakeDay (YearFromTime ?lt) (int (MonthFromTime ?lt)) (DateFromTime ?lt + n)) (TimeWithinDay ?lt)
        = ?lt + n * msPerDay"
    by (simp only: MakeDay_add MakeDay_fields MakeDate_add MakeDate_Day)
  then have "UTC tza (MakeDate (MakeDay (YearFromTime ?lt) (int (MonthFromTime ?lt)) (DateFromTime ?lt + n))
        (TimeWithinDay ?lt)) = t + n * msPerDay"
    by (simp add: UTC_def LocalTime_def)
  then show ?thesis using Num
    by (simp add: addDate_def setDate_def getDate_def local_field_def num_add_def Let_def)
qed

text \<open>C35: Setting the day of the month with \<open>date(n)\<close>, for a day the current month
  has, and reading it back with \<open>date()\<close> gives \<open>n\<close>.\<close>

theorem date_roundtrip:
  assumes n: "1 \<le> n" "n \<le> month_len (YearFromTime (LocalTime tza t)) (MonthFromTime (LocalTime tza t))"
    and t: "\<bar>t\<bar> \<le> 8640000000000000 - 30 * msPerDay"
  shows "fst (date tza None (snd (date tza (Some (Num n)) \<lparr>moment_d = Num t\<rparr>))) = RNum (Num n)"
proof -
  let ?lt = "LocalTime tza t"
  let ?Y = "YearFromTime ?lt" and ?M = "MonthFromTime ?lt" and ?D = "DateFromTime ?lt"
    and ?w = "TimeWithinDay ?lt"
  let ?nl = "MakeDate (MakeDay ?Y (int ?M) n) ?w"
  have M: "?M < 12" by (rule MonthFromTime_less)
  have w: "0 \<le> ?w" "?w < msPerDay" using TimeWithinDay_range by blast+
  have D: "1 \<le> ?D" "?D \<le> month_len ?Y ?M" using DateFromTime_range by blast+
  have len: "month_len ?Y ?M \<le> 31" using month_len_range [OF M] by blast
  have "?nl = MakeDate (MakeDay ?Y (int ?M) ?D + (n - ?D)) ?w"
    by (simp only: MakeDay_add [symmetric]) simp
  also have "\<dots> = ?lt + (n - ?D) * msPerDay"
    by (simp only: MakeDay_fields MakeDate_add MakeDate_Day)
  finally have nl: "UTC tza ?nl = t + (n - ?D) * msPerDay" by (simp add: UTC_def LocalTime_def)
  have "\<bar>n - ?D\<bar> \<le> 30" using n D len by linarith
  then have "\<bar>(n - ?D) * msPerDay\<bar> \<le> 30 * msPerDay" by (simp add: abs_mult msPerDay_def)
  then have clip: "time_clip (Num (UTC tza ?nl)) = Num (UTC tza ?nl)"
    unfolding nl time_clip_def using t by (simp add: msPerDay_def)
  have loc: "LocalTime tza (UTC tza ?nl) = ?nl" by (simp add: UTC_def LocalTime_def)
  have "DateFromTime ?nl = n"
    using fields_MakeDay [OF M n(1) n(2) w] by blast
  then show ?thesis using n(1)
    by (simp add: date_def setDate_def arg_truthy_def getDate_def local_field_def Let_def clip loc)
qed

lemma str_replace_prefix: "take (length p) s = p \<Longrightarrow> str_replace p r s = r @ drop (length p) s"
  by (simp add: str_replace.simps)

lemma str_replace_Cons: "p \<noteq> [] \<Longrightarrow> hd p \<noteq> c \<Longrightarrow> str_replace p r (c # s) = c # str_replace p r s"
  by (subst str_replace.simps) (cases p; simp)

lemma str_replace_append: "p \<noteq> [] \<Longrightarrow> hd p \<notin> set u \<Longrightarrow> str_replace p r (u @ s) = u @ str_replace p r s"
  by (induction u) (simp_all add: str_replace_Cons)

lemma str_replace_absent: "p \<noteq> [] \<Longrightarrow> hd p \<notin> set s \<Longrightarrow> str_replace p r s = s"
  using str_replace_append [of p s r "[]"] by (simp add: str_replace.simps)

lemma show_int_chars: "c \<in> set (show_int i) \<Longrightarrow> c = 45 \<or> 48 \<le> c \<and> c \<le> 57"
  using show_nat_digits by (auto simp: show_int_def split: if_splits)

lemma digit_cu: "m < 10 \<Longrightarrow> 48 \<le> (48 + word_of_nat m :: cu) \<and> (48 + word_of_nat m :: cu) \<le> 57"
  by (simp add: cu_le_iff_unat unat_digit)

lemma two_digits_chars: "k \<le> 99 \<Longrightarrow> c \<in> set (two_digits k) \<Longrightarrow> 48 \<le> c \<and> c \<le> 57"
  unfolding two_digits_def using digit_cu [of "nat k div 10"] digit_cu [of "nat k mod 10"] by auto

lemma pad_two_digits:
  assumes "1 \<le> k" "k \<le> 99"
  shows "pad (Num k) = two_digits k"
proof -
  define n where "n = nat k"
  have k: "k = int n" "1 \<le> n" "n \<le> 99" using assms by (simp_all add: n_def)
  show ?thesis
  proof (cases "n < 10")
    case True
    then have "show_nat n = [48 + word_of_nat n]" by (subst show_nat.simps) simp
    then show ?thesis using True k
      by (simp add: pad_def num_str_def show_int_def slice_last_def two_digits_def)
  next
    case False
    have "n div 10 < 10" using k by simp
    then have "show_nat n = [48 + word_of_nat (n div 10), 48 + word_of_nat (n mod 10)]"
      using False by (subst show_nat.simps) (simp add: show_nat.simps)
    then show ?thesis using k
      by (simp add: pad_def num_str_def show_int_def slice_last_def two_digits_def)
  qed
qed

text \<open>C37: \<open>format()\<close> writes the local year as \<open>String\<close> writes it (no padding
  to four digits), then the month and the day on two digits, separated by hyphens;
  an invalid moment gives 'NaN-aN-aN'.\<close>

theorem format_default:
  "fst (format tza None m) =
     RStr (case moment_d m of
             NaN \<Rightarrow> js ''NaN-aN-aN''
           | Num t \<Rightarrow> (let lt = LocalTime tza t
                      in show_int (YearFromTime lt) @ 45 # two_digits (int (MonthFromTime lt) + 1) @
                         45 # two_digits (DateFromTime lt)))"
proof (cases "moment_d m")
  case NaN
  then show ?thesis
    by (simp add: format_def getDay_def getDate_def getMonth_def getFullYear_def local_field_def
        num_add_def num_str_def pad_def slice_last_def js_def str_replace.simps)
next
  case (Num t)
  let ?lt = "LocalTime tza t"
  let ?ys = "show_int (YearFromTime ?lt)" and ?mm = "two_digits (int (MonthFromTime ?lt) + 1)"
    and ?dd = "two_digits (DateFromTime ?lt)"
  have mm: "pad (Num (int (MonthFromTime ?lt) + 1)) = ?mm"
    using MonthFromTime_less [of ?lt] by (intro pad_two_digits) simp_all
  have dd: "pad (Num (DateFromTime ?lt)) = ?dd"
    using DateFromTime_range [of ?lt] month_len_range [of "MonthFromTime ?lt" "YearFromTime ?lt"]
      MonthFromTime_less [of ?lt]
    by (intro pad_two_digits) simp_all
  have ys: "77 \<notin> set ?ys" "68 \<notin> set ?ys" "100 \<notin> set ?ys" using show_int_chars by fastforce+
  have "DateFromTime ?lt \<le> 99" "int (MonthFromTime ?lt) + 1 \<le> 99"
    using DateFromTime_range [of ?lt] month_len_range [of "MonthFromTime ?lt" "YearFromTime ?lt"]
      MonthFromTime_less [of ?lt] by simp_all
  then have tw: "68 \<notin> set ?mm" "100 \<notin> set ?mm" "100 \<notin> set ?dd"
    using two_digits_chars by fastforce+
  have fmt: "js ''YYYY-MM-DD'' = [89, 89, 89, 89] @ 45 # [77, 77] @ 45 # [68, 68]" by (simp add: js_def)
  have "fst (format tza None m) =
     RStr (str_replace [100] (num_str (getDay tza (Num t)))
       (str_replace [68, 68] ?dd (str_replace [77, 77] ?mm (?ys @ 45 # [77, 77] @ 45 # [68, 68]))))"
    using Num mm dd
    by (simp add: format_def getDate_def getMonth_def getFullYear_def local_field_def num_add_def
        num_str_def fmt str_replace_prefix js_def)
  also have "\<dots> = RStr (?ys @ 45 # ?mm @ 45 # ?dd)"
    using ys tw by (simp add: str_replace_append str_replace_Cons str_replace_prefix str_replace_absent)
  finally show ?thesis using Num by (simp add: Let_def)
qed

lemma local_field_clip:
  "\<bar>UTC tza x\<bar> \<le> 8640000000000000 \<Longrightarrow> local_field f tza (time_clip (Num (UTC tza x))) = Num (f x)"
  by (simp add: local_field_def time_clip_def UTC_def LocalTime_def)

text \<open>C36: \<open>addMonths(n)\<close> keeps the day of the month when the target month has
  it, and otherwise runs over into the next month: from January 31 it lands on March 3
  (March 2 in a leap year).\<close>

theorem addMonths_fields:
  fixes tza n t :: int
  assumes t: "moment_d m = Num t"
  defines "lt \<equiv> LocalTime tza t"
  defines "ym \<equiv> YearFromTime lt + (int (MonthFromTime lt) + n) div 12"
    and "mn \<equiv> nat ((int (MonthFromTime lt) + n) mod 12)"
  assumes r: "\<bar>UTC tza (MakeDate (MakeDay (YearFromTime lt) (int (MonthFromTime lt) + n) (DateFromTime lt))
                (TimeWithinDay lt))\<bar> \<le> 8640000000000000"
  shows "(getFullYear tza (moment_d (snd (addMonths tza n m))),
          getMonth tza (moment_d (snd (addMonths tza n m))),
          getDate tza (moment_d (snd (addMonths tza n m)))) =
         (if DateFromTime lt \<le> month_len ym mn then (Num ym, Num (int mn), Num (DateFromTime lt))
          else (Num (if mn = 11 then ym + 1 else ym), Num (int ((mn + 1) mod 12)),
                Num (DateFromTime lt - month_len ym mn)))"
proof -
  let ?D = "DateFromTime lt" and ?w = "TimeWithinDay lt"
  let ?x = "MakeDate (MakeDay (YearFromTime lt) (int (MonthFromTime lt) + n) ?D) ?w"
  have mn: "mn < 12" unfolding mn_def by simp
  have w: "0 \<le> ?w" "?w < msPerDay" using TimeWithinDay_range by blast+
  have D: "1 \<le> ?D" "?D \<le> 31"
    using DateFromTime_range [of lt] month_len_range [of "MonthFromTime lt" "YearFromTime lt"]
      MonthFromTime_less [of lt] by simp_all
  have set: "moment_d (snd (addMonths tza n m)) = time_clip (Num (UTC tza ?x))"
    using t by (simp add: addMonths_def setMonth_def getMonth_def local_field_def num_add_def lt_def Let_def)
  have x: "?x = MakeDate (MakeDay ym (int mn) ?D) ?w"
    by (simp add: MakeDay_norm [of "YearFromTime lt"] ym_def mn_def)
  have f: "\<And>f. local_field f tza (moment_d (snd (addMonths tza n m))) = Num (f ?x)"
    unfolding set using r by (rule local_field_clip)
  show ?thesis
  proof (cases "?D \<le> month_len ym mn")
    case True
    have "YearFromTime ?x = ym \<and> MonthFromTime ?x = mn \<and> DateFromTime ?x = ?D"
      unfolding x using fields_MakeDay [OF mn D(1) True w] by blast
    then show ?thesis using True f by (simp add: getFullYear_def getMonth_def getDate_def)
  next
    case False
    let ?k = "?D - month_len ym mn"
    have k: "1 \<le> ?k" "?k \<le> 3" using False D month_len_range [OF mn, of ym] by linarith+
    have m2: "(mn + 1) mod 12 < 12" by simp
    have "?k \<le> month_len (if mn = 11 then ym + 1 else ym) ((mn + 1) mod 12)"
      using k month_len_range [OF m2, of "if mn = 11 then ym + 1 else ym"] by linarith
    note fm = fields_MakeDay [OF m2 k(1) this w]
    have "?x = MakeDate (MakeDay (if mn = 11 then ym + 1 else ym) (int ((mn + 1) mod 12)) ?k) ?w"
      unfolding x using MakeDay_overflow [OF mn, of ym ?k] by simp
    then show ?thesis using False f fm by (simp add: getFullYear_def getMonth_def getDate_def)
  qed
qed

text \<open>\<open>year()\<close> returns the specification's \<open>YearFromTime\<close> of the local time: the
  largest year whose first day is not after the local day of the moment (and \<open>NaN\<close> for
  an invalid moment).\<close>

theorem year_getter_spec:
  "fst (year tza None m) =
     RNum (case moment_d m of NaN \<Rightarrow> NaN
           | Num t \<Rightarrow> Num (GREATEST y. DayFromYear y \<le> Day (LocalTime tza t)))"
  by (cases "moment_d m")
     (simp_all add: year_def arg_truthy_def getFullYear_def local_field_def YearFromTime_def YearFromDay_spec)

theorem moment_reach_tv_ok_witness:
  "tv_ok (Num 0) \<and> moment_reach 0 0 (snd (moment_call 0 (OpAddMonths 1) (Moment 0 MArgFalsy))) \<and>
   tv_ok (moment_d (snd (moment_call 0 (OpAddMonths 1) (Moment 0 MArgFalsy))))"
proof -
  have r: "moment_reach 0 0 (snd (moment_call 0 (OpAddMonths 1) (Moment 0 MArgFalsy)))"
    by (intro moment_reach.call moment_reach.new) simp
  have t: "tv_ok (Num 0)" by (simp add: tv_ok_def)
  show ?thesis using moment_reach_tv_ok [OF t r] r t by simp
qed

theorem date_roundtrip_witness:
  "15 \<le> month_len (YearFromTime (LocalTime 0 1612051200000)) (MonthFromTime (LocalTime 0 1612051200000)) \<and>
   fst (date 0 None (snd (date 0 (Some (Num 15)) \<lparr>moment_d = Num 1612051200000\<rparr>))) = RNum (Num 15)"
proof -
  have h: "15 \<le> month_len (YearFromTime (LocalTime 0 1612051200000)) (MonthFromTime (LocalTime 0 1612051200000))"
    by code_simp
  have b: "\<bar>1612051200000::int\<bar> \<le> 8640000000000000 - 30 * msPerDay" by (simp add: msPerDay_def)
  show ?thesis using date_roundtrip [of 15 0 1612051200000, OF _ h b] h by simp
qed

theorem addMonths_fields_witness:
  "\<bar>UTC 0 (MakeDate (MakeDay (YearFromTime (LocalTime 0 1612051200000)) (int (MonthFromTime (LocalTime 0 1612051200000)) + 1)
     (DateFromTime (LocalTime 0 1612051200000))) (TimeWithinDay (LocalTime 0 1612051200000)))\<bar> \<le> 8640000000000000 \<and>
   (getFullYear 0 (moment_d (snd (addMonths 0 1 \<lparr>moment_d = Num 1612051200000\<rparr>))),
    getMonth 0 (moment_d (snd (addMonths 0 1 \<lparr>moment_d = Num 1612051200000\<rparr>))),
    getDate 0 (moment_d (snd (addMonths 0 1 \<lparr>moment_d = Num 1612051200000\<rparr>)))) = (Num 2021, Num 2, Num 3)"
proof -
  have r: "\<bar>UTC 0 (MakeDate (MakeDay (YearFromTime (LocalTime 0 1612051200000)) (int (MonthFromTime (LocalTime 0 1612051200000)) + 1)
     (DateFromTime (LocalTime 0 1612051200000))) (TimeWithinDay (LocalTime 0 1612051200000)))\<bar> \<le> 8640000000000000"
    by code_simp
  have f: "(if DateFromTime (LocalTime 0 1612051200000)
              \<le> month_len (YearFromTime (LocalTime 0 1612051200000) + (int (MonthFromTime (LocalTime 0 1612051200000)) + 1) div 12)
                   (nat ((int (MonthFromTime (LocalTime 0 1612051200000)) + 1) mod 12))
           then (Num (YearFromTime (LocalTime 0 1612051200000) + (int (MonthFromTime (LocalTime 0 1612051200000)) + 1) div 12),
                 Num (int (nat ((int (MonthFromTime (LocalTime 0 1612051200000)) + 1) mod 12))),
                 Num (DateFromTime (LocalTime 0 1612051200000)))
           else (Num (if nat ((int (MonthFromTime (LocalTime 0 1612051200000)) + 1) mod 12) = 11
                      then YearFromTime (LocalTime 0 1612051200000) + (int (MonthFromTime (LocalTime 0 1612051200000)) + 1) div 12 + 1
                      else YearFromTime (LocalTime 0 1612051200000) + (int (MonthFromTime (LocalTime 0 1612051200000)) + 1) div 12),
                 Num (int ((nat ((int (MonthFromTime (LocalTime 0 1612051200000)) + 1) mod 12) + 1) mod 12)),
                 Num (DateFromTime (LocalTime 0 1612051200000) -
                      month_len (YearFromTime (LocalTime 0 1612051200000) + (int (MonthFromTime (LocalTime 0 1612051200000)) + 1) div 12)
                        (nat ((int (MonthFromTime (LocalTime 0 1612051200000)) + 1) mod 12))))) = (Num 2021, Num 2, Num 3)"
    by code_simp
  show ?thesis using addMonths_fields [of "\<lparr>moment_d = Num 1612051200000\<rparr>" 1612051200000 0 1, OF _ r] r f by simp
qed

end
