(* ===== verification/Digit_Uppercase.thy ===== *)
theory Digit_Uppercase
  imports JS_Regex JS_Values Complex_Main
begin

text \<open>
  \<open>digitUppercase\<close> of src/index.js (lines 474-508), which writes an amount of money
  in the upper-case Chinese numerals of cheques. The argument is a number or a string;
  \<open>Number(num)\<close> of a string is modelled for the decimal literals (sign, digits, an
  optional fraction) and the strings that are not numbers, and the forms with an
  exponent, a radix prefix or \<open>Infinity\<close> are outside the model (the result is
  \<open>None\<close>). Numbers are exact rationals: the products \<open>num * 10 * 10^i\<close> are exact,
  where IEEE arithmetic may round. The function returns the console output with its
  value: \<open>false\<close> after the message for an argument that is not a number, and the
  string otherwise.

  The string is built in three steps, as in the source: the two fraction digits, each
  followed by its unit and deleted when the digit is zero (the pattern zero-any); then
  at most three groups of four integer digits from the lowest, each digit followed by
  its position unit, the group's trailing zeros deleted (\<open>(zero any)* zero $\<close>)
  or the whole group written as a single zero, and the group unit (yuan, wan, yi, for
  1, 10^4 and 10^8) appended; then the clean-up of the whole string: zeros before yuan
  (\<open>(zero any)* zero yuan\<close>), runs of zeros (\<open>(zero any)+\<close> with the \<open>g\<close>
  flag, the one global replacement) and a lone zheng ("whole"). Below, \<open>ling\<close>,
  \<open>yuan\<close>, \<open>zheng\<close> and \<open>qian\<close> name the code units of the characters for zero,
  yuan, "whole" and "owing" (the sign).
\<close>

subsection \<open>Number(num)\<close>

definition trim_js :: "jsstr \<Rightarrow> jsstr" where
  "trim_js s = rev (dropWhile is_js_space (rev (dropWhile is_js_space s)))"

definition digits_val :: "jsstr \<Rightarrow> nat" where
  "digits_val ds = foldl (\<lambda>acc d. 10 * acc + (unat d - 48)) 0 ds"

text \<open>A StrUnsignedDecimalLiteral without exponent: digits, a point, digits, with a
  digit on at least one side.\<close>

definition dec_mantissa :: "jsstr \<Rightarrow> rat option" where
  "dec_mantissa s =
     (let a = takeWhile dec_digit s; rest = dropWhile dec_digit s
      in case rest of
        [] \<Rightarrow> if a = [] then None else Some (of_nat (digits_val a))
      | c # b \<Rightarrow> if c = 0x2E \<and> list_all dec_digit b \<and> (a \<noteq> [] \<or> b \<noteq> [])
                then Some (of_nat (digits_val (a @ b)) / 10 ^ length b) else None)"

text \<open>The literals outside the model: \<open>Infinity\<close>, a radix prefix, or a mantissa
  followed by an exponent marker.\<close>

definition num_outside :: "jsstr \<Rightarrow> bool" where
  "num_outside body =
     (body = js ''Infinity'' \<or> take 2 body \<in> {js ''0x'', js ''0X'', js ''0o'', js ''0O'', js ''0b'', js ''0B''} \<or>
      (let m = takeWhile (\<lambda>c. dec_digit c \<or> c = 0x2E) body; r = drop (length m) body
       in r \<noteq> [] \<and> hd r \<in> {0x65, 0x45} \<and> dec_mantissa m \<noteq> None))"

text \<open>StringToNumber: \<open>None\<close> outside the model, \<open>Some None\<close> for \<open>NaN\<close>.\<close>

definition str_to_num :: "jsstr \<Rightarrow> rat option option" where
  "str_to_num s =
     (let t = trim_js s
      in if t = [] then Some (Some 0)
         else let (sg, body) = (if hd t = 0x2D then (-1 :: rat, tl t) else if hd t = 0x2B then (1, tl t) else (1, t))
              in if num_outside body then None else Some (map_option (\<lambda>q. sg * q) (dec_mantissa body)))"

text \<open>The argument: a number (\<open>None\<close> for \<open>NaN\<close>) or a string.\<close>

datatype du_arg = DuNum "rat option" | DuStr jsstr

definition du_number :: "du_arg \<Rightarrow> rat option option" where
  "du_number a = (case a of DuNum x \<Rightarrow> Some x | DuStr s \<Rightarrow> str_to_num s)"

subsection \<open>The tables and patterns of the source\<close>

definition fraction :: "jsstr" where
  "fraction = [0x89D2, 0x5206]"

definition digit :: "jsstr" where
  "digit = [0x96F6, 0x58F9, 0x8D30, 0x53C1, 0x8086, 0x4F0D, 0x9646, 0x67D2, 0x634C, 0x7396]"

definition unit0 :: "jsstr" where
  "unit0 = [0x5143, 0x4E07, 0x4EBF]"

definition unit1 :: "jsstr list" where
  "unit1 = [[], [0x62FE], [0x4F70], [0x4EDF]]"

text \<open>The characters zero, yuan, "whole" and "owing".\<close>

abbreviation ling :: cu where "ling \<equiv> 0x96F6"
abbreviation yuan :: cu where "yuan \<equiv> 0x5143"
abbreviation zheng :: cu where "zheng \<equiv> 0x6574"
abbreviation qian :: cu where "qian \<equiv> 0x6B20"

text \<open>The sources of the six regular-expression literals.\<close>

definition src_zero_unit :: jsstr where "src_zero_unit = [ling, 0x2E]"
definition src_group_tail :: jsstr where "src_group_tail = [0x28, ling, 0x2E, 0x29, 0x2A, ling, 0x24]"
definition src_empty :: jsstr where "src_empty = [0x5E, 0x24]"
definition src_before_yuan :: jsstr where "src_before_yuan = [0x28, ling, 0x2E, 0x29, 0x2A, ling, yuan]"
definition src_zero_run :: jsstr where "src_zero_run = [0x28, ling, 0x2E, 0x29, 0x2B]"
definition src_lone_zheng :: jsstr where "src_lone_zheng = [0x5E, zheng, 0x24]"

text \<open>A literal denotes the expression its source parses to (each of them parses,
  \<open>du_patterns_parse\<close>).\<close>

fun the_rx :: "rx_parsed \<Rightarrow> rx" where
  "the_rx (RxOk r) = r"
| "the_rx _ = REmpty"

definition lit_replace :: "jsstr \<Rightarrow> jsstr \<Rightarrow> jsstr \<Rightarrow> jsstr" where
  "lit_replace src s t = rx_replace False (the_rx (rx_parse src)) s t"

definition lit_replace_all :: "jsstr \<Rightarrow> jsstr \<Rightarrow> jsstr \<Rightarrow> jsstr" where
  "lit_replace_all src s t = rx_replace_all False (the_rx (rx_parse src)) s t"

subsection \<open>digitUppercase\<close>

text \<open>The first loop: the digit of tenths and of hundredths with its unit, deleted when
  it is a zero.\<close>

definition frac_piece :: "rat \<Rightarrow> nat \<Rightarrow> jsstr" where
  "frac_piece n i =
     lit_replace src_zero_unit [digit ! (nat (floor (n * 10 * 10 ^ i)) mod 10), fraction ! i] []"

definition frac_part :: "rat \<Rightarrow> jsstr" where
  "frac_part n = frac_piece n 0 @ frac_piece n 1"

text \<open>The inner loop: up to four digits of \<open>num\<close>, from the lowest, each with its
  position unit, prepended to \<open>p\<close>.\<close>

function du_group :: "nat \<Rightarrow> nat \<Rightarrow> jsstr \<Rightarrow> nat \<times> jsstr" where
  "du_group j n p =
     (if j < 4 \<and> 0 < n then du_group (Suc j) (n div 10) (digit ! (n mod 10) # unit1 ! j @ p) else (n, p))"
  by pat_completeness auto
termination by (relation "measure (\<lambda>(j, n, p). 4 - j)") auto

text \<open>The outer loop: up to three groups, each cleaned and followed by its unit,
  prepended to \<open>s\<close>.\<close>

function du_units :: "nat \<Rightarrow> nat \<Rightarrow> jsstr \<Rightarrow> jsstr" where
  "du_units i n s =
     (if i < 3 \<and> 0 < n then
        (case du_group 0 n [] of
          (n', p) \<Rightarrow> du_units (Suc i) n'
                      (lit_replace src_empty (lit_replace src_group_tail p []) [ling] @ [unit0 ! i] @ s))
      else s)"
  by pat_completeness auto
termination by (relation "measure (\<lambda>(i, n, s). 3 - i)") auto

declare du_group.simps [simp del] du_units.simps [simp del]

definition du_msg :: jsstr where
  "du_msg = js ''param must be a number or string''"

definition du_convert :: "rat \<Rightarrow> jsstr" where
  "du_convert x =
     (let head = (if x < 0 then [qian] else []);
          n = \<bar>x\<bar>;
          s = frac_part n;
          s = (if s = [] then [zheng] else s);
          s = du_units 0 (nat (floor n)) s
      in head @ lit_replace src_lone_zheng
                  (lit_replace_all src_zero_run (lit_replace src_before_yuan s [yuan]) [ling])
                  [ling, yuan, zheng])"

definition digitUppercase :: "du_arg \<Rightarrow> (jsstr list \<times> jsval) option" where
  "digitUppercase num =
     (case du_number num of
       None \<Rightarrow> None
     | Some None \<Rightarrow> Some ([du_msg], JBool False)
     | Some (Some x) \<Rightarrow> Some ([], JString (du_convert x)))"

subsection \<open>Lemmas\<close>

lemma du_patterns_parse:
  "rx_parse src_zero_unit \<noteq> RxSyntax \<and> rx_parse src_zero_unit \<noteq> RxOutside"
  "rx_parse src_group_tail \<noteq> RxSyntax \<and> rx_parse src_group_tail \<noteq> RxOutside"
  "rx_parse src_empty \<noteq> RxSyntax \<and> rx_parse src_empty \<noteq> RxOutside"
  "rx_parse src_before_yuan \<noteq> RxSyntax \<and> rx_parse src_before_yuan \<noteq> RxOutside"
  "rx_parse src_zero_run \<noteq> RxSyntax \<and> rx_parse src_zero_run \<noteq> RxOutside"
  "rx_parse src_lone_zheng \<noteq> RxSyntax \<and> rx_parse src_lone_zheng \<noteq> RxOutside"
  by code_simp+

lemma zero_unit_gone: "i < 2 \<Longrightarrow> lit_replace src_zero_unit [ling, fraction ! i] [] = []"
proof -
  assume "i < 2"
  then consider "i = 0" | "i = 1" by linarith
  then show ?thesis
  proof cases
    case 1
    have "lit_replace src_zero_unit [ling, fraction ! 0] [] = []" by code_simp
    then show ?thesis using 1 by simp
  next
    case 2
    have "lit_replace src_zero_unit [ling, fraction ! 1] [] = []" by code_simp
    then show ?thesis using 2 by simp
  qed
qed

lemma nat_mod_10_mult: "nat (k * 10 * m) mod 10 = 0"
proof (cases "0 \<le> k * 10 * m")
  case True
  then have "int (nat (k * 10 * m)) = of_nat 10 * (k * m)" by simp
  then have "int 10 dvd int (nat (k * 10 * m))" by (metis dvd_triv_left)
  then have "10 dvd nat (k * 10 * m)" by (simp only: of_nat_dvd_iff)
  then show ?thesis by simp
qed simp

lemma frac_piece_int: "frac_piece (of_int k) i = lit_replace src_zero_unit [ling, fraction ! i] []"
proof -
  have "(of_int k * 10 * 10 ^ i :: rat) = of_int (k * 10 * 10 ^ i)" by simp
  then have "floor (of_int k * 10 * 10 ^ i :: rat) = k * 10 * 10 ^ i" by (simp only: floor_of_int)
  then have "nat (floor (of_int k * 10 * 10 ^ i :: rat)) mod 10 = 0" by (simp only: nat_mod_10_mult)
  then show ?thesis by (simp add: frac_piece_def digit_def)
qed

lemma frac_part_int: "frac_part (of_int k) = []"
  by (simp add: frac_part_def frac_piece_int zero_unit_gone)

lemma du_group_zeros:
  assumes "0 < m"
  shows "du_group 0 (10000 * m) [] = (m, [ling, 0x4EDF, ling, 0x4F70, ling, 0x62FE, ling])"
  using assms
  apply (subst du_group.simps, simp)
  apply (subst du_group.simps, simp add: unit1_def digit_def)
  apply (subst du_group.simps, simp add: unit1_def digit_def)
  apply (subst du_group.simps, simp add: unit1_def digit_def)
  apply (subst du_group.simps, simp add: unit1_def digit_def)
  done

lemma zero_group_cleaned:
  "lit_replace src_empty (lit_replace src_group_tail [ling, 0x4EDF, ling, 0x4F70, ling, 0x62FE, ling] []) [ling] = [ling]"
  by code_simp

lemma zero_groups_final:
  "lit_replace src_lone_zheng (lit_replace_all src_zero_run
      (lit_replace src_before_yuan [ling, 0x4EBF, ling, 0x4E07, ling, yuan, zheng] [yuan]) [ling])
    [ling, yuan, zheng] = [yuan, zheng]"
  by code_simp

lemma du_units_zero_step:
  assumes "i < 3" "0 < m"
  shows "du_units i (10000 * m) s = du_units (Suc i) m (ling # unit0 ! i # s)"
  using assms by (subst du_units.simps) (simp add: du_group_zeros zero_group_cleaned)

lemma du_units_done: "du_units 3 n s = s"
  by (subst du_units.simps) simp

text \<open>C40: The loops stop after three groups of four digits, so every multiple
  \<open>k * 10^12\<close> yuan with \<open>1 \<le> k \<le> 10^6\<close> is written as yuan-zheng, an amount of
  zero: the digits from 10^12 up are dropped without an error. The bound on \<open>k\<close>
  keeps the computation exact in binary64: \<open>num * 10 * 10^i\<close> (\<open>i \<le> 1\<close>) is
  \<open>k * 5^(13+i) * 2^(13+i)\<close> with an odd part below 2^53, and each
  \<open>Math.floor(num / 10)\<close> of the loop is an exact multiple of ten divided by ten.\<close>

theorem digitUppercase_trillions:
  assumes "1 \<le> k" "k \<le> 1000000"
  shows "digitUppercase (DuNum (Some (of_int (k * 10 ^ 12)))) = Some ([], JString [yuan, zheng])"
proof -
  let ?m = "nat k"
  have m: "0 < ?m" "0 < 10000 * ?m" "0 < 10000 * (10000 * ?m)" using assms by simp_all
  have n: "nat (k * 1000000000000) = 10000 * (10000 * (10000 * ?m))" using assms by (simp add: nat_mult_distrib)
  have "du_units 0 (10000 * (10000 * (10000 * ?m))) [zheng] = du_units 1 (10000 * (10000 * ?m)) [ling, yuan, zheng]"
    using du_units_zero_step [of 0 "10000 * (10000 * ?m)" "[zheng]"] m by (simp add: unit0_def)
  also have "\<dots> = du_units 2 (10000 * ?m) [ling, 0x4E07, ling, yuan, zheng]"
    using du_units_zero_step [of 1 "10000 * ?m" "[ling, yuan, zheng]"] m by (simp add: unit0_def numeral_2_eq_2)
  also have "\<dots> = du_units 3 ?m [ling, 0x4EBF, ling, 0x4E07, ling, yuan, zheng]"
    using du_units_zero_step [of 2 ?m "[ling, 0x4E07, ling, yuan, zheng]"] m
    by (simp add: unit0_def numeral_3_eq_3 numeral_2_eq_2)
  also have "\<dots> = [ling, 0x4EBF, ling, 0x4E07, ling, yuan, zheng]" by (rule du_units_done)
  finally have u: "du_units 0 (nat (k * 1000000000000)) [zheng] = [ling, 0x4EBF, ling, 0x4E07, ling, yuan, zheng]"
    by (simp only: n)
  have fl: "nat (floor (of_int (k * 10 ^ 12) :: rat)) = nat (k * 10 ^ 12)" by (simp only: floor_of_int)
  have "\<bar>of_int (k * 10 ^ 12) :: rat\<bar> = of_int (k * 10 ^ 12)" using assms by simp
  then show ?thesis using assms
    by (simp add: digitUppercase_def du_number_def du_convert_def Let_def frac_part_int fl u zero_groups_final
        del: of_int_mult of_int_power)
qed

lemma du_300_parts:
  "du_units 0 300 [zheng] = [0x53C1, 0x4F70, yuan, zheng]"
  "lit_replace src_lone_zheng (lit_replace_all src_zero_run
      (lit_replace src_before_yuan [0x53C1, 0x4F70, yuan, zheng] [yuan]) [ling]) [ling, yuan, zheng] =
   [0x53C1, 0x4F70, yuan, zheng]"
  "str_to_num (js ''abc'') = Some None"
  by code_simp+

text \<open>On the inputs of src/test/index.js \<open>digitUppercase\<close> behaves as the
  tests expect: 300 gives the truthy string for three hundred yuan, whole, and 'abc'
  logs its message and returns \<open>false\<close>.\<close>

theorem digitUppercase_test_file:
  "digitUppercase (DuNum (Some 300)) = Some ([], JString [0x53C1, 0x4F70, yuan, zheng]) \<and>
   truthy (JString [0x53C1, 0x4F70, yuan, zheng]) \<and>
   digitUppercase (DuStr (js ''abc'')) = Some ([du_msg], JBool False) \<and> \<not> truthy (JBool False)"
proof -
  have "frac_part (300 :: rat) = []" using frac_part_int [of 300] by simp
  then show ?thesis
    by (simp add: digitUppercase_def du_number_def du_convert_def Let_def du_300_parts)
qed


theorem digitUppercase_trillions_witness:
  "1 \<le> (1 :: int) \<and> (1 :: int) \<le> 1000000 \<and> digitUppercase (DuNum (Some (of_int (1 * 10 ^ 12)))) = Some ([], JString [yuan, zheng])"
  using digitUppercase_trillions [of 1] by simp

end
