(* ===== verification/Spec2Isabelle.thy ===== *)
theory Spec2Isabelle
  imports Query_String Key_Code Browser_Version JS_Time Cookie_Store Class_Name Validators
    Random_Color Document Deep_Clone Moment Digit_Uppercase
begin

text \<open>
  A verification development for the browser utility library of src/index.js. The
  library is a set of independent functions; the ones whose behaviour is a computation
  on strings, numbers, values or a page state are modelled here, one theory per group,
  with the JavaScript builtins and browser facilities they call modelled from their
  specifications beside them.

  \<^bold>\<open>Theories and what they model.\<close>

  \<^item> \<open>JS_Prelude\<close>: the vocabulary. A JavaScript string is a list of UTF-16 code
    units (\<open>16 word\<close>); \<open>js\<close> reads an ASCII literal of the source. A fallible
    operation returns \<open>js_error + 'a\<close>, with \<open>Inl\<close> the thrown error
    (\<open>URIError\<close>, \<open>SyntaxError\<close>, \<open>TypeError\<close>, \<open>ReferenceError\<close>,
    \<open>Error msg\<close> for \<open>throw new Error(msg)\<close>). The String and Array builtins
    (\<open>split\<close>, \<open>join\<close>, \<open>lastIndexOf\<close>, \<open>substring\<close>, a one-character global
    \<open>replace\<close>, decimal printing) and the \<open>\s\<close> class (\<open>is_js_space\<close>), with the
    lemmas the components share.
  \<^item> \<open>URI_Codec\<close>: \<open>encodeURIComponent\<close> and \<open>decodeURIComponent\<close> (Encode and
    Decode of ECMA-262), UTF-8, surrogate pairs and \<open>URIError\<close>; decoding is a
    \<open>function\<close> terminating by the length of its input.
  \<^item> \<open>JS_Values\<close>: values as trees whose arrays and objects carry an allocation
    address (so that \<open>===\<close> is identity), \<open>ToString\<close>, property creation and
    assignment (the \<open>__proto__\<close> setter creates no own property), and the source's
    \<open>arrayEqual\<close> (lines 7-30) and \<open>isEmptyObject\<close> (411-417).
  \<^item> \<open>JSON_Parse\<close>: \<open>JSON.parse\<close>, three mutually recursive parsers with fuel
    \<open>2 * length text + 1\<close>; \<open>json_fuel\<close> shows more fuel changes nothing.
  \<^item> \<open>Query_String\<close>: \<open>parseQueryString\<close>, \<open>parseUrlQuery\<close>,
    \<open>stringifyQueryString\<close>, \<open>stringifyUrlQuery\<close> (lines 639-703), with
    \<open>window.location.href\<close> as a parameter.
  \<^item> \<open>Key_Code\<close>: \<open>keyCodeMap\<close> and \<open>getKeyName\<close> (240-361), the console output
    returned as a list of lines.
  \<^item> \<open>Browser_OS\<close>: \<open>getOS\<close> (147-158) over a navigator record of optional
    strings. \<open>Browser_Version\<close>: \<open>getBrowser\<close> (119-141) with the global scope
    as the set of names it binds, and \<open>isSupportWebP\<close> (510-512) over the data URL
    the canvas returns.
  \<^item> \<open>JS_Time\<close>: \<open>formatPassTime\<close> and \<open>formatRemainTime\<close> (590-631), the
    clock a parameter, numbers as exact rationals, and \<open>parseInt\<close> of a number read
    through its \<open>ToString\<close> form (exponent notation below 1e-6).
  \<^item> \<open>Cookie\<close>: \<open>getCookie\<close> (102-112) over the text of \<open>document.cookie\<close>.
    \<open>Cookie_Store\<close>: \<open>setCookie\<close> and \<open>removeCookie\<close> (82-95) over a cookie store
    following the storage model of RFC 6265, the clock a parameter; the stores reachable
    by any sequence of calls are the inductive set \<open>cookie_reach\<close>.
  \<^item> \<open>JS_Regex\<close>: regular expressions as the utilities use them. A pattern is parsed
    (Annex B grammar, fuel \<open>3 * length + 3\<close>, which each nested call reduces) into
    \<open>rx\<close>; \<open>ends\<close> gives the end positions of a match from a position in the
    backtracking order of the specification, terminating by the measure (size,
    repetition count, remaining input). Capture contents, backreferences, named groups
    and lookbehind are outside the model (\<open>RxOutside\<close>). Static facts
    (\<open>anchor_free\<close>, \<open>rx_chars\<close>, \<open>rx_lens\<close>, \<open>bol_first\<close>,
    \<open>eol_last\<close>) let the lemmas speak of every input. A global replacement
    (\<open>rx_replace_all\<close>) collects the matches from \<open>lastIndex\<close> 0, one position
    further after an empty match, a \<open>function\<close> terminating by the remaining input.
  \<^item> \<open>Class_Name\<close>: \<open>hasClass\<close>, \<open>addClass\<close>, \<open>removeClass\<close> (40-73), the
    element a record of its \<open>className\<close>, the pattern built from the class name.
  \<^item> \<open>Validators\<close>: \<open>isEmail\<close>, \<open>isIDCard\<close>, \<open>isPhone\<close>, \<open>isUrl\<close>
    (434-466), each literal kept as its source text and parsed.
  \<^item> \<open>Random_Color\<close>: \<open>randomColor\<close> (424-426), \<open>Math.random()\<close> a parameter,
    ToInt32 through \<open>32 word\<close>.
  \<^item> \<open>Document\<close>: \<open>getScrollTop\<close>, \<open>setScrollTop\<close>, \<open>offset\<close>,
    \<open>requestAnimFrame\<close>, \<open>scrollTo\<close> (164-237): the page as a record with its
    animation-frame queue, runs as the step relation \<open>smooth_step\<close>, and the
    \<open>offset\<close> loop as a \<open>partial_function\<close> in the option monad (\<open>None\<close> when
    it does not end).
  \<^item> \<open>Deep_Clone\<close>: \<open>deepClone\<close> (368-404) with an allocation counter for the new
    arrays and objects.
  \<^item> \<open>JS_Date\<close>: the time-value arithmetic of \<open>Date\<close> (ECMA-262 21.4.1): days,
    years with the Gregorian leap rule, months, dates, week days, \<open>MakeDay\<close> and
    \<open>MakeDate\<close>; the year of a day computed from the mean year and one correction.
  \<^item> \<open>Moment\<close>: \<open>clone\<close>, \<open>pad\<close>, the \<open>Moment\<close> constructor and its seven
    methods (519-583). The object is a record of its time value; each method returns
    its result and the new object; the \<open>Date\<close> getters and setters work in local time
    at a fixed offset \<open>tza\<close>, the clock \<open>now\<close> a parameter; \<open>moment_reach\<close> is the
    set of objects any sequence of calls reaches.
  \<^item> \<open>Digit_Uppercase\<close>: \<open>digitUppercase\<close> (474-508): \<open>Number()\<close> of its
    argument, the fraction loop, the two nested group loops as terminating functions,
    and the six regular-expression literals parsed and applied by the matcher of
    \<open>JS_Regex\<close>.

  \<^bold>\<open>What is proved.\<close> Round trips: parse after stringify for both query codecs,
  decode after encode, getCookie after setCookie. Refinements: getCookie is lookup in
  the store, hasClass is membership in the white-space separated tokens and addClass
  appends to them. Invariants: every reachable cookie store has one cookie per name;
  no smooth-scroll run moves the page. Equivalences: the time formatting with
  floor-and-remainder chains equals integer division; deepClone equals its argument up
  to identity with fresh allocations; the computed year of a day is the specification's
  largest year not after it. Every reachable \<open>Moment\<close> holds a time value (each
  setter applies TimeClip). Moment's date arithmetic: \<open>addDate(n)\<close> moves by exactly \<open>n\<close> days,
  \<open>date(n)\<close> reads back, \<open>format()\<close> writes the local fields, \<open>addMonths\<close>
  runs over the end of a short month. Termination: \<open>offset\<close> returns exactly when the
  parent chain ends. Bounds: the fields of formatRemainTime, the strings isPhone
  accepts, the colours randomColor produces, the amounts digitUppercase can write
  (multiples of 10^12 come out as zero). The test expectations of src/test/index.js
  for the validators and for digitUppercase hold of the model (checked by evaluation,
  as lemmas). Findings proved as theorems: the query codec's
  breakage on \<open>=\<close> in values and on full URLs; getOS's unreachable branches;
  formatPassTime's "days ago" for a few milliseconds; getCookie's cut at \<open>=\<close> and
  its white-space handling; removeClass merging the neighbouring classes; isEmail
  unanchored; isIDCard accepting \<open>|\<close> and month 00; getBrowser always throwing
  (\<open>sys\<close> is undeclared); setCookie storing values getCookie cannot decode; scrollTo
  never arriving (\<open>Math.ads\<close>); digitUppercase dropping the digits from 10^12 up; Moment's addMonths overflowing into the next month.

  \<^bold>\<open>Bounds and fuel.\<close> The JSON and pattern parsers take fuel linear in their
  input, enough because every nested call consumes input within a bounded number of
  calls; the regular-expression matcher, the global replacement, the URI decoder and
  digitUppercase's loops (at most 3 groups of 4 digits, as in the source) are total
  functions with measures; the \<open>offset\<close> loop is the only unbounded loop and is a
  partial function. Where a theorem speaks of numbers the source computes with doubles,
  its hypotheses keep every intermediate value in the range where binary64 is exact:
  formatPassTime's differences at most 2^53 ms (the quotients by 60000 and
  more then floor to the integer quotient, half an ulp being below 1/60000), and
  digitUppercase's multiples \<open>k * 10^12\<close> with \<open>k \<le> 10^6\<close> (every product
  \<open>num * 10 * 10^i\<close> has an odd part below 2^53).

  \<^bold>\<open>Not modelled.\<close> The canvas drawing behind \<open>isSupportWebP\<close> (its data URL
  is a parameter); \<open>Date\<close> values in \<open>deepClone\<close> (the value model has no
  \<open>Date\<close>); string arguments of \<open>scrollTo\<close>, of the time functions and of the
  \<open>Moment\<close> constructor, which go through \<open>Number\<close> or date parsing; in
  digitUppercase, strings with an exponent, a radix prefix or \<open>Infinity\<close> (the
  model returns \<open>None\<close>); IEEE rounding (numbers are integers or exact rationals,
  so digitUppercase's \<open>num * 10 * 10^i\<close> is exact where a double may round, e.g.
  \<open>0.47 * 10 * 10\<close>; the theorems bound their inputs to the exact range);
  daylight-saving changes of the local offset; the printing of a \<open>Date\<close> in the
  cookie \<open>expires\<close> attribute (taken to denote the instant \<open>setDate\<close>
  computes); capture contents in regular expressions.
\<close>

end
